(* ===== verification/Dispatch_Prelude.thy ===== *)
theory Dispatch_Prelude
  imports Complex_Main "HOL-Library.Signed_Division" "HOL-Library.Sublist" "HOL-Library.Multiset"
    "HOL-Library.Char_ord" "HOL-Library.List_Lexorder" "HOL-Library.Product_Lexorder"
begin

text \<open>
  Vocabulary shared by the component theories of the Dispatch development:
  the Go types the whole program uses (\<open>time.Time\<close>, \<open>time.Duration\<close>, decimal
  printing), database tables as lists of rows with the few list operations that
  SQL statements are built from, and generic facts about them.

  A \<open>time.Time\<close> is the number of nanoseconds since Go's zero time (1 January of
  year 1, UTC), so that \<open>IsZero\<close> is equality with \<open>0\<close>; a \<open>time.Duration\<close> is a
  number of nanoseconds.  A string is a list of bytes, as in Go.
\<close>

named_theorems row_simps \<open>rewriting of row updates and row selections in a table\<close>
named_theorems keeps \<open>an operation keeps an invariant\<close>

type_synonym time = int
type_synonym Duration = int

abbreviation Microsecond :: Duration where "Microsecond \<equiv> 1000"
abbreviation Millisecond :: Duration where "Millisecond \<equiv> 1000000"
abbreviation Second :: Duration where "Second \<equiv> 1000000000"
abbreviation Minute :: Duration where "Minute \<equiv> 60000000000"
abbreviation Hour :: Duration where "Hour \<equiv> 3600000000000"

text \<open>Go's integer division truncates towards zero.\<close>

definition Microseconds :: "Duration \<Rightarrow> int" where
  "Microseconds d = d sdiv 1000"

definition Milliseconds :: "Duration \<Rightarrow> int" where
  "Milliseconds d = d sdiv 1000000"

definition IsZero :: "time \<Rightarrow> bool" where
  "IsZero t \<longleftrightarrow> t = 0"

text \<open>\<open>Time.Unix\<close> and \<open>Time.UnixMilli\<close>: 62135596800 seconds lie between Go's zero time
  and the Unix epoch.\<close>

definition Unix :: "time \<Rightarrow> int" where
  "Unix t = t div 1000000000 - 62135596800"

definition UnixMilli :: "time \<Rightarrow> int" where
  "UnixMilli t = t div 1000000 - 62135596800000"

text \<open>Decimal printing, as \<open>strconv.FormatInt\<close> with base 10 and the verb \<open>%d\<close>.\<close>

definition digit :: "nat \<Rightarrow> char" where
  "digit d = ''0123456789'' ! d"

fun nat_digits :: "nat \<Rightarrow> string" where
  "nat_digits n = (if n < 10 then [digit n] else nat_digits (n div 10) @ [digit (n mod 10)])"

declare nat_digits.simps [simp del]

definition FormatInt :: "int \<Rightarrow> string" where
  "FormatInt i = (if i < 0 then ''-'' @ nat_digits (nat (- i)) else nat_digits (nat i))"

lemma digit_inj: "i < 10 \<Longrightarrow> j < 10 \<Longrightarrow> digit i = digit j \<Longrightarrow> i = j"
  using nth_eq_iff_index_eq [of "''0123456789''" i j] by (simp add: digit_def)

lemma nat_digits_inj: "nat_digits m = nat_digits n \<Longrightarrow> m = n"
proof (induction m arbitrary: n rule: nat_digits.induct)
  case (1 m)
  have ne: "nat_digits k \<noteq> []" for k by (subst nat_digits.simps) simp
  show ?case
  proof (cases "m < 10 \<or> n < 10")
    case True
    with "1.prems" show ?thesis
      by (subst (asm) (1 2) nat_digits.simps)
         (auto simp: ne append_eq_Cons_conv Cons_eq_append_conv dest: digit_inj split: if_splits)
  next
    case False
    then have "nat_digits (m div 10) @ [digit (m mod 10)] = nat_digits (n div 10) @ [digit (n mod 10)]"
      using "1.prems" by (subst (asm) (1 2) nat_digits.simps) simp
    then have "m div 10 = n div 10" "m mod 10 = n mod 10"
      using "1.IH" [of "n div 10"] False digit_inj [of "m mod 10" "n mod 10"] by auto
    then show ?thesis by (metis div_mult_mod_eq)
  qed
qed

lemma set_nat_digits: "c \<in> set (nat_digits n) \<Longrightarrow> c \<in> set ''0123456789''"
proof (induction n rule: nat_digits.induct)
  case (1 n)
  have d: "i < 10 \<Longrightarrow> digit i \<in> set ''0123456789''" for i
    unfolding digit_def by (rule nth_mem) simp
  have "c \<in> set (if n < 10 then [digit n] else nat_digits (n div 10) @ [digit (n mod 10)])"
    using "1.prems" by (subst (asm) nat_digits.simps)
  then show ?case
    using "1.IH" d [of n] d [of "n mod 10"] by (cases "n < 10") auto
qed

text \<open>Non-nil pointers of a Go slice of pointers.\<close>

definition somes :: "'a option list \<Rightarrow> 'a list" where
  "somes xs = List.map_filter id xs"

lemma somes_simps [simp]:
  "somes [] = []" "somes (None # xs) = somes xs" "somes (Some x # xs) = x # somes xs"
  "somes (xs @ ys) = somes xs @ somes ys" "somes (map Some zs) = zs"
  by (simp_all add: somes_def map_filter_def)

lemma set_somes: "set (somes xs) = {x. Some x \<in> set xs}"
  by (induction xs) (auto simp: somes_def map_filter_def)

text \<open>The last non-nil element, the least and the greatest of the non-nil times.\<close>

definition last_some :: "'a option list \<Rightarrow> 'a option" where
  "last_some xs = (if somes xs = [] then None else Some (last (somes xs)))"

definition least_some :: "time option list \<Rightarrow> time option" where
  "least_some xs = (if somes xs = [] then None else Some (Min (set (somes xs))))"

definition greatest_some :: "time option list \<Rightarrow> time option" where
  "greatest_some xs = (if somes xs = [] then None else Some (Max (set (somes xs))))"

lemma last_some_map:
  "last_some (map f xs) = (let ys = filter (\<lambda>x. f x \<noteq> None) xs in if ys = [] then None else f (last ys))"
  by (induction xs rule: rev_induct) (auto simp: last_some_def Let_def split: option.splits)

lemma last_some_snoc:
  "last_some (xs @ [y]) = (case y of None \<Rightarrow> last_some xs | Some z \<Rightarrow> Some z)"
  by (cases y) (simp_all add: last_some_def)

lemma least_some_snoc:
  "least_some (xs @ [y]) =
     (case y of None \<Rightarrow> least_some xs
      | Some z \<Rightarrow> (case least_some xs of None \<Rightarrow> Some z | Some m \<Rightarrow> Some (min m z)))"
  by (cases y) (simp_all add: least_some_def min.commute)

lemma greatest_some_snoc:
  "greatest_some (xs @ [y]) =
     (case y of None \<Rightarrow> greatest_some xs
      | Some z \<Rightarrow> (case greatest_some xs of None \<Rightarrow> Some z | Some m \<Rightarrow> Some (max m z)))"
  by (cases y) (simp_all add: greatest_some_def max.commute)

lemma some_aggregates_Nil [simp]:
  "last_some [] = None" "least_some [] = None" "greatest_some [] = None"
  by (simp_all add: last_some_def least_some_def greatest_some_def)

subsection \<open>Tables\<close>

text \<open>
  A table is the list of its rows; the position of a row means nothing, and every
  statement about tables holds for all row orders.  \<open>update_where\<close> is the effect of
  \<open>UPDATE ... WHERE\<close>, \<open>RowsAffected\<close> its command tag, \<open>has_row\<close> an existence test.
\<close>

definition update_where :: "('r \<Rightarrow> bool) \<Rightarrow> ('r \<Rightarrow> 'r) \<Rightarrow> 'r list \<Rightarrow> 'r list" where
  "update_where P f rs = map (\<lambda>r. if P r then f r else r) rs"

definition RowsAffected :: "('r \<Rightarrow> bool) \<Rightarrow> 'r list \<Rightarrow> nat" where
  "RowsAffected P rs = length (filter P rs)"

definition has_row :: "('r \<Rightarrow> bool) \<Rightarrow> 'r list \<Rightarrow> bool" where
  "has_row P rs \<longleftrightarrow> (\<exists>r \<in> set rs. P r)"

text \<open>A row is selected by its primary key: \<open>key_unique\<close> says that the key is one.\<close>

definition key_unique :: "('r \<Rightarrow> 'k) \<Rightarrow> 'r list \<Rightarrow> bool" where
  "key_unique key rs \<longleftrightarrow> distinct (map key rs)"

lemma update_where_simps [simp]:
  "update_where P f [] = []"
  "update_where P f (r # rs) = (if P r then f r else r) # update_where P f rs"
  "length (update_where P f rs) = length rs"
  by (simp_all add: update_where_def)

lemma set_update_where:
  "set (update_where P f rs) = {r \<in> set rs. \<not> P r} \<union> f ` {r \<in> set rs. P r}"
  by (auto simp: update_where_def)

lemma update_where_none [simp]: "(\<And>r. r \<in> set rs \<Longrightarrow> \<not> P r) \<Longrightarrow> update_where P f rs = rs"
  by (induction rs) auto

lemma map_update_where [row_simps]:
  assumes "\<And>r. r \<in> set rs \<Longrightarrow> P r \<Longrightarrow> g (f r) = g r"
  shows "map g (update_where P f rs) = map g rs"
  using assms by (induction rs) auto

lemma key_unique_Nil [simp]: "key_unique key []"
  by (simp add: key_unique_def)

lemma key_unique_update_where:
  assumes "key_unique key rs" and "\<And>r. r \<in> set rs \<Longrightarrow> P r \<Longrightarrow> key (f r) = key r"
  shows "key_unique key (update_where P f rs)"
  using assms map_update_where [of rs P key f] by (simp add: key_unique_def)

lemma key_unique_snoc:
  "key_unique key (rs @ [r]) \<longleftrightarrow> key_unique key rs \<and> \<not> has_row (\<lambda>q. key q = key r) rs"
  by (auto simp: key_unique_def has_row_def image_iff)

lemma key_unique_filter: "key_unique key rs \<Longrightarrow> key_unique key (filter P rs)"
  by (simp add: key_unique_def distinct_map_filter)

lemma key_unique_eq:
  assumes "key_unique key rs" "r \<in> set rs" "q \<in> set rs" "key r = key q"
  shows "r = q"
  using assms by (auto simp: key_unique_def distinct_map inj_on_def)

lemma has_row_simps [simp]:
  "\<not> has_row P []" "has_row P (r # rs) \<longleftrightarrow> P r \<or> has_row P rs"
  "has_row P (rs @ qs) \<longleftrightarrow> has_row P rs \<or> has_row P qs"
  by (auto simp: has_row_def)

lemma has_row_update_where [row_simps]:
  assumes "\<And>r. r \<in> set rs \<Longrightarrow> P r \<Longrightarrow> Q (f r) = Q r"
  shows "has_row Q (update_where P f rs) \<longleftrightarrow> has_row Q rs"
  using assms by (induction rs) auto

lemma RowsAffected_key:
  assumes "key_unique key rs"
  shows "RowsAffected (\<lambda>r. key r = k \<and> P r) rs = (if has_row (\<lambda>r. key r = k \<and> P r) rs then 1 else 0)"
  using assms
proof (induction rs)
  case Nil
  then show ?case by (simp add: RowsAffected_def)
next
  case (Cons r rs)
  have "key r = k \<Longrightarrow> q \<in> set rs \<Longrightarrow> key q \<noteq> k" for q
    using Cons.prems by (force simp: key_unique_def image_iff)
  then have "key r = k \<Longrightarrow> filter (\<lambda>r. key r = k \<and> P r) rs = []"
    and "key r = k \<Longrightarrow> \<not> has_row (\<lambda>r. key r = k \<and> P r) rs"
    by (auto simp: filter_empty_conv has_row_def)
  then show ?case
    using Cons by (auto simp: RowsAffected_def key_unique_def has_row_def)
qed

text \<open>\<open>ORDER BY ... LIMIT n\<close>: the first \<open>n\<close> rows of a stable sort.\<close>

definition order_limit :: "('r \<Rightarrow> 'o :: linorder) \<Rightarrow> nat \<Rightarrow> 'r list \<Rightarrow> 'r list" where
  "order_limit key n rs = take n (sort_key key rs)"

lemma set_order_limit: "set (order_limit key n rs) \<subseteq> set rs"
  unfolding order_limit_def by (metis set_sort set_take_subset)

lemma length_order_limit: "length (order_limit key n rs) = min n (length rs)"
  by (simp add: order_limit_def)

lemma order_limit_all: "length rs \<le> n \<Longrightarrow> set (order_limit key n rs) = set rs"
  by (simp add: order_limit_def)

lemma distinct_order_limit:
  assumes "distinct (map k rs)" shows "distinct (map k (order_limit key n rs))"
proof -
  have "mset (map k (sort_key key rs)) = mset (map k rs)" by simp
  then have "distinct (map k (sort_key key rs))"
    using assms mset_eq_imp_distinct_iff by blast
  then show ?thesis
    by (simp add: order_limit_def take_map [symmetric])
qed

text \<open>No row that was left out sorts strictly before a row that was taken.\<close>

lemma order_limit_least:
  assumes "r \<in> set (order_limit key n rs)" and "q \<in> set rs" and "q \<notin> set (order_limit key n rs)"
  shows "key r \<le> key q"
proof -
  let ?s = "sort_key key rs"
  have srt: "sorted (map key (take n ?s @ drop n ?s))" by simp
  have "q \<in> set (drop n ?s)"
    using assms(2,3) unfolding order_limit_def
    by (metis append_take_drop_id set_append set_sort Un_iff)
  then show ?thesis
    using srt assms(1) unfolding order_limit_def map_append sorted_append by auto
qed

end
