(* ===== verification/Domain.thy ===== *)
theory Domain
  imports Dispatch_Prelude
begin

text \<open>
  The package \<^verbatim>\<open>internal/domain\<close>: the error values, events, subscriptions and
  deliveries, the state changes of a delivery, and the projection of an event's
  status from its deliveries.

  The lemmas show what a subscription filter matches, when delivery identifiers are
  unique, that the one-pass projection loop computes the documented precedence
  (\<open>processing > retrying > throttled > pending > failed > delivered\<close>) together with the
  greatest attempt count, the earliest next attempt and the latest delivery time, and
  how replay opens a new generation.
\<close>

subsection \<open>Errors\<close>

text \<open>
  Go error values: the sentinels of \<^verbatim>\<open>domain/errors.go\<close>, \<^verbatim>\<open>repository.ErrClaimLost\<close> and
  \<^verbatim>\<open>kafka.ErrRateLimited\<close>, any other error by its text, and \<open>fmt.Errorf("...: %w", err)\<close>.
\<close>

datatype error =
    ErrNotFound
  | ErrAlreadyExists
  | ErrInvalidInput
  | ErrReplayNotEligible
  | ErrClaimLost
  | ErrRateLimited
  | ErrText string
  | ErrWrap string error

fun Error :: "error \<Rightarrow> string" where
  "Error ErrNotFound = ''resource not found''"
| "Error ErrAlreadyExists = ''resource already exists''"
| "Error ErrInvalidInput = ''invalid input''"
| "Error ErrReplayNotEligible = ''delivery is not eligible for replay''"
| "Error ErrClaimLost = ''retry claim lost''"
| "Error ErrRateLimited = ''rate limited''"
| "Error (ErrText s) = s"
| "Error (ErrWrap s e) = s @ '': '' @ Error e"

text \<open>\<open>errors.Is\<close> follows the chain of wrapped errors.\<close>

fun errors_Is :: "error \<Rightarrow> error \<Rightarrow> bool" where
  "errors_Is (ErrWrap s e) target = (ErrWrap s e = target \<or> errors_Is e target)"
| "errors_Is e target = (e = target)"

subsection \<open>Events and attempts\<close>

text \<open>
  \<open>EventStatus\<close> is a string type in Go; \<open>EventStatusEmpty\<close> is its zero value, the
  empty string.
\<close>

datatype EventStatus =
    EventStatusEmpty
  | EventStatusPending
  | EventStatusProcessing
  | EventStatusDelivered
  | EventStatusRetrying
  | EventStatusThrottled
  | EventStatusFailed

record Event =
  ev_ID :: string
  ev_Type :: string
  ev_Source :: string
  ev_Data :: string
  ev_Status :: EventStatus
  ev_Attempts :: int
  ev_MaxAttempts :: int
  ev_NextAttemptAt :: "time option"
  ev_LastError :: "string option"
  ev_CreatedAt :: time
  ev_UpdatedAt :: time
  ev_DeliveredAt :: "time option"

record DeliveryAttempt =
  at_ID :: int
  at_EventID :: string
  at_DeliveryID :: string
  at_SubscriptionID :: string
  at_AttemptNumber :: int
  at_Generation :: int
  at_StatusCode :: "int option"
  at_ResponseBody :: "string option"
  at_Error :: "string option"
  at_DurationMs :: int
  at_CreatedAt :: time

subsection \<open>Subscriptions\<close>

definition DefaultSubscriptionMaxDeliveryRate :: int where
  "DefaultSubscriptionMaxDeliveryRate = 100"

record Subscription =
  sub_ID :: string
  sub_URL :: string
  sub_EventTypes :: "string list"
  sub_Secret :: "string option"
  sub_MaxDeliveryRate :: int
  sub_CreatedAt :: time
  sub_Active :: bool

record RatePolicy =
  rp_RequestsPerSecond :: int

definition EffectiveRatePolicy :: "Subscription \<Rightarrow> RatePolicy" where
  "EffectiveRatePolicy s =
     (let rate = sub_MaxDeliveryRate s;
          rate = (if rate \<le> 0 then DefaultSubscriptionMaxDeliveryRate else rate)
      in \<lparr>rp_RequestsPerSecond = rate\<rparr>)"

definition matchWildcard :: "string \<Rightarrow> string \<Rightarrow> bool" where
  "matchWildcard pattern eventType =
     (if length pattern = 0 then length eventType = 0
      else if pattern ! (length pattern - 1) = CHR ''*'' then
        (let pre = take (length pattern - 1) pattern
         in length eventType \<ge> length pre \<and> take (length pre) eventType = pre)
      else pattern = eventType)"

fun matches_any :: "string list \<Rightarrow> string \<Rightarrow> bool" where
  "matches_any [] eventType = False"
| "matches_any (t # ts) eventType =
     (if t = ''*'' \<or> t = eventType then True
      else if matchWildcard t eventType then True
      else matches_any ts eventType)"

definition MatchesEventType :: "Subscription \<Rightarrow> string \<Rightarrow> bool" where
  "MatchesEventType s eventType = matches_any (sub_EventTypes s) eventType"

subsection \<open>Deliveries\<close>

datatype DeliveryStatus =
    DeliveryStatusPending
  | DeliveryStatusProcessing
  | DeliveryStatusDelivered
  | DeliveryStatusRetrying
  | DeliveryStatusThrottled
  | DeliveryStatusFailed

record Delivery =
  dl_ID :: string
  dl_EventID :: string
  dl_SubscriptionID :: string
  dl_EventType :: string
  dl_Source :: string
  dl_Data :: string
  dl_SubscriptionURL :: string
  dl_SubscriptionSecret :: "string option"
  dl_MaxDeliveryRate :: int
  dl_Status :: DeliveryStatus
  dl_Attempts :: int
  dl_MaxAttempts :: int
  dl_Generation :: int
  dl_NextAttemptAt :: "time option"
  dl_LastError :: "string option"
  dl_CreatedAt :: time
  dl_UpdatedAt :: time
  dl_DeliveredAt :: "time option"
  dl_ProcessingOwner :: "string option"
  dl_ProcessingDeadline :: "time option"

record EventProjection =
  pj_Status :: EventStatus
  pj_Attempts :: int
  pj_NextAttemptAt :: "time option"
  pj_LastError :: "string option"
  pj_DeliveredAt :: "time option"

definition DeliveryID :: "string \<Rightarrow> string \<Rightarrow> string" where
  "DeliveryID eventID subscriptionID = eventID @ '':'' @ subscriptionID"

text \<open>The argument \<open>now\<close> of the following operations is the value \<open>time.Now()\<close> returns in them.\<close>

definition NewDelivery :: "time \<Rightarrow> Event \<Rightarrow> Subscription \<Rightarrow> Delivery" where
  "NewDelivery now event sub =
     \<lparr>dl_ID = DeliveryID (ev_ID event) (sub_ID sub),
      dl_EventID = ev_ID event,
      dl_SubscriptionID = sub_ID sub,
      dl_EventType = ev_Type event,
      dl_Source = ev_Source event,
      dl_Data = ev_Data event,
      dl_SubscriptionURL = sub_URL sub,
      dl_SubscriptionSecret = sub_Secret sub,
      dl_MaxDeliveryRate = rp_RequestsPerSecond (EffectiveRatePolicy sub),
      dl_Status = DeliveryStatusPending,
      dl_Attempts = ev_Attempts event,
      dl_MaxAttempts = ev_MaxAttempts event,
      dl_Generation = 1,
      dl_NextAttemptAt = None,
      dl_LastError = None,
      dl_CreatedAt = now,
      dl_UpdatedAt = now,
      dl_DeliveredAt = None,
      dl_ProcessingOwner = None,
      dl_ProcessingDeadline = None\<rparr>"

definition MarkAsProcessing :: "time \<Rightarrow> string \<Rightarrow> time \<Rightarrow> Delivery \<Rightarrow> Delivery" where
  "MarkAsProcessing now owner deadline d =
     d\<lparr>dl_Status := DeliveryStatusProcessing,
       dl_ProcessingOwner := Some owner,
       dl_ProcessingDeadline := Some deadline,
       dl_UpdatedAt := now\<rparr>"

definition MarkAsDelivered :: "time \<Rightarrow> Delivery \<Rightarrow> Delivery" where
  "MarkAsDelivered deliveredAt d =
     d\<lparr>dl_Status := DeliveryStatusDelivered,
       dl_DeliveredAt := Some deliveredAt,
       dl_NextAttemptAt := None,
       dl_LastError := None,
       dl_UpdatedAt := deliveredAt\<rparr>"

definition MarkAsRetrying :: "time \<Rightarrow> time \<Rightarrow> string \<Rightarrow> Delivery \<Rightarrow> Delivery" where
  "MarkAsRetrying now nextAttempt lastError d =
     d\<lparr>dl_Status := DeliveryStatusRetrying,
       dl_Attempts := dl_Attempts d + 1,
       dl_NextAttemptAt := Some nextAttempt,
       dl_LastError := Some lastError,
       dl_UpdatedAt := now\<rparr>"

definition MarkAsThrottled :: "time \<Rightarrow> time \<Rightarrow> string \<Rightarrow> Delivery \<Rightarrow> Delivery" where
  "MarkAsThrottled now nextAttempt lastError d =
     d\<lparr>dl_Status := DeliveryStatusThrottled,
       dl_NextAttemptAt := Some nextAttempt,
       dl_LastError := Some lastError,
       dl_UpdatedAt := now\<rparr>"

definition MarkAsFailed :: "time \<Rightarrow> string \<Rightarrow> Delivery \<Rightarrow> Delivery" where
  "MarkAsFailed now lastError d =
     d\<lparr>dl_Status := DeliveryStatusFailed,
       dl_LastError := Some lastError,
       dl_NextAttemptAt := None,
       dl_UpdatedAt := now\<rparr>"

definition ScheduleReplay :: "time \<Rightarrow> Delivery \<Rightarrow> error + Delivery" where
  "ScheduleReplay scheduledAt d =
     (if dl_Status d \<noteq> DeliveryStatusFailed then Inl ErrReplayNotEligible
      else Inr (d\<lparr>dl_Generation := dl_Generation d + 1,
                  dl_Status := DeliveryStatusRetrying,
                  dl_Attempts := 0,
                  dl_NextAttemptAt := Some scheduledAt,
                  dl_LastError := None,
                  dl_DeliveredAt := None,
                  dl_ProcessingOwner := None,
                  dl_ProcessingDeadline := None,
                  dl_UpdatedAt := scheduledAt\<rparr>))"

subsection \<open>Projecting an event from its deliveries\<close>

definition sooner :: "time option \<Rightarrow> time option \<Rightarrow> bool" where
  "sooner current candidate =
     (case candidate of None \<Rightarrow> False
      | Some c \<Rightarrow> (case current of None \<Rightarrow> True | Some t \<Rightarrow> c < t))"

text \<open>The loop's variables: the projection, \<open>allDelivered\<close> and \<open>deliveredAt\<close>.\<close>

record projecting =
  pr_projection :: EventProjection
  pr_allDelivered :: bool
  pr_deliveredAt :: "time option"

definition project_status :: "DeliveryStatus \<Rightarrow> EventStatus \<Rightarrow> EventStatus" where
  "project_status s status =
     (case s of
        DeliveryStatusProcessing \<Rightarrow> EventStatusProcessing
      | DeliveryStatusRetrying \<Rightarrow>
          (if status \<noteq> EventStatusProcessing then EventStatusRetrying else status)
      | DeliveryStatusThrottled \<Rightarrow>
          (if status \<noteq> EventStatusProcessing \<and> status \<noteq> EventStatusRetrying
           then EventStatusThrottled else status)
      | DeliveryStatusPending \<Rightarrow>
          (if status \<noteq> EventStatusProcessing \<and> status \<noteq> EventStatusRetrying
             \<and> status \<noteq> EventStatusThrottled
           then EventStatusPending else status)
      | DeliveryStatusFailed \<Rightarrow>
          (if status = EventStatusDelivered then EventStatusFailed else status)
      | DeliveryStatusDelivered \<Rightarrow> status)"

definition project_one :: "Delivery option \<Rightarrow> projecting \<Rightarrow> projecting" where
  "project_one delivery st =
     (case delivery of None \<Rightarrow> st
      | Some d \<Rightarrow>
          (let p = pr_projection st;
               p = (if dl_Attempts d > pj_Attempts p then p\<lparr>pj_Attempts := dl_Attempts d\<rparr> else p);
               p = (if sooner (pj_NextAttemptAt p) (dl_NextAttemptAt d)
                    then p\<lparr>pj_NextAttemptAt := dl_NextAttemptAt d\<rparr> else p);
               p = (if dl_LastError d \<noteq> None then p\<lparr>pj_LastError := dl_LastError d\<rparr> else p);
               dat = (case dl_DeliveredAt d of None \<Rightarrow> pr_deliveredAt st
                      | Some t \<Rightarrow>
                         (case pr_deliveredAt st of None \<Rightarrow> Some t
                          | Some u \<Rightarrow> if t > u then Some t else Some u));
               p = p\<lparr>pj_Status := project_status (dl_Status d) (pj_Status p)\<rparr>
           in \<lparr>pr_projection = p,
               pr_allDelivered =
                 (pr_allDelivered st \<and> dl_Status d = DeliveryStatusDelivered),
               pr_deliveredAt = dat\<rparr>))"

definition ProjectEventFromDeliveries :: "time \<Rightarrow> Delivery option list \<Rightarrow> EventProjection" where
  "ProjectEventFromDeliveries now deliveries =
     (let zero = \<lparr>pj_Status = EventStatusDelivered, pj_Attempts = 0, pj_NextAttemptAt = None,
                  pj_LastError = None, pj_DeliveredAt = None\<rparr>
      in if deliveries = [] then zero\<lparr>pj_DeliveredAt := Some now\<rparr>
         else
           (let st = fold project_one deliveries
                       \<lparr>pr_projection = zero, pr_allDelivered = True, pr_deliveredAt = None\<rparr>
            in if pr_allDelivered st
               then (pr_projection st)\<lparr>pj_Status := EventStatusDelivered,
                                       pj_DeliveredAt := pr_deliveredAt st\<rparr>
               else pr_projection st))"


subsection \<open>What a filter matches\<close>

lemma matchWildcard_iff:
  "matchWildcard pat t \<longleftrightarrow> pat = t \<or> (\<exists>p. pat = p @ ''*'' \<and> prefix p t)"
proof (cases pat rule: rev_cases)
  case Nil
  then show ?thesis by (auto simp: matchWildcard_def)
next
  case (snoc p c)
  have "length p \<le> length t \<and> take (length p) t = p \<longleftrightarrow> prefix p t"
    by (metis prefix_length_le prefix_def take_is_prefix append_eq_conv_conj)
  then show ?thesis
    using snoc by (auto simp: matchWildcard_def Let_def)
qed

lemma matches_any_iff: "matches_any fs t \<longleftrightarrow> (\<exists>f \<in> set fs. f = t \<or> (\<exists>p. f = p @ ''*'' \<and> prefix p t))"
  by (induction fs) (auto simp: matchWildcard_iff)

subsection \<open>Delivery identifiers\<close>

text \<open>The first colon splits an identifier whose event identifier has none.\<close>

lemma append_colon_inj:
  assumes "x @ c # y = x' @ c # y'" "c \<notin> set x" "c \<notin> set x'"
  shows "x = x' \<and> y = y'"
  using assms
proof (induction x arbitrary: x')
  case Nil
  then show ?case by (cases x') auto
next
  case (Cons a x)
  then show ?case by (cases x') auto
qed

lemma DeliveryID_inj:
  assumes "DeliveryID e s = DeliveryID e' s'"
    and "CHR '':'' \<notin> set e" "CHR '':'' \<notin> set e'"
  shows "e = e' \<and> s = s'"
  using append_colon_inj [of e "CHR '':''" s e' s'] assms by (simp add: DeliveryID_def)

subsection \<open>Status precedence\<close>

text \<open>
  The statuses in the order of their precedence in the projection, as a linear order, so
  that the projected status is a maximum.
\<close>

fun status_rank :: "DeliveryStatus \<Rightarrow> nat" where
  "status_rank DeliveryStatusDelivered = 0"
| "status_rank DeliveryStatusFailed = 1"
| "status_rank DeliveryStatusPending = 2"
| "status_rank DeliveryStatusThrottled = 3"
| "status_rank DeliveryStatusRetrying = 4"
| "status_rank DeliveryStatusProcessing = 5"

lemma status_rank_inj: "status_rank s = status_rank t \<Longrightarrow> s = t"
  by (cases s; cases t) simp_all

instantiation DeliveryStatus :: linorder
begin

definition less_eq_DeliveryStatus :: "DeliveryStatus \<Rightarrow> DeliveryStatus \<Rightarrow> bool" where
  "less_eq_DeliveryStatus s t \<longleftrightarrow> status_rank s \<le> status_rank t"

definition less_DeliveryStatus :: "DeliveryStatus \<Rightarrow> DeliveryStatus \<Rightarrow> bool" where
  "less_DeliveryStatus s t \<longleftrightarrow> status_rank s < status_rank t"

instance
  by standard (auto simp: less_eq_DeliveryStatus_def less_DeliveryStatus_def dest: status_rank_inj)

end

fun event_status :: "DeliveryStatus \<Rightarrow> EventStatus" where
  "event_status DeliveryStatusPending = EventStatusPending"
| "event_status DeliveryStatusProcessing = EventStatusProcessing"
| "event_status DeliveryStatusDelivered = EventStatusDelivered"
| "event_status DeliveryStatusRetrying = EventStatusRetrying"
| "event_status DeliveryStatusThrottled = EventStatusThrottled"
| "event_status DeliveryStatusFailed = EventStatusFailed"

lemma event_status_inj [simp]: "event_status s = event_status t \<longleftrightarrow> s = t"
  by (cases s; cases t) simp_all

lemma project_status_max: "project_status s (event_status t) = event_status (max t s)"
  by (cases s; cases t) (simp_all add: project_status_def max_def less_eq_DeliveryStatus_def)

text \<open>The specification of the projection: each field by itself.\<close>

definition projected_status :: "Delivery list \<Rightarrow> DeliveryStatus" where
  "projected_status ds = Max (insert DeliveryStatusDelivered (dl_Status ` set ds))"

definition greatest_attempts :: "Delivery list \<Rightarrow> int" where
  "greatest_attempts ds = Max (insert 0 (dl_Attempts ` set ds))"

definition all_delivered :: "Delivery list \<Rightarrow> bool" where
  "all_delivered ds \<longleftrightarrow> (\<forall>d \<in> set ds. dl_Status d = DeliveryStatusDelivered)"

definition projection_of :: "Delivery list \<Rightarrow> EventProjection" where
  "projection_of ds =
     \<lparr>pj_Status = event_status (projected_status ds),
      pj_Attempts = greatest_attempts ds,
      pj_NextAttemptAt = least_some (map dl_NextAttemptAt ds),
      pj_LastError = last_some (map dl_LastError ds),
      pj_DeliveredAt =
        (if all_delivered ds then greatest_some (map dl_DeliveredAt ds) else None)\<rparr>"

lemma projected_status_snoc:
  "projected_status (ds @ [d]) = max (projected_status ds) (dl_Status d)"
proof -
  have "insert DeliveryStatusDelivered (dl_Status ` set (ds @ [d]))
      = insert (dl_Status d) (insert DeliveryStatusDelivered (dl_Status ` set ds))" by auto
  then show ?thesis
    unfolding projected_status_def by (simp add: max.commute)
qed

lemma DeliveryStatusDelivered_least [simp]: "DeliveryStatusDelivered \<le> s"
  by (simp add: less_eq_DeliveryStatus_def)

lemma projected_status_delivered:
  "projected_status ds = DeliveryStatusDelivered \<longleftrightarrow> all_delivered ds"
  unfolding projected_status_def all_delivered_def
  by (auto simp: Max_eq_iff intro: antisym)

lemma greatest_attempts_snoc:
  "greatest_attempts (ds @ [d]) = max (greatest_attempts ds) (dl_Attempts d)"
proof -
  have "insert 0 (dl_Attempts ` set (ds @ [d])) = insert (dl_Attempts d) (insert 0 (dl_Attempts ` set ds))"
    by auto
  then show ?thesis by (simp add: greatest_attempts_def max.commute)
qed

lemma all_delivered_snoc:
  "all_delivered (ds @ [d]) \<longleftrightarrow> all_delivered ds \<and> dl_Status d = DeliveryStatusDelivered"
  by (auto simp: all_delivered_def)

text \<open>What the loop has computed after some prefix of the deliveries.\<close>

definition projecting_ok :: "Delivery list \<Rightarrow> projecting \<Rightarrow> bool" where
  "projecting_ok ds st \<longleftrightarrow>
     pr_projection st = (projection_of ds)\<lparr>pj_DeliveredAt := None\<rparr>
     \<and> pr_allDelivered st = all_delivered ds
     \<and> pr_deliveredAt st = greatest_some (map dl_DeliveredAt ds)"

lemma project_one_ok:
  assumes "projecting_ok ds st"
  shows "projecting_ok (ds @ [d]) (project_one (Some d) st)"
  using assms
  by (cases "dl_NextAttemptAt d"; cases "least_some (map dl_NextAttemptAt ds)";
      cases "dl_LastError d"; cases "dl_DeliveredAt d"; cases "greatest_some (map dl_DeliveredAt ds)")
     (simp_all add: projecting_ok_def projection_of_def project_one_def Let_def sooner_def
       projected_status_snoc project_status_max greatest_attempts_snoc all_delivered_snoc
       least_some_snoc last_some_snoc greatest_some_snoc max_def min_def)

lemma fold_project_ok:
  "projecting_ok ds st \<Longrightarrow> projecting_ok (ds @ somes xs) (fold project_one xs st)"
proof (induction xs arbitrary: ds st)
  case Nil
  then show ?case by simp
next
  case (Cons x xs)
  show ?case
  proof (cases x)
    case None
    with Cons show ?thesis by (simp add: project_one_def)
  next
    case (Some d)
    with Cons.IH [OF project_one_ok [OF Cons.prems, of d]] show ?thesis by simp
  qed
qed

lemma ProjectEventFromDeliveries_eq:
  "ProjectEventFromDeliveries now xs =
     (if xs = [] then (projection_of [])\<lparr>pj_DeliveredAt := Some now\<rparr> else projection_of (somes xs))"
proof -
  let ?st = "fold project_one xs
     \<lparr>pr_projection = \<lparr>pj_Status = EventStatusDelivered, pj_Attempts = 0, pj_NextAttemptAt = None,
        pj_LastError = None, pj_DeliveredAt = None\<rparr>,
      pr_allDelivered = True, pr_deliveredAt = None\<rparr>"
  have "projecting_ok ([] @ somes xs) ?st"
    by (rule fold_project_ok) (simp add: projecting_ok_def projection_of_def
        projected_status_def greatest_attempts_def all_delivered_def)
  then show ?thesis
    using projected_status_delivered [of "somes xs"]
    by (auto simp: ProjectEventFromDeliveries_def Let_def projecting_ok_def projection_of_def
        projected_status_def greatest_attempts_def all_delivered_def)
qed

subsection \<open>Properties\<close>

text \<open>C13 The event's status is that of its deliveries with the highest precedence (processing,
  retrying, throttled, pending, failed, delivered), its attempts the greatest count, its next
  attempt the earliest one, and it has a delivery time, the latest, exactly when all
  deliveries have been delivered.  None of this depends on the order of the deliveries.  Its last
  error does: it is the error of the last delivery in the order given that has one.\<close>

theorem projection_by_precedence:
  assumes "xs \<noteq> []"
  shows "let ds = {d. Some d \<in> set xs}; p = ProjectEventFromDeliveries now xs in
     pj_Status p = event_status (Max (insert DeliveryStatusDelivered (dl_Status ` ds)))
     \<and> pj_Attempts p = Max (insert 0 (dl_Attempts ` ds))
     \<and> pj_NextAttemptAt p = (let ts = {t. \<exists>d \<in> ds. dl_NextAttemptAt d = Some t}
          in if ts = {} then None else Some (Min ts))
     \<and> pj_DeliveredAt p = (let ts = {t. \<exists>d \<in> ds. dl_DeliveredAt d = Some t}
          in if (\<exists>d \<in> ds. dl_Status d \<noteq> DeliveryStatusDelivered) \<or> ts = {} then None
             else Some (Max ts))
     \<and> pj_LastError p = (let failing = filter (\<lambda>d. dl_LastError d \<noteq> None) (somes xs)
          in if failing = [] then None else dl_LastError (last failing))"
proof -
  define ds where "ds = {d. Some d \<in> set xs}"
  have ts: "set (somes (map g (somes xs))) = {t. \<exists>d \<in> ds. g d = Some t}" for g :: "Delivery \<Rightarrow> time option"
    by (auto simp: set_somes ds_def image_iff) (metis+)?
  then have empty: "somes (map g (somes xs)) = [] \<longleftrightarrow> {t. \<exists>d \<in> ds. g d = Some t} = {}"
    for g :: "Delivery \<Rightarrow> time option"
    by (metis set_empty)
  have p: "ProjectEventFromDeliveries now xs = projection_of (somes xs)"
    using assms by (simp add: ProjectEventFromDeliveries_eq)
  show ?thesis
    unfolding Let_def ds_def [symmetric] p projection_of_def projected_status_def greatest_attempts_def all_delivered_def
      least_some_def greatest_some_def ts empty Let_def
    by (simp add: set_somes ds_def last_some_map)
qed

theorem projection_by_precedence_witness:
  "\<exists>d. pj_Status (ProjectEventFromDeliveries 9 [Some d, None]) =
     event_status (Max (insert DeliveryStatusDelivered (dl_Status ` {d})))"
proof -
  have "{e. Some e \<in> set [Some d, None]} = {d}" for d :: Delivery by auto
  then show ?thesis
    using projection_by_precedence [of "[Some d, None]" 9] by (auto simp: Let_def)
qed

text \<open>A subscription receives an event type exactly when one of its filters is the type itself
  or ends in a star and the rest is a prefix of the type.\<close>

lemma filter_matches:
  "MatchesEventType s t \<longleftrightarrow> (\<exists>f \<in> set (sub_EventTypes s). f = t \<or> (\<exists>p. f = p @ ''*'' \<and> prefix p t))"
  by (simp add: MatchesEventType_def matches_any_iff)

text \<open>Delivery identifiers tell deliveries apart as long as event identifiers have no colon.\<close>

lemma DeliveryID_unique:
  assumes "CHR '':'' \<notin> set e" "CHR '':'' \<notin> set e'"
  shows "DeliveryID e s = DeliveryID e' s' \<longleftrightarrow> e = e' \<and> s = s'"
  using DeliveryID_inj [of e s e' s'] assms by auto

end
