(* ===== verification/Go_Text.thy ===== *)
theory Go_Text
  imports Dispatch_Prelude
begin

text \<open>
  Text as the standard library and PostgreSQL see it: UTF-8 validity, and the encoding side of
  \<^verbatim>\<open>encoding/json\<close> (Go 1.24) that the program uses, quoting of strings with HTML escaping,
  the syntax check and the compaction a \<^verbatim>\<open>json.RawMessage\<close> goes through.  (The limit on the
  nesting depth of the syntax check is not modelled.)
\<close>

definition byte :: "char \<Rightarrow> nat" where
  "byte c = of_char c"

abbreviation quote_char :: char where "quote_char \<equiv> CHR 0x22"
abbreviation backslash :: char where "backslash \<equiv> CHR 0x5C"

subsection \<open>UTF-8\<close>

definition conts :: "nat \<Rightarrow> string \<Rightarrow> bool" where
  "conts n r \<longleftrightarrow> n \<le> length r \<and> list_all (\<lambda>c. 128 \<le> byte c \<and> byte c < 192) (take n r)"

text \<open>The length of the code point at the head of a string, zero when there is none.\<close>

fun utf8_size :: "string \<Rightarrow> nat" where
  "utf8_size [] = 0"
| "utf8_size (a # r) =
     (let x = byte a
      in if x < 128 then 1
         else if x < 194 then 0
         else if x < 224 then (if conts 1 r then 2 else 0)
         else if x < 240 then
           (if conts 2 r \<and> (x = 224 \<longrightarrow> 160 \<le> byte (r ! 0)) \<and> (x = 237 \<longrightarrow> byte (r ! 0) < 160)
            then 3 else 0)
         else if x < 245 then
           (if conts 3 r \<and> (x = 240 \<longrightarrow> 144 \<le> byte (r ! 0)) \<and> (x = 244 \<longrightarrow> byte (r ! 0) < 144)
            then 4 else 0)
         else 0)"

fun utf8_valid :: "string \<Rightarrow> bool" where
  "utf8_valid [] = True"
| "utf8_valid (c # cs) =
     (0 < utf8_size (c # cs) \<and> utf8_valid (drop (utf8_size (c # cs) - 1) cs))"

text \<open>What a \<open>TEXT\<close> column of a UTF-8 database accepts.\<close>

definition pg_text :: "string \<Rightarrow> bool" where
  "pg_text s \<longleftrightarrow> utf8_valid s \<and> CHR 0x00 \<notin> set s"

subsection \<open>JSON\<close>

definition hex4 :: "nat \<Rightarrow> string" where
  "hex4 n = map (\<lambda>d. ''0123456789abcdef'' ! (d mod 16)) [n div 4096, n div 256, n div 16, n]"

definition unicode_escape :: "nat \<Rightarrow> string" where
  "unicode_escape n = [backslash, CHR ''u''] @ hex4 n"

definition escape_ascii :: "char \<Rightarrow> string" where
  "escape_ascii c =
     (if c = quote_char \<or> c = backslash then [backslash, c]
      else if c = CHR 0x08 then [backslash, CHR ''b'']
      else if c = CHR 0x0C then [backslash, CHR ''f'']
      else if c = CHR 0x0A then [backslash, CHR ''n'']
      else if c = CHR 0x0D then [backslash, CHR ''r'']
      else if c = CHR 0x09 then [backslash, CHR ''t'']
      else if byte c < 32 \<or> c \<in> set ''<>&'' then unicode_escape (byte c)
      else [c])"

text \<open>U+2028 and U+2029 as bytes.\<close>

definition line_separator :: "string \<Rightarrow> nat option" where
  "line_separator s =
     (if take 3 s = [CHR 0xE2, CHR 0x80, CHR 0xA8] then Some 0x2028
      else if take 3 s = [CHR 0xE2, CHR 0x80, CHR 0xA9] then Some 0x2029 else None)"

fun json_escape :: "string \<Rightarrow> string" where
  "json_escape [] = []"
| "json_escape (c # cs) =
     (if byte c < 128 then escape_ascii c @ json_escape cs
      else if utf8_size (c # cs) = 0 then unicode_escape 0xFFFD @ json_escape cs
      else
        (case line_separator (c # cs) of
           Some n \<Rightarrow> unicode_escape n @ json_escape (drop 2 cs)
         | None \<Rightarrow> take (utf8_size (c # cs)) (c # cs) @ json_escape (drop (utf8_size (c # cs) - 1) cs)))"

definition json_string :: "string \<Rightarrow> string" where
  "json_string s = [quote_char] @ json_escape s @ [quote_char]"

definition is_ws :: "char \<Rightarrow> bool" where
  "is_ws c \<longleftrightarrow> c \<in> {CHR '' '', CHR 0x09, CHR 0x0A, CHR 0x0D}"

text \<open>\<open>json.Compact\<close> with HTML escaping; the flag says whether the position is inside a string.\<close>

fun json_compact :: "bool \<Rightarrow> string \<Rightarrow> string" where
  "json_compact inside [] = []"
| "json_compact inside (c # cs) =
     (if c \<in> set ''<>&'' then unicode_escape (byte c) @ json_compact inside cs
      else
        (case line_separator (c # cs) of
           Some n \<Rightarrow> unicode_escape n @ json_compact inside (drop 2 cs)
         | None \<Rightarrow>
             if \<not> inside \<and> is_ws c then json_compact inside cs
             else if inside \<and> c = backslash then c # take 1 cs @ json_compact inside (drop 1 cs)
             else if c = quote_char then c # json_compact (\<not> inside) cs
             else c # json_compact inside cs))"

text \<open>The syntax check: each function consumes one construct and returns the rest.\<close>

fun skip_ws :: "string \<Rightarrow> string" where
  "skip_ws (c # cs) = (if is_ws c then skip_ws cs else c # cs)"
| "skip_ws [] = []"

definition is_digit :: "char \<Rightarrow> bool" where
  "is_digit c \<longleftrightarrow> c \<in> set ''0123456789''"

definition is_hex :: "char \<Rightarrow> bool" where
  "is_hex c \<longleftrightarrow> c \<in> set ''0123456789abcdefABCDEF''"

definition is_escape :: "char \<Rightarrow> bool" where
  "is_escape c \<longleftrightarrow> c \<in> set ''/bfnrt'' \<or> c = quote_char \<or> c = backslash"

fun scan_string :: "string \<Rightarrow> string option" where
  "scan_string [] = None"
| "scan_string (c # cs) =
     (if c = quote_char then Some cs
      else if c = backslash then
        (if take 1 cs = ''u'' then
           (if 5 \<le> length cs \<and> list_all is_hex (take 4 (drop 1 cs)) then scan_string (drop 5 cs) else None)
         else if cs \<noteq> [] \<and> is_escape (hd cs) then scan_string (drop 1 cs)
         else None)
      else if byte c < 32 then None
      else scan_string cs)"

definition scan_digits :: "string \<Rightarrow> string option" where
  "scan_digits s = (if s \<noteq> [] \<and> is_digit (hd s) then Some (dropWhile is_digit s) else None)"

definition scan_number :: "string \<Rightarrow> string option" where
  "scan_number s =
     (let s = (if take 1 s = ''-'' then drop 1 s else s);
          int_part = (if take 1 s = ''0'' then Some (drop 1 s) else scan_digits s);
          frac_part = Option.bind int_part
            (\<lambda>s. if take 1 s = ''.'' then scan_digits (drop 1 s) else Some s)
      in Option.bind frac_part
           (\<lambda>s. if take 1 s = ''e'' \<or> take 1 s = ''E'' then
                  (let s = drop 1 s
                   in scan_digits (if take 1 s = ''+'' \<or> take 1 s = ''-'' then drop 1 s else s))
                else Some s))"

definition scan_literal :: "string \<Rightarrow> string option" where
  "scan_literal s =
     (if take 4 s = ''true'' then Some (drop 4 s)
      else if take 5 s = ''false'' then Some (drop 5 s)
      else if take 4 s = ''null'' then Some (drop 4 s) else None)"

text \<open>Values, the rest of an array and the rest of an object; every call consumes a character, so
  that a fuel of twice the length plus one is enough.\<close>

fun scan_value :: "nat \<Rightarrow> string \<Rightarrow> string option"
  and scan_elements :: "nat \<Rightarrow> string \<Rightarrow> string option"
  and scan_members :: "nat \<Rightarrow> string \<Rightarrow> string option" where
  "scan_value 0 s = None"
| "scan_value (Suc n) s =
     (case skip_ws s of
        [] \<Rightarrow> None
      | c # cs \<Rightarrow>
          if c = quote_char then scan_string cs
          else if c = CHR ''['' then
            (if take 1 (skip_ws cs) = '']'' then Some (drop 1 (skip_ws cs)) else scan_elements n cs)
          else if c = CHR ''{'' then
            (if take 1 (skip_ws cs) = ''}'' then Some (drop 1 (skip_ws cs)) else scan_members n cs)
          else if c = CHR ''-'' \<or> is_digit c then scan_number (c # cs)
          else scan_literal (c # cs))"
| "scan_elements 0 s = None"
| "scan_elements (Suc n) s =
     (case scan_value n s of
        None \<Rightarrow> None
      | Some s \<Rightarrow>
          (let s = skip_ws s
           in if take 1 s = '']'' then Some (drop 1 s)
              else if take 1 s = '','' then scan_elements n (drop 1 s) else None))"
| "scan_members 0 s = None"
| "scan_members (Suc n) s =
     (let s = skip_ws s
      in if take 1 s \<noteq> [quote_char] then None
         else
           (case scan_string (drop 1 s) of
              None \<Rightarrow> None
            | Some s \<Rightarrow>
                if take 1 (skip_ws s) \<noteq> '':'' then None
                else
                  (case scan_value n (drop 1 (skip_ws s)) of
                     None \<Rightarrow> None
                   | Some s \<Rightarrow>
                       (let s = skip_ws s
                        in if take 1 s = ''}'' then Some (drop 1 s)
                           else if take 1 s = '','' then scan_members n (drop 1 s) else None))))"

definition json_valid :: "string \<Rightarrow> bool" where
  "json_valid s =
     (case scan_value (2 * length s + 1) s of None \<Rightarrow> False | Some r \<Rightarrow> skip_ws r = [])"

subsection \<open>Facts\<close>

lemma utf8_valid_ascii:
  assumes "\<forall>c \<in> set xs. byte c < 128"
  shows "utf8_valid (xs @ ys) = utf8_valid ys"
  using assms by (induction xs) auto

text \<open>A byte that needs a continuation cannot end a string.\<close>

lemma utf8_truncated: "128 \<le> byte c \<Longrightarrow> \<not> utf8_valid [c]"
  by (simp add: conts_def Let_def)

text \<open>A quoted string scans as one string and nothing else: quoting never lets content end the
  string early.\<close>

lemma is_hex_hex4: "list_all is_hex (hex4 n)" "length (hex4 n) = 4"
proof -
  have "is_hex (''0123456789abcdef'' ! (d mod 16))" for d :: nat
  proof -
    have "''0123456789abcdef'' ! (d mod 16) \<in> set ''0123456789abcdef''" by (rule nth_mem) simp
    then show ?thesis unfolding is_hex_def by auto
  qed
  then show "list_all is_hex (hex4 n)" "length (hex4 n) = 4" by (simp_all add: hex4_def)
qed

lemma scan_unicode_escape [simp]: "scan_string (unicode_escape n @ r) = scan_string r"
  using is_hex_hex4 [of n] by (simp add: unicode_escape_def)

lemma scan_escape_ascii: "byte c < 128 \<Longrightarrow> scan_string (escape_ascii c @ r) = scan_string r"
  by (auto simp: escape_ascii_def is_escape_def)

lemma scan_high_bytes:
  "\<forall>c \<in> set xs. 128 \<le> byte c \<Longrightarrow> scan_string (xs @ r) = scan_string r"
proof (induction xs)
  case (Cons c xs)
  have "c \<noteq> quote_char" "c \<noteq> backslash" "\<not> byte c < 32"
    using Cons.prems by (auto simp: byte_def)
  with Cons show ?case by simp
qed simp

lemma utf8_size_conts: "utf8_size (c # cs) = Suc j \<Longrightarrow> 128 \<le> byte c \<Longrightarrow> conts j cs"
  by (auto simp: Let_def numeral_eq_Suc split: if_splits)

lemma take_utf8_size_high:
  assumes "128 \<le> byte c"
  shows "\<forall>x \<in> set (take (utf8_size (c # cs)) (c # cs)). 128 \<le> byte x"
proof (cases "utf8_size (c # cs)")
  case (Suc j)
  with utf8_size_conts assms have "conts j cs" by blast
  with assms show ?thesis unfolding Suc by (auto simp: conts_def list_all_iff)
qed simp

lemma json_string_scans: "scan_string (json_escape s @ [quote_char] @ r) = Some r"
proof (induction s rule: json_escape.induct)
  case (2 c cs)
  show ?case
  proof (cases "byte c < 128")
    case True
    then show ?thesis using 2(1) by (simp add: scan_escape_ascii)
  next
    case False
    then show ?thesis
      using 2(2-) take_utf8_size_high [of c cs]
      by (auto simp: scan_high_bytes simp del: utf8_size.simps split: option.split)
  qed
qed simp

end
