(* ===== verification/Json_Grammar.thy ===== *)
theory Json_Grammar
  imports Go_Text
begin

text \<open>
  The grammar of JSON as inductive predicates on texts, and the proof that the syntax check of
  \<^verbatim>\<open>encoding/json\<close> decides it: it accepts exactly the texts of the grammar, whatever stands behind
  them, its fuel is always enough, and compaction turns a value into a value.
\<close>

subsection \<open>The grammar of JSON\<close>

definition int_text :: "string \<Rightarrow> bool" where
  "int_text i \<longleftrightarrow> i = ''0'' \<or> (i \<noteq> [] \<and> list_all is_digit i \<and> hd i \<noteq> CHR ''0'')"

definition frac_text :: "string \<Rightarrow> bool" where
  "frac_text f \<longleftrightarrow> f = [] \<or> (\<exists>d. f = CHR ''.'' # d \<and> d \<noteq> [] \<and> list_all is_digit d)"

definition exp_text :: "string \<Rightarrow> bool" where
  "exp_text e \<longleftrightarrow> e = [] \<or> (\<exists>x sg d. e = x # sg @ d \<and> x \<in> set ''eE'' \<and> sg \<in> {[], ''+'', ''-''}
     \<and> d \<noteq> [] \<and> list_all is_digit d)"

definition number_text :: "string \<Rightarrow> bool" where
  "number_text p \<longleftrightarrow> (\<exists>sg i f e. p = sg @ i @ f @ e \<and> sg \<in> {[], ''-''} \<and> int_text i \<and> frac_text f \<and> exp_text e)"

text \<open>What may stand behind a number without being read as part of it.\<close>

definition follows :: "string \<Rightarrow> bool" where
  "follows t \<longleftrightarrow> t = [] \<or> \<not> (is_digit (hd t) \<or> hd t \<in> set ''.eE'')"

text \<open>String literals from behind the opening quote.\<close>

inductive string_text :: "string \<Rightarrow> bool" where
  string_close: "string_text [quote_char]"
| string_unicode: "length h = 4 \<Longrightarrow> list_all is_hex h \<Longrightarrow> string_text p \<Longrightarrow>
    string_text (backslash # CHR ''u'' # h @ p)"
| string_escape: "is_escape c \<Longrightarrow> string_text p \<Longrightarrow> string_text (backslash # c # p)"
| string_plain: "c \<noteq> quote_char \<Longrightarrow> c \<noteq> backslash \<Longrightarrow> \<not> byte c < 32 \<Longrightarrow> string_text p \<Longrightarrow>
    string_text (c # p)"

inductive value_text :: "string \<Rightarrow> bool"
  and elements_text :: "string \<Rightarrow> bool"
  and members_text :: "string \<Rightarrow> bool" where
  value_ws: "is_ws c \<Longrightarrow> value_text p \<Longrightarrow> value_text (c # p)"
| value_string: "string_text p \<Longrightarrow> value_text (quote_char # p)"
| value_number: "number_text p \<Longrightarrow> value_text p"
| value_literal: "p \<in> {''true'', ''false'', ''null''} \<Longrightarrow> value_text p"
| value_array0: "list_all is_ws w \<Longrightarrow> value_text (CHR ''['' # w @ '']'')"
| value_array: "elements_text p \<Longrightarrow> value_text (CHR ''['' # p)"
| value_object0: "list_all is_ws w \<Longrightarrow> value_text (CHR ''{'' # w @ ''}'')"
| value_object: "members_text p \<Longrightarrow> value_text (CHR ''{'' # p)"
| elements_last: "value_text p \<Longrightarrow> list_all is_ws w \<Longrightarrow> elements_text (p @ w @ '']'')"
| elements_more: "value_text p \<Longrightarrow> list_all is_ws w \<Longrightarrow> elements_text q \<Longrightarrow> elements_text (p @ w @ CHR '','' # q)"
| members_last: "list_all is_ws w1 \<Longrightarrow> string_text k \<Longrightarrow> list_all is_ws w2 \<Longrightarrow> value_text p \<Longrightarrow>
    list_all is_ws w3 \<Longrightarrow> members_text (w1 @ quote_char # k @ w2 @ CHR '':'' # p @ w3 @ ''}'')"
| members_more: "list_all is_ws w1 \<Longrightarrow> string_text k \<Longrightarrow> list_all is_ws w2 \<Longrightarrow> value_text p \<Longrightarrow>
    list_all is_ws w3 \<Longrightarrow> members_text q \<Longrightarrow>
    members_text (w1 @ quote_char # k @ w2 @ CHR '':'' # p @ w3 @ CHR '','' # q)"

subsection \<open>The syntax check follows the grammar\<close>

lemma skip_ws_id [simp]: "s = [] \<or> \<not> is_ws (hd s) \<Longrightarrow> skip_ws s = s"
  by (cases s) auto

lemma skip_ws_append [simp]: "list_all is_ws w \<Longrightarrow> skip_ws (w @ s) = skip_ws s"
  by (induction w) auto

lemma skip_ws_split: "\<exists>w. s = w @ skip_ws s \<and> list_all is_ws w \<and> (skip_ws s = [] \<or> \<not> is_ws (hd (skip_ws s)))"
proof (induction s)
  case (Cons c s)
  show ?case
  proof (cases "is_ws c")
    case True
    with Cons obtain w where "s = w @ skip_ws s" "list_all is_ws w" "skip_ws s = [] \<or> \<not> is_ws (hd (skip_ws s))" by blast
    with True show ?thesis by (intro exI [of _ "c # w"]) simp
  qed simp
qed simp

lemma not_is_escape_u [simp]: "\<not> is_escape (CHR ''u'')"
  by (simp add: is_escape_def)

lemma scan_string_complete:
  assumes "string_text p" shows "scan_string (p @ t) = Some t"
  using assms
proof induction
  case (string_escape c p)
  then have "c \<noteq> CHR ''u''" by auto
  with string_escape show ?case by simp
qed simp_all

lemma scan_string_sound:
  assumes "scan_string s = Some r" shows "\<exists>p. s = p @ r \<and> string_text p"
  using assms
proof (induction s rule: scan_string.induct)
  case (2 c cs)
  consider "c = quote_char" | "c = backslash" "take 1 cs = ''u''" | "c = backslash" "take 1 cs \<noteq> ''u''"
    | "c \<noteq> quote_char" "c \<noteq> backslash" by blast
  then show ?case
  proof cases
    case 1
    with "2.prems" string_close show ?thesis by (intro exI [of _ "[quote_char]"]) simp
  next
    case u: 2
    with "2.prems" have hex: "5 \<le> length cs" "list_all is_hex (take 4 (drop 1 cs))" "scan_string (drop 5 cs) = Some r"
      by (auto split: if_splits)
    with u "2.IH"(1) obtain p where p: "drop 5 cs = p @ r" "string_text p" by auto
    have "cs = CHR ''u'' # take 4 (drop 1 cs) @ drop 5 cs"
      using u(2) by (cases cs) (simp_all del: append_take_drop_id add: append_take_drop_id [of 4])
    with u p hex string_unicode [OF _ hex(2) p(2)] show ?thesis
      by (intro exI [of _ "backslash # CHR ''u'' # take 4 (drop 1 cs) @ p"]) simp
  next
    case e: 3
    with "2.prems" obtain d ds where cs: "cs = d # ds" "is_escape d" "scan_string ds = Some r"
      by (cases cs) (auto split: if_splits)
    with e "2.IH"(2) obtain p where "ds = p @ r" "string_text p" by auto
    with e cs string_escape show ?thesis by (intro exI [of _ "backslash # d # p"]) simp
  next
    case n: 4
    with "2.prems" have c: "\<not> byte c < 32" "scan_string cs = Some r" by (auto split: if_splits)
    with n "2.IH"(3) obtain p where "cs = p @ r" "string_text p" by auto
    with n c string_plain show ?thesis by (intro exI [of _ "c # p"]) simp
  qed
qed simp

lemma scan_digits_complete:
  assumes "d \<noteq> []" "list_all is_digit d" "t = [] \<or> \<not> is_digit (hd t)"
  shows "scan_digits (d @ t) = Some t"
proof -
  have "dropWhile is_digit (d @ t) = t" using assms(2,3) by (cases t) (auto simp: list_all_iff dropWhile_append2)
  then show ?thesis using assms by (cases d) (auto simp: scan_digits_def)
qed

lemma scan_digits_sound:
  assumes "scan_digits s = Some r"
  shows "\<exists>d. s = d @ r \<and> d \<noteq> [] \<and> list_all is_digit d \<and> (r = [] \<or> \<not> is_digit (hd r))"
proof -
  have r: "r = dropWhile is_digit s" and s: "s \<noteq> []" "is_digit (hd s)"
    using assms by (auto simp: scan_digits_def split: if_splits)
  have "takeWhile is_digit s \<noteq> []" using s by (cases s) auto
  moreover have "list_all is_digit (takeWhile is_digit s)" by (auto simp: list_all_iff dest: set_takeWhileD)
  moreover have "r = [] \<or> \<not> is_digit (hd r)" unfolding r using hd_dropWhile by blast
  ultimately show ?thesis unfolding r by (intro exI [of _ "takeWhile is_digit s"]) simp
qed

lemma take1_eq: "take 1 s = [c] \<longleftrightarrow> (\<exists>t. s = c # t)"
  by (cases s) auto

lemma digit_neq [simp]: "is_digit c \<Longrightarrow> c \<noteq> CHR ''.'' \<and> c \<noteq> CHR ''e'' \<and> c \<noteq> CHR ''E'' \<and> c \<noteq> CHR ''-'' \<and> c \<noteq> CHR ''+''"
  by (auto simp: is_digit_def)

text \<open>The three parts of a number.\<close>

definition scan_int :: "string \<Rightarrow> string option" where
  "scan_int s = (if take 1 s = ''0'' then Some (drop 1 s) else scan_digits s)"

definition scan_frac :: "string \<Rightarrow> string option" where
  "scan_frac s = (if take 1 s = ''.'' then scan_digits (drop 1 s) else Some s)"

definition scan_exp :: "string \<Rightarrow> string option" where
  "scan_exp s = (if take 1 s = ''e'' \<or> take 1 s = ''E'' then
                  (let s = drop 1 s
                   in scan_digits (if take 1 s = ''+'' \<or> take 1 s = ''-'' then drop 1 s else s))
                else Some s)"

lemma scan_number_parts:
  "scan_number s =
     Option.bind (Option.bind (scan_int (if take 1 s = ''-'' then drop 1 s else s)) scan_frac) scan_exp"
  unfolding scan_number_def scan_int_def scan_frac_def scan_exp_def Let_def ..

lemma scan_parts_complete:
  "int_text i \<Longrightarrow> t = [] \<or> \<not> is_digit (hd t) \<Longrightarrow> scan_int (i @ t) = Some t"
  "frac_text f \<Longrightarrow> t = [] \<or> \<not> is_digit (hd t) \<and> hd t \<noteq> CHR ''.'' \<Longrightarrow> scan_frac (f @ t) = Some t"
  "exp_text e \<Longrightarrow> follows t \<Longrightarrow> scan_exp (e @ t) = Some t"
proof -
  show "int_text i \<Longrightarrow> t = [] \<or> \<not> is_digit (hd t) \<Longrightarrow> scan_int (i @ t) = Some t"
    using scan_digits_complete [of i t] by (cases i) (auto simp: int_text_def scan_int_def)
  show "frac_text f \<Longrightarrow> t = [] \<or> \<not> is_digit (hd t) \<and> hd t \<noteq> CHR ''.'' \<Longrightarrow> scan_frac (f @ t) = Some t"
    using scan_digits_complete [of "tl f" t] by (cases t) (auto simp: frac_text_def scan_frac_def)
  assume e: "exp_text e" and t: "follows t"
  then have t': "t = [] \<or> \<not> is_digit (hd t)" by (auto simp: follows_def)
  show "scan_exp (e @ t) = Some t"
  proof (cases "e = []")
    case True
    with t show ?thesis by (cases t) (auto simp: scan_exp_def follows_def)
  next
    case False
    with e obtain x sg d where e': "e = x # sg @ d" "x \<in> set ''eE''" "sg \<in> {[], ''+'', ''-''}" "d \<noteq> []" "list_all is_digit d"
      unfolding exp_text_def by blast
    then have "hd d \<noteq> CHR ''+''" "hd d \<noteq> CHR ''-''" by (cases d; auto)+
    then have "\<not> (take 1 (d @ t) = ''+'' \<or> take 1 (d @ t) = ''-'')" using e'(4) by (cases d) auto
    with e' scan_digits_complete [OF e'(4,5) t'] show ?thesis
      by (auto simp: scan_exp_def Let_def)
  qed
qed

lemma scan_parts_sound:
  "scan_int s = Some r \<Longrightarrow> \<exists>i. s = i @ r \<and> int_text i"
  "scan_frac s = Some r \<Longrightarrow> \<exists>f. s = f @ r \<and> frac_text f"
  "scan_exp s = Some r \<Longrightarrow> \<exists>e. s = e @ r \<and> exp_text e"
proof -
  show "\<exists>i. s = i @ r \<and> int_text i" if i: "scan_int s = Some r"
  proof (cases "take 1 s = ''0''")
    case True
    with i show ?thesis by (cases s) (auto simp: scan_int_def int_text_def)
  next
    case False
    with i obtain d where "s = d @ r" "d \<noteq> []" "list_all is_digit d"
      using scan_digits_sound by (fastforce simp: scan_int_def)
    with False show ?thesis by (intro exI [of _ d]) (cases d, auto simp: int_text_def)
  qed
  show "\<exists>f. s = f @ r \<and> frac_text f" if f: "scan_frac s = Some r"
  proof (cases "take 1 s = ''.''")
    case True
    then obtain s' where s': "s = CHR ''.'' # s'" unfolding take1_eq by blast
    with f obtain d where "s' = d @ r" "d \<noteq> []" "list_all is_digit d"
      using scan_digits_sound [of s' r] by (auto simp: scan_frac_def)
    with s' show ?thesis by (intro exI [of _ "CHR ''.'' # d"]) (simp add: frac_text_def)
  next
    case False
    with f show ?thesis by (simp add: scan_frac_def frac_text_def)
  qed
  show "\<exists>e. s = e @ r \<and> exp_text e" if e: "scan_exp s = Some r"
  proof (cases "take 1 s = ''e'' \<or> take 1 s = ''E''")
    case True
    then obtain x s' where s': "s = x # s'" "x \<in> set ''eE''" unfolding take1_eq by auto
    let ?s = "if take 1 s' = ''+'' \<or> take 1 s' = ''-'' then drop 1 s' else s'"
    have "scan_digits ?s = Some r" using e True s'(1) by (simp add: scan_exp_def Let_def)
    then obtain d where d: "?s = d @ r" "d \<noteq> []" "list_all is_digit d" using scan_digits_sound by blast
    have "\<exists>sg \<in> {[], ''+'', ''-''}. s' = sg @ ?s" by (cases s') auto
    then obtain sg where sg: "s' = sg @ ?s" "sg \<in> {[], ''+'', ''-''}" by blast
    have "s' = sg @ d @ r" using sg(1) unfolding d(1) .
    moreover have "exp_text (x # sg @ d)" unfolding exp_text_def using s'(2) sg(2) d(2,3) by blast
    ultimately show ?thesis unfolding s'(1) by (intro exI [of _ "x # sg @ d"]) simp
  next
    case False
    with e show ?thesis by (simp add: scan_exp_def exp_text_def)
  qed
qed

lemma number_text_head: "number_text p \<Longrightarrow> \<exists>c q. p = c # q \<and> (c = CHR ''-'' \<or> is_digit c)"
proof -
  have zero: "is_digit (CHR ''0'')" by (simp add: is_digit_def)
  assume "number_text p"
  then obtain sg i f e where p: "p = sg @ i @ f @ e" "sg \<in> {[], ''-''}" "int_text i" unfolding number_text_def by blast
  have "\<exists>c q. i = c # q \<and> is_digit c" using p(3) zero by (cases i) (auto simp: int_text_def)
  with p(1,2) show ?thesis by auto
qed

lemma scan_number_complete:
  assumes "number_text p" "follows t" shows "scan_number (p @ t) = Some t"
proof -
  from assms(1) obtain sg i f e where p: "p = sg @ i @ f @ e" "sg \<in> {[], ''-''}" and
    i: "int_text i" and f: "frac_text f" and e: "exp_text e" unfolding number_text_def by blast
  have "i \<noteq> []" "hd i \<noteq> CHR ''-''" using i by (auto simp: int_text_def hd_Cons_tl [symmetric] list_all_iff)
  then have drop: "(if take 1 (p @ t) = ''-'' then drop 1 (p @ t) else p @ t) = i @ f @ e @ t"
    using p by (cases i; elim insertE emptyE) simp_all
  have d: "CHR ''e'' \<notin> Collect is_digit" "CHR ''E'' \<notin> Collect is_digit" "CHR ''.'' \<notin> Collect is_digit"
    by (auto simp: is_digit_def)
  have et: "e @ t = [] \<or> \<not> is_digit (hd (e @ t)) \<and> hd (e @ t) \<noteq> CHR ''.''"
    using e assms(2) d by (auto simp: exp_text_def follows_def)
  then have 2: "scan_frac (f @ e @ t) = Some (e @ t)" by (rule scan_parts_complete(2) [OF f])
  have "f @ e @ t = [] \<or> \<not> is_digit (hd (f @ e @ t))"
    using f et d(3) by (cases "f = []") (auto simp: frac_text_def)
  then have "scan_int (i @ f @ e @ t) = Some (f @ e @ t)" by (rule scan_parts_complete(1) [OF i])
  with 2 show ?thesis unfolding scan_number_parts drop by (simp add: scan_parts_complete(3) [OF e assms(2)])
qed

lemma scan_number_sound:
  assumes "scan_number s = Some r" shows "\<exists>p. s = p @ r \<and> number_text p"
proof -
  let ?s = "if take 1 s = ''-'' then drop 1 s else s"
  obtain s1 s2 where scans: "scan_int ?s = Some s1" "scan_frac s1 = Some s2" "scan_exp s2 = Some r"
    using assms unfolding scan_number_parts bind_eq_Some_conv by blast
  obtain i where i: "?s = i @ s1" "int_text i" using scan_parts_sound(1) [OF scans(1)] by blast
  obtain f where f: "s1 = f @ s2" "frac_text f" using scan_parts_sound(2) [OF scans(2)] by blast
  obtain e where e: "s2 = e @ r" "exp_text e" using scan_parts_sound(3) [OF scans(3)] by blast
  have "\<exists>sg \<in> {[], ''-''}. s = sg @ ?s" by (cases s) auto
  then obtain sg where sg: "s = sg @ ?s" "sg \<in> {[], ''-''}" by blast
  have "s = (sg @ i @ f @ e) @ r" using sg(1) unfolding i(1) f(1) e(1) by simp
  moreover have "number_text (sg @ i @ f @ e)" unfolding number_text_def using sg(2) i(2) f(2) e(2) by blast
  ultimately show ?thesis by blast
qed

lemma scan_literal_complete: "p \<in> {''true'', ''false'', ''null''} \<Longrightarrow> scan_literal (p @ t) = Some t"
  by (auto simp: scan_literal_def)

lemma scan_literal_sound: "scan_literal s = Some r \<Longrightarrow> \<exists>p. s = p @ r \<and> p \<in> {''true'', ''false'', ''null''}"
  by (auto simp: scan_literal_def split: if_splits) (metis append_take_drop_id)+

text \<open>The head of a value decides what the check does.\<close>

lemma not_ws [simp]:
  "\<not> is_ws quote_char" "\<not> is_ws (CHR ''['')" "\<not> is_ws (CHR ''{'')" "\<not> is_ws (CHR '']'')" "\<not> is_ws (CHR ''}'')"
  "\<not> is_ws (CHR '','')" "\<not> is_ws (CHR '':'')" "\<not> is_ws (CHR ''-'')" "is_digit c \<Longrightarrow> \<not> is_ws c"
  by (auto simp: is_ws_def is_digit_def)

lemma value_text_head:
  assumes "value_text p"
  shows "skip_ws p \<noteq> []" "hd (skip_ws p) \<notin> set '']},:''" "skip_ws (p @ t) = skip_ws p @ t"
proof -
  have "skip_ws p \<noteq> [] \<and> hd (skip_ws p) \<notin> set '']},:'' \<and> (\<forall>t. skip_ws (p @ t) = skip_ws p @ t)"
    using assms
  proof (induction rule: value_text_elements_text_members_text.inducts(1)
      [where ?P2.0 = "\<lambda>_. True" and ?P3.0 = "\<lambda>_. True"])
    case (value_number p)
    obtain c q where "p = c # q" "c = CHR ''-'' \<or> is_digit c" using number_text_head [OF value_number(1)] by blast
    then show ?case by (auto simp: is_digit_def)
  next
    case (value_literal p)
    then show ?case by (auto simp: is_ws_def)
  qed auto
  then show "skip_ws p \<noteq> []" "hd (skip_ws p) \<notin> set '']},:''" "skip_ws (p @ t) = skip_ws p @ t" by auto
qed

lemma elements_text_head:
  assumes "elements_text p" shows "take 1 (skip_ws (p @ t)) \<noteq> '']''"
proof -
  obtain q r where "p = q @ r" "value_text q" using assms by (cases rule: elements_text.cases) auto
  with value_text_head(1,2) [of q] value_text_head(3) [of q "r @ t"] show ?thesis by (cases "skip_ws q") auto
qed

lemma members_text_head: "members_text p \<Longrightarrow> \<exists>q. skip_ws (p @ t) = quote_char # q"
  by (erule members_text.cases) auto

lemma follows_ws: "list_all is_ws w \<Longrightarrow> c \<in> set '']},:'' \<Longrightarrow> follows (w @ c # t)"
  by (cases w) (auto simp: follows_def is_ws_def is_digit_def)

text \<open>Every character a value consists of is worth two units of fuel.\<close>

lemma scan_complete:
  "value_text p \<Longrightarrow> follows t \<Longrightarrow> 2 * length p \<le> n \<Longrightarrow> scan_value n (p @ t) = Some t"
  "elements_text p \<Longrightarrow> 2 * length p \<le> n \<Longrightarrow> scan_elements n (p @ t) = Some t"
  "members_text p \<Longrightarrow> 2 * length p \<le> n \<Longrightarrow> scan_members n (p @ t) = Some t"
proof (induction arbitrary: n t and n t and n t rule: value_text_elements_text_members_text.inducts)
  case (value_ws c p)
  then obtain m where n: "n = Suc m" by (cases n) auto
  have "scan_value n (p @ t) = Some t" using value_ws by simp
  then show ?case using value_ws(1) unfolding n by simp
next
  case (value_string p)
  then show ?case by (cases n) (simp_all add: scan_string_complete)
next
  case (value_number p)
  obtain c q where p: "p = c # q" "c = CHR ''-'' \<or> is_digit c" using number_text_head [OF value_number(1)] by blast
  moreover from p(2) have "c \<noteq> quote_char" "c \<noteq> CHR ''[''" "c \<noteq> CHR ''{''" "\<not> is_ws c" by (auto simp: is_digit_def)
  ultimately show ?case using scan_number_complete [OF value_number(1,2)] value_number(3)
    by (cases n) auto
next
  case (value_literal p)
  then obtain m where n: "n = Suc m" by (cases n) auto
  show ?case using scan_literal_complete [OF value_literal(1), of t] value_literal(1) unfolding n
    by (auto simp: is_ws_def is_digit_def)
next
  case (value_array0 w)
  then show ?case by (cases n) simp_all
next
  case (value_object0 w)
  then show ?case by (cases n) simp_all
next
  case (value_array p)
  then obtain m where n: "n = Suc m" by (cases n) auto
  then have "scan_elements m (p @ t) = Some t" using value_array by simp
  then show ?case using elements_text_head [OF value_array(1), of t] unfolding n by simp
next
  case (value_object p)
  then obtain m where n: "n = Suc m" by (cases n) auto
  then have "scan_members m (p @ t) = Some t" using value_object by simp
  then show ?case using members_text_head [OF value_object(1), of t] unfolding n by auto
next
  case (elements_last p w)
  then obtain m where n: "n = Suc m" by (cases n) auto
  then have "scan_value m (p @ w @ CHR '']'' # t) = Some (w @ CHR '']'' # t)"
    using elements_last follows_ws [of w] by simp
  then show ?case using elements_last unfolding n by (simp add: Let_def)
next
  case (elements_more p w q)
  then obtain m where n: "n = Suc m" by (cases n) auto
  then have "scan_value m (p @ w @ CHR '','' # q @ t) = Some (w @ CHR '','' # q @ t)"
    using elements_more follows_ws [of w] by simp
  moreover have "scan_elements m (q @ t) = Some t" using elements_more n by simp
  ultimately show ?case using elements_more unfolding n by (simp add: Let_def)
next
  case (members_last w1 k w2 p w3)
  then obtain m where n: "n = Suc m" by (cases n) auto
  then have "scan_value m (p @ w3 @ CHR ''}'' # t) = Some (w3 @ CHR ''}'' # t)"
    using members_last follows_ws [of w3] by simp
  then show ?case using members_last scan_string_complete [of k] unfolding n by (simp add: Let_def)
next
  case (members_more w1 k w2 p w3 q)
  then obtain m where n: "n = Suc m" by (cases n) auto
  then have "scan_value m (p @ w3 @ CHR '','' # q @ t) = Some (w3 @ CHR '','' # q @ t)"
    using members_more follows_ws [of w3] by simp
  moreover have "scan_members m (q @ t) = Some t" using members_more n by simp
  ultimately show ?case using members_more scan_string_complete [of k] unfolding n by (simp add: Let_def)
qed

lemma closed_by:
  assumes "take 1 (skip_ws s) = [c]" obtains w where "s = w @ c # drop 1 (skip_ws s)" "list_all is_ws w"
proof -
  obtain w where "s = w @ skip_ws s" "list_all is_ws w" using skip_ws_split by blast
  moreover have "skip_ws s = c # drop 1 (skip_ws s)" using assms by (cases "skip_ws s") auto
  ultimately show thesis using that by metis
qed

lemma scan_value_step:
  assumes "scan_value (Suc n) s = Some r"
    and elements: "\<And>s r. scan_elements n s = Some r \<Longrightarrow> \<exists>p. s = p @ r \<and> elements_text p"
    and members: "\<And>s r. scan_members n s = Some r \<Longrightarrow> \<exists>p. s = p @ r \<and> members_text p"
  shows "\<exists>p. s = p @ r \<and> value_text p"
proof -
  obtain w where w: "s = w @ skip_ws s" "list_all is_ws w" using skip_ws_split by blast
  have ws: "value_text p \<Longrightarrow> value_text (w @ p)" for p
    using w(2) by (induction w) (auto intro: value_ws)
  obtain c cs where s: "skip_ws s = c # cs" using assms(1) by (cases "skip_ws s") auto
  consider "c = quote_char" | "c = CHR ''[''" | "c = CHR ''{''"
    | "c \<noteq> quote_char" "c \<noteq> CHR ''[''" "c \<noteq> CHR ''{''" by blast
  then have "\<exists>p. c # cs = p @ r \<and> value_text p"
  proof cases
    case 1
    with assms(1) s have "scan_string cs = Some r" by simp
    with 1 scan_string_sound value_string show ?thesis by (metis append_Cons)
  next
    case arr: 2
    show ?thesis
    proof (cases "take 1 (skip_ws cs) = '']''")
      case True
      from True arr assms(1) s have "r = drop 1 (skip_ws cs)" by simp
      with closed_by [OF True] obtain w' where "cs = w' @ CHR '']'' # r" "list_all is_ws w'" by metis
      with arr value_array0 show ?thesis by (intro exI [of _ "CHR ''['' # w' @ '']''"]) simp
    next
      case False
      with arr assms(1) s have "scan_elements n cs = Some r" by simp
      then obtain p where "cs = p @ r" "elements_text p" using elements by blast
      with arr value_array show ?thesis by (intro exI [of _ "CHR ''['' # p"]) simp
    qed
  next
    case obj: 3
    show ?thesis
    proof (cases "take 1 (skip_ws cs) = ''}''")
      case True
      from True obj assms(1) s have "r = drop 1 (skip_ws cs)" by simp
      with closed_by [OF True] obtain w' where "cs = w' @ CHR ''}'' # r" "list_all is_ws w'" by metis
      with obj value_object0 show ?thesis by (intro exI [of _ "CHR ''{'' # w' @ ''}''"]) simp
    next
      case False
      with obj assms(1) s have "scan_members n cs = Some r" by simp
      then obtain p where "cs = p @ r" "members_text p" using members by blast
      with obj value_object show ?thesis by (intro exI [of _ "CHR ''{'' # p"]) simp
    qed
  next
    case 4
    with assms(1) s have "scan_number (c # cs) = Some r \<or> scan_literal (c # cs) = Some r" by (auto split: if_splits)
    with scan_number_sound value_number scan_literal_sound value_literal show ?thesis by blast
  qed
  with w(1) s ws show ?thesis by (metis append.assoc)
qed

lemma scan_elements_step:
  assumes "scan_elements (Suc n) s = Some r"
    and val: "\<And>s r. scan_value n s = Some r \<Longrightarrow> \<exists>p. s = p @ r \<and> value_text p"
    and elements: "\<And>s r. scan_elements n s = Some r \<Longrightarrow> \<exists>p. s = p @ r \<and> elements_text p"
  shows "\<exists>p. s = p @ r \<and> elements_text p"
proof -
  obtain s1 where s1: "scan_value n s = Some s1" using assms(1) by (auto split: option.splits)
  with val obtain p where p: "s = p @ s1" "value_text p" by blast
  from assms(1) s1 have "take 1 (skip_ws s1) = '']'' \<and> r = drop 1 (skip_ws s1)
      \<or> take 1 (skip_ws s1) = '','' \<and> scan_elements n (drop 1 (skip_ws s1)) = Some r"
    by (auto simp: Let_def split: if_splits)
  then show ?thesis
  proof (elim disjE conjE)
    assume "take 1 (skip_ws s1) = '']''" "r = drop 1 (skip_ws s1)"
    with closed_by obtain w where "s1 = w @ CHR '']'' # r" "list_all is_ws w" by metis
    with p elements_last show ?thesis by (intro exI [of _ "p @ w @ '']''"]) simp
  next
    assume more: "take 1 (skip_ws s1) = '',''" "scan_elements n (drop 1 (skip_ws s1)) = Some r"
    with closed_by obtain w where w: "s1 = w @ CHR '','' # drop 1 (skip_ws s1)" "list_all is_ws w" by metis
    from elements more(2) obtain q where q: "drop 1 (skip_ws s1) = q @ r" "elements_text q" by blast
    with p w elements_more show ?thesis by (intro exI [of _ "p @ w @ CHR '','' # q"]) simp
  qed
qed

lemma scan_members_step:
  assumes "scan_members (Suc n) s = Some r"
    and val: "\<And>s r. scan_value n s = Some r \<Longrightarrow> \<exists>p. s = p @ r \<and> value_text p"
    and members: "\<And>s r. scan_members n s = Some r \<Longrightarrow> \<exists>p. s = p @ r \<and> members_text p"
  shows "\<exists>p. s = p @ r \<and> members_text p"
proof -
  from assms(1) have q: "take 1 (skip_ws s) = [quote_char]" by (auto simp: Let_def split: if_splits)
  with closed_by obtain w1 where w1: "s = w1 @ quote_char # drop 1 (skip_ws s)" "list_all is_ws w1" by metis
  from assms(1) q obtain s1 where s1: "scan_string (drop 1 (skip_ws s)) = Some s1" "take 1 (skip_ws s1) = '':''"
    by (auto simp: Let_def split: if_splits option.splits)
  with closed_by obtain w2 where w2: "s1 = w2 @ CHR '':'' # drop 1 (skip_ws s1)" "list_all is_ws w2" by metis
  from s1(1) scan_string_sound obtain k where k: "drop 1 (skip_ws s) = k @ s1" "string_text k" by blast
  from assms(1) q s1 obtain s2 where s2: "scan_value n (drop 1 (skip_ws s1)) = Some s2"
    and rest: "take 1 (skip_ws s2) = ''}'' \<and> r = drop 1 (skip_ws s2)
      \<or> take 1 (skip_ws s2) = '','' \<and> scan_members n (drop 1 (skip_ws s2)) = Some r"
    by (auto simp: Let_def split: if_splits option.splits)
  from val s2 obtain p where p: "drop 1 (skip_ws s1) = p @ s2" "value_text p" by blast
  have s: "s = w1 @ quote_char # k @ w2 @ CHR '':'' # p @ s2"
    using w1(1) w2(1) unfolding k(1) p(1) by simp
  from rest show ?thesis
  proof (elim disjE conjE)
    assume "take 1 (skip_ws s2) = ''}''" "r = drop 1 (skip_ws s2)"
    with closed_by obtain w3 where "s2 = w3 @ CHR ''}'' # r" "list_all is_ws w3" by metis
    with s members_last [OF w1(2) k(2) w2(2) p(2)] show ?thesis
      by (intro exI [of _ "w1 @ quote_char # k @ w2 @ CHR '':'' # p @ w3 @ ''}''"]) simp
  next
    assume more: "take 1 (skip_ws s2) = '',''" "scan_members n (drop 1 (skip_ws s2)) = Some r"
    with closed_by obtain w3 where w3: "s2 = w3 @ CHR '','' # drop 1 (skip_ws s2)" "list_all is_ws w3" by metis
    from members more(2) obtain m where "drop 1 (skip_ws s2) = m @ r" "members_text m" by blast
    with s w3 members_more [OF w1(2) k(2) w2(2) p(2)] show ?thesis
      by (intro exI [of _ "w1 @ quote_char # k @ w2 @ CHR '':'' # p @ w3 @ CHR '','' # m"]) simp
  qed
qed

lemma scan_sound:
  "scan_value n s = Some r \<Longrightarrow> \<exists>p. s = p @ r \<and> value_text p"
  "scan_elements n s = Some r \<Longrightarrow> \<exists>p. s = p @ r \<and> elements_text p"
  "scan_members n s = Some r \<Longrightarrow> \<exists>p. s = p @ r \<and> members_text p"
proof (induction n arbitrary: s r)
  case (Suc n)
  { case 1 then show ?case by (rule scan_value_step) (rule Suc.IH, assumption)+ }
  { case 2 then show ?case by (rule scan_elements_step) (rule Suc.IH, assumption)+ }
  { case 3 then show ?case by (rule scan_members_step) (rule Suc.IH, assumption)+ }
qed simp_all

text \<open>The syntax check accepts exactly the values of the grammar.\<close>

lemma json_valid_iff: "json_valid s \<longleftrightarrow> (\<exists>p w. s = p @ w \<and> value_text p \<and> list_all is_ws w)"
proof
  assume "json_valid s"
  then obtain r where "scan_value (2 * length s + 1) s = Some r" "skip_ws r = []"
    by (auto simp: json_valid_def split: option.splits)
  moreover obtain w where "r = w @ skip_ws r" "list_all is_ws w" using skip_ws_split by blast
  ultimately show "\<exists>p w. s = p @ w \<and> value_text p \<and> list_all is_ws w"
    using scan_sound(1) by (metis append_Nil2)
next
  assume "\<exists>p w. s = p @ w \<and> value_text p \<and> list_all is_ws w"
  then obtain p w where s: "s = p @ w" "value_text p" "list_all is_ws w" by blast
  then have "follows w" by (cases w) (auto simp: follows_def is_ws_def is_digit_def)
  with s scan_complete(1) [of p w "2 * length s + 1"] skip_ws_append [of w "[]"] show "json_valid s"
    by (simp add: json_valid_def)
qed

subsection \<open>Compaction keeps values\<close>

text \<open>Characters that compaction copies.\<close>

definition copied :: "char \<Rightarrow> bool" where
  "copied c \<longleftrightarrow> c \<notin> set ''<>&'' \<and> c \<noteq> CHR 0xE2 \<and> \<not> is_ws c \<and> c \<noteq> backslash \<and> c \<noteq> quote_char"

lemma line_separator_head: "c \<noteq> CHR 0xE2 \<Longrightarrow> line_separator (c # cs) = None"
  by (simp add: line_separator_def)

lemma compact_copied: "list_all copied x \<Longrightarrow> json_compact inside (x @ t) = x @ json_compact inside t"
  by (induction x) (auto simp: copied_def line_separator_head)

lemma compact_ws: "list_all is_ws w \<Longrightarrow> json_compact False (w @ t) = json_compact False t"
proof (induction w)
  case (Cons c w)
  then have "c \<notin> set ''<>&''" "c \<noteq> CHR 0xE2" by (auto simp: is_ws_def)
  with Cons show ?case by (simp add: line_separator_head)
qed simp

lemma compact_quote: "json_compact inside (quote_char # t) = quote_char # json_compact (\<not> inside) t"
  by (simp add: line_separator_head)

lemma copied_hex: "is_hex c \<Longrightarrow> copied c" by (auto simp: is_hex_def copied_def is_ws_def)

lemma copied_punct [simp]:
  "copied (CHR ''['')" "copied (CHR '']'')" "copied (CHR ''{'')" "copied (CHR ''}'')" "copied (CHR '','')" "copied (CHR '':'')"
  "copied (CHR ''-'')" "copied (CHR ''+'')" "copied (CHR ''.'')" "copied (CHR ''e'')" "copied (CHR ''E'')"
  by (auto simp: copied_def is_ws_def)

lemma copied_digit: "is_digit c \<Longrightarrow> copied c" by (auto simp: is_digit_def copied_def is_ws_def)

lemma compact_punct:
  "copied c \<Longrightarrow> json_compact inside (c # t) = c # json_compact inside t"
  using compact_copied [of "[c]"] by simp

lemma copied_number: "number_text p \<Longrightarrow> list_all copied p"
proof -
  have d: "list_all is_digit x \<Longrightarrow> list_all copied x" for x by (auto simp: list_all_iff copied_digit)
  assume "number_text p"
  then obtain sg i f e where p: "p = sg @ i @ f @ e" "sg \<in> {[], ''-''}" "int_text i" "frac_text f" "exp_text e"
    unfolding number_text_def by blast
  have "copied (CHR ''0'')" by (rule copied_digit) (simp add: is_digit_def)
  then have "list_all copied i" using p(3) d by (auto simp: int_text_def)
  moreover have "list_all copied f" using p(4) d by (auto simp: frac_text_def)
  moreover have "list_all copied e" using p(5) d by (auto simp: exp_text_def)
  ultimately show ?thesis using p(1,2) by auto
qed

lemma string_text_nonempty: "string_text p \<Longrightarrow> p \<noteq> []" by (cases rule: string_text.cases) auto

text \<open>A line separator inside a string lies before its closing quote.\<close>

lemma separator_inside:
  assumes "string_text (c # p)" "line_separator (c # p @ t) = Some n"
  obtains d q where "c # p = CHR 0xE2 # CHR 0x80 # d # q" "string_text q" "n = 0x2028 \<or> n = 0x2029"
proof -
  have high: "byte (CHR 0xE2) = 226" "byte (CHR 0x80) = 128" by (simp_all add: byte_def)
  from assms(2) obtain d r where r: "c # p @ t = CHR 0xE2 # CHR 0x80 # d # r" "d = CHR 0xA8 \<or> d = CHR 0xA9"
    and n: "n = 0x2028 \<or> n = 0x2029"
    by (cases "p @ t"; cases "tl (p @ t)") (auto simp: line_separator_def split: if_splits)
  have plain: "string_text q" if "string_text (x # q)" "x = CHR 0xE2 \<or> x = CHR 0x80 \<or> x = CHR 0xA8 \<or> x = CHR 0xA9" for x q
    using that by (cases rule: string_text.cases) auto
  have p: "string_text p" using plain assms(1) r by auto
  then obtain p' where p': "p = CHR 0x80 # p'" using r string_text_nonempty by (cases p) auto
  with p plain have "string_text p'" by blast
  moreover then obtain q where "p' = d # q" using r p' string_text_nonempty by (cases p') auto
  ultimately have "string_text q" "p = CHR 0x80 # d # q" using plain r(2) p' by auto
  with r n that show thesis by auto
qed

definition string_compacts :: "string \<Rightarrow> string \<Rightarrow> bool" where
  "string_compacts p x \<longleftrightarrow> string_text x \<and> (\<forall>t. json_compact True (p @ t) = x @ json_compact False t)"

lemma compact_string_escaped:
  assumes "string_compacts r y" "\<And>t. json_compact True (p @ t) = unicode_escape n @ json_compact True (r @ t)"
  shows "string_compacts p (unicode_escape n @ y)"
  using assms string_text.string_unicode [OF is_hex_hex4(2,1), of y n]
  by (simp add: string_compacts_def unicode_escape_def)

lemma compact_string_plain:
  assumes cq: "string_text (c # q)" and c: "c \<noteq> quote_char" "c \<noteq> backslash" "\<not> byte c < 32" and q: "string_text q"
    and IH: "\<And>r. length r \<le> length q \<Longrightarrow> string_text r \<Longrightarrow> \<exists>x. string_compacts r x"
  shows "\<exists>x. string_compacts (c # q) x"
proof -
  obtain x where x: "string_compacts q x" using IH q by blast
  consider "c \<in> set ''<>&''" | t n where "c \<notin> set ''<>&''" "line_separator (c # q @ t) = Some n"
    | "c \<notin> set ''<>&''" "\<And>t. line_separator (c # q @ t) = None" by (metis not_None_eq)
  then show ?thesis
  proof cases
    case 1
    then show ?thesis using compact_string_escaped [OF x, of "c # q" "byte c"] by auto
  next
    case (2 t n)
    then obtain d r where r: "c # q = CHR 0xE2 # CHR 0x80 # d # r" "string_text r"
      using separator_inside cq by blast
    then obtain y where y: "string_compacts r y" using IH [of r] by auto
    have "line_separator (c # q @ u) = line_separator (c # q @ t)" for u using r(1) by (simp add: line_separator_def)
    then have "line_separator (c # q @ u) = Some n" for u using 2(2) by metis
    then have "json_compact True ((c # q) @ u) = unicode_escape n @ json_compact True (r @ u)" for u
      using 2(1) r(1) by simp
    with compact_string_escaped [OF y] show ?thesis by blast
  next
    case 3
    then have "json_compact True ((c # q) @ t) = c # json_compact True (q @ t)" for t using c by simp
    then have "string_compacts (c # q) (c # x)"
      using x string_text.string_plain [OF c, of x] by (simp add: string_compacts_def)
    then show ?thesis by blast
  qed
qed

lemma compact_string:
  assumes "string_text p" shows "\<exists>x. string_compacts p x"
  using assms
proof (induction p rule: length_induct)
  case (1 p)
  have IH: "\<exists>x. string_compacts q x" if "length q < length p" "string_text q" for q using 1(1) that by blast
  from 1(2) show ?case
  proof (cases rule: string_text.cases)
    case string_close
    then show ?thesis using string_text.string_close
      by (intro exI [of _ "[quote_char]"]) (simp add: string_compacts_def line_separator_head)
  next
    case (string_unicode h q)
    then obtain x where x: "string_compacts q x" using IH [of q] by auto
    have "list_all copied h" using string_unicode by (auto simp: list_all_iff copied_hex)
    then have "json_compact True (p @ t) = (backslash # CHR ''u'' # h) @ json_compact True (q @ t)" for t
      unfolding string_unicode(1) by (simp add: line_separator_head compact_copied)
    then have "string_compacts p (backslash # CHR ''u'' # h @ x)"
      using x string_text.string_unicode [OF string_unicode(2,3), of x] by (simp add: string_compacts_def)
    then show ?thesis by blast
  next
    case (string_escape c q)
    then obtain x where x: "string_compacts q x" using IH [of q] by auto
    have "json_compact True (p @ t) = backslash # c # json_compact True (q @ t)" for t
      unfolding string_escape(1) by (simp add: line_separator_head)
    then have "string_compacts p (backslash # c # x)"
      using x string_text.string_escape [OF string_escape(2), of x] by (simp add: string_compacts_def)
    then show ?thesis by blast
  next
    case (string_plain c q)
    with 1(2) IH show ?thesis by (auto intro!: compact_string_plain)
  qed
qed

definition compacts :: "(string \<Rightarrow> bool) \<Rightarrow> string \<Rightarrow> bool" where
  "compacts P p \<longleftrightarrow> (\<exists>x. P x \<and> x \<noteq> [] \<and> \<not> is_ws (hd x) \<and> (\<forall>t. json_compact False (p @ t) = x @ json_compact False t))"

lemma compactsI:
  "P x \<Longrightarrow> x \<noteq> [] \<Longrightarrow> \<not> is_ws (hd x) \<Longrightarrow> (\<And>t. json_compact False (p @ t) = x @ json_compact False t) \<Longrightarrow> compacts P p"
  by (auto simp: compacts_def)

lemma compactsE:
  assumes "compacts P p"
  obtains x where "P x" "x \<noteq> []" "\<not> is_ws (hd x)" "\<And>t. json_compact False (p @ t) = x @ json_compact False t"
  using assms by (auto simp: compacts_def)

lemmas compact_simps = compact_punct compact_ws compact_quote compact_copied
lemmas text_intros = value_text_elements_text_members_text.intros

lemma compact_copied_text: "P x \<Longrightarrow> list_all copied x \<Longrightarrow> x \<noteq> [] \<Longrightarrow> compacts P x"
  using compact_copied [of x False] by (auto simp: compacts_def copied_def list_all_iff simp del: json_compact.simps)

text \<open>The members of an object without the white space around them.\<close>

lemma tight_texts:
  "value_text p \<Longrightarrow> elements_text (p @ '']'')"
  "value_text p \<Longrightarrow> elements_text q \<Longrightarrow> elements_text (p @ CHR '','' # q)"
  "string_text k \<Longrightarrow> value_text p \<Longrightarrow> members_text (quote_char # k @ CHR '':'' # p @ ''}'')"
  "string_text k \<Longrightarrow> value_text p \<Longrightarrow> members_text q \<Longrightarrow> members_text (quote_char # k @ CHR '':'' # p @ CHR '','' # q)"
  using elements_last [of p "[]"] elements_more [of p "[]" q] members_last [of "[]" k "[]" p "[]"]
    members_more [of "[]" k "[]" p "[]" q]
  by simp_all

lemma compact_value:
  "value_text p \<Longrightarrow> compacts value_text p"
  "elements_text p \<Longrightarrow> compacts elements_text p"
  "members_text p \<Longrightarrow> compacts members_text p"
proof (induction rule: value_text_elements_text_members_text.inducts)
  case (value_ws c p)
  then show ?case using compact_ws [of "[c]"] by (auto simp: compacts_def simp del: json_compact.simps)
next
  case (value_string p)
  then obtain x where "string_compacts p x" using compact_string by blast
  then show ?case
    by (intro compactsI [of _ "quote_char # x"])
      (auto simp: string_compacts_def compact_quote simp del: json_compact.simps intro: text_intros)
next
  case (value_number p)
  then show ?case using copied_number [of p] number_text_head [of p] text_intros(3) [of p]
    by (intro compact_copied_text) auto
next
  case (value_literal p)
  then show ?case by (intro compact_copied_text text_intros) (auto simp: copied_def is_ws_def)
next
  case (value_array0 w)
  then show ?case using text_intros(5) [of "[]"]
    by (intro compactsI [of _ "''[]''"]) (simp_all add: compact_simps del: json_compact.simps)
next
  case (value_object0 w)
  then show ?case using text_intros(7) [of "[]"]
    by (intro compactsI [of _ "''{}''"]) (simp_all add: compact_simps del: json_compact.simps)
next
  case (value_array p)
  then obtain x where "elements_text x" "\<And>t. json_compact False (p @ t) = x @ json_compact False t" by (auto elim: compactsE)
  then show ?case
    by (intro compactsI [of _ "CHR ''['' # x"]) (auto simp: compact_simps simp del: json_compact.simps intro: text_intros)
next
  case (value_object p)
  then obtain x where "members_text x" "\<And>t. json_compact False (p @ t) = x @ json_compact False t" by (auto elim: compactsE)
  then show ?case
    by (intro compactsI [of _ "CHR ''{'' # x"]) (auto simp: compact_simps simp del: json_compact.simps intro: text_intros)
next
  case (elements_last p w)
  then obtain x where x: "value_text x" "x \<noteq> []" "\<not> is_ws (hd x)" "\<And>t. json_compact False (p @ t) = x @ json_compact False t"
    by (auto elim: compactsE)
  then show ?case using elements_last
    by (intro compactsI [of _ "x @ '']''"])
      (auto simp: compact_simps tight_texts simp del: json_compact.simps)
next
  case (elements_more p w q)
  then obtain x y where x: "value_text x" "x \<noteq> []" "\<not> is_ws (hd x)" "\<And>t. json_compact False (p @ t) = x @ json_compact False t"
    and y: "elements_text y" "\<And>t. json_compact False (q @ t) = y @ json_compact False t"
    by (auto elim!: compactsE)
  then show ?case using elements_more
    by (intro compactsI [of _ "x @ CHR '','' # y"])
      (auto simp: compact_simps tight_texts simp del: json_compact.simps)
next
  case (members_last w1 k w2 p w3)
  then obtain j x where "string_compacts k j" "value_text x" "\<And>t. json_compact False (p @ t) = x @ json_compact False t"
    using compact_string by (metis compactsE)
  then show ?case using members_last
    by (intro compactsI [of _ "quote_char # j @ CHR '':'' # x @ ''}''"])
      (auto simp: compact_simps string_compacts_def tight_texts simp del: json_compact.simps)
next
  case (members_more w1 k w2 p w3 q)
  then obtain j x y where "string_compacts k j" "value_text x" "\<And>t. json_compact False (p @ t) = x @ json_compact False t"
    "members_text y" "\<And>t. json_compact False (q @ t) = y @ json_compact False t"
    using compact_string by (metis compactsE)
  then show ?case using members_more
    by (intro compactsI [of _ "quote_char # j @ CHR '':'' # x @ CHR '','' # y"])
      (auto simp: compact_simps string_compacts_def tight_texts simp del: json_compact.simps)
qed

lemma compact_valid:
  assumes "json_valid d"
  shows "value_text (json_compact False d)" "json_compact False d \<noteq> []" "\<not> is_ws (hd (json_compact False d))"
proof -
  obtain p w where d: "d = p @ w" "value_text p" "list_all is_ws w" using assms json_valid_iff by blast
  then obtain x where "value_text x" "x \<noteq> []" "\<not> is_ws (hd x)" "json_compact False d = x @ json_compact False (w @ [])"
    using compactsE [OF compact_value(1)] by (metis append_Nil2)
  moreover have "json_compact False (w @ []) = []" using compact_ws [OF d(3), of "[]"] by simp
  ultimately show "value_text (json_compact False d)" "json_compact False d \<noteq> []" "\<not> is_ws (hd (json_compact False d))"
    by simp_all
qed

text \<open>A quoted string is a value.\<close>

lemma string_text_json_escape: "string_text (json_escape s @ [quote_char])"
  using scan_string_sound [of "json_escape s @ [quote_char]" "[]"] json_string_scans [of s "[]"] by simp

lemma value_text_json_string: "value_text (json_string s)"
  using value_string [OF string_text_json_escape] by (simp add: json_string_def)

end
