(* ===== verification/Json_Decode.thy ===== *)
theory Json_Decode
  imports Json_Grammar
begin

text \<open>
  The decoding side of \<^verbatim>\<open>encoding/json\<close> (Go 1.24) as the program uses it to read structs:
  \<open>unquote\<close> gives the text of a string literal, \<open>json_members\<close> the members of an object with
  the raw text of each value, \<open>fold_name\<close> the folding under which a key selects a field.
  \<open>json_field\<close> functions store a raw value into a field of one Go type and are \<open>None\<close> on a
  type error; a struct is decoded by a left fold over the members, and any error makes the
  whole decoding fail.
\<close>

subsection \<open>Strings\<close>

definition encode_rune :: "nat \<Rightarrow> string" where
  "encode_rune n =
     (if n < 128 then [char_of n]
      else if n < 2048 then [char_of (192 + n div 64), char_of (128 + n mod 64)]
      else if n < 65536 then
        [char_of (224 + n div 4096), char_of (128 + n div 64 mod 64), char_of (128 + n mod 64)]
      else [char_of (240 + n div 262144), char_of (128 + n div 4096 mod 64),
            char_of (128 + n div 64 mod 64), char_of (128 + n mod 64)])"

definition hex_value :: "char \<Rightarrow> nat" where
  "hex_value c =
     (if is_digit c then byte c - 48 else if byte c < 97 then byte c - 55 else byte c - 87)"

definition hex4_value :: "string \<Rightarrow> nat" where
  "hex4_value s = foldl (\<lambda>n c. 16 * n + hex_value c) 0 (take 4 s)"

text \<open>The code unit of an escape at the head of a string, as \<open>getu4\<close>.\<close>

definition getu4 :: "string \<Rightarrow> nat option" where
  "getu4 s =
     (if take 2 s = [backslash, CHR ''u''] \<and> 6 \<le> length s \<and> list_all is_hex (take 4 (drop 2 s))
      then Some (hex4_value (drop 2 s)) else None)"

definition surrogate :: "nat \<Rightarrow> bool" where
  "surrogate n \<longleftrightarrow> 0xD800 \<le> n \<and> n < 0xE000"

text \<open>\<open>utf16.DecodeRune\<close>\<close>

definition DecodeRune :: "nat \<Rightarrow> nat \<Rightarrow> nat option" where
  "DecodeRune r1 r2 =
     (if 0xD800 \<le> r1 \<and> r1 < 0xDC00 \<and> 0xDC00 \<le> r2 \<and> r2 < 0xE000
      then Some ((r1 - 0xD800) * 1024 + (r2 - 0xDC00) + 0x10000) else None)"

definition unescape :: "char \<Rightarrow> char" where
  "unescape c =
     (if c = CHR ''b'' then CHR 0x08 else if c = CHR ''f'' then CHR 0x0C else if c = CHR ''n'' then CHR 0x0A
      else if c = CHR ''r'' then CHR 0x0D else if c = CHR ''t'' then CHR 0x09 else c)"

text \<open>The text of a literal, from behind its opening quote; the literal has passed the syntax
  check.  Bytes that are no UTF-8 and lone surrogates become U+FFFD.\<close>

fun unquote :: "string \<Rightarrow> string" where
  "unquote [] = []"
| "unquote (c # cs) =
     (if c = quote_char then []
      else if c = backslash then
        (if take 1 cs = ''u'' then
           (let u = hex4_value (drop 1 cs); rest = drop 5 cs
            in if surrogate u then
                 (case getu4 rest of
                    Some v \<Rightarrow>
                      (case DecodeRune u v of
                         Some r \<Rightarrow> encode_rune r @ unquote (drop 6 rest)
                       | None \<Rightarrow> encode_rune 0xFFFD @ unquote rest)
                  | None \<Rightarrow> encode_rune 0xFFFD @ unquote rest)
               else encode_rune u @ unquote rest)
         else map unescape (take 1 cs) @ unquote (drop 1 cs))
      else if byte c < 128 then c # unquote cs
      else if utf8_size (c # cs) = 0 then encode_rune 0xFFFD @ unquote cs
      else take (utf8_size (c # cs)) (c # cs) @ unquote (drop (utf8_size (c # cs) - 1) cs))"

subsection \<open>Objects\<close>

text \<open>The members of an object that has passed the syntax check, from behind its brace.\<close>

fun json_members :: "nat \<Rightarrow> string \<Rightarrow> (string \<times> string) list" where
  "json_members 0 s = []"
| "json_members (Suc n) s =
     (let s = skip_ws s
      in if take 1 s \<noteq> [quote_char] then []
         else
           (case scan_string (drop 1 s) of
              None \<Rightarrow> []
            | Some s1 \<Rightarrow>
                (let v = skip_ws (drop 1 (skip_ws s1))
                 in case scan_value n v of
                      None \<Rightarrow> []
                    | Some r \<Rightarrow>
                        (unquote (drop 1 s), take (length v - length r) v)
                        # (if take 1 (skip_ws r) = '','' then json_members n (drop 1 (skip_ws r)) else []))))"

text \<open>Keys select fields without regard to case, which in Unicode also identifies the long s and
  the Kelvin sign with ASCII letters.\<close>

fun fold_name :: "string \<Rightarrow> string" where
  "fold_name [] = []"
| "fold_name (c # cs) =
     (if take 2 (c # cs) = [CHR 0xC5, CHR 0xBF] then CHR ''s'' # fold_name (drop 1 cs)
      else if take 3 (c # cs) = [CHR 0xE2, CHR 0x84, CHR 0xAA] then CHR ''k'' # fold_name (drop 2 cs)
      else if 65 \<le> byte c \<and> byte c \<le> 90 then char_of (byte c + 32) # fold_name cs
      else c # fold_name cs)"

subsection \<open>Values of fields\<close>

definition is_null :: "string \<Rightarrow> bool" where
  "is_null raw \<longleftrightarrow> take 1 raw = ''n''"

definition string_field :: "string \<Rightarrow> string \<Rightarrow> string option" where
  "string_field raw old =
     (if is_null raw then Some old
      else if take 1 raw = [quote_char] then Some (unquote (drop 1 raw)) else None)"

text \<open>\<open>strconv.ParseInt\<close> in base 10 and 64 bits.\<close>

definition digits_value :: "string \<Rightarrow> int" where
  "digits_value s = foldl (\<lambda>n c. 10 * n + (int (byte c) - 48)) 0 s"

definition ParseInt :: "string \<Rightarrow> int option" where
  "ParseInt s =
     (let neg = take 1 s = ''-''; ds = (if neg \<or> take 1 s = ''+'' then drop 1 s else s);
          v = (if neg then - digits_value ds else digits_value ds)
      in if ds \<noteq> [] \<and> list_all is_digit ds \<and> - (2 ^ 63) \<le> v \<and> v < 2 ^ 63 then Some v else None)"

definition int_field :: "string \<Rightarrow> int \<Rightarrow> int option" where
  "int_field raw old =
     (if is_null raw then Some old
      else if raw \<noteq> [] \<and> (hd raw = CHR ''-'' \<or> is_digit (hd raw)) then ParseInt raw else None)"

text \<open>A pointer to a string: \<open>null\<close> is the nil pointer.\<close>

definition string_ptr_field :: "string \<Rightarrow> string option option" where
  "string_ptr_field raw =
     (if is_null raw then Some None
      else if take 1 raw = [quote_char] then Some (Some (unquote (drop 1 raw))) else None)"

text \<open>A slice of strings: \<open>null\<close> is the nil slice, and a \<open>null\<close> element is the empty string.\<close>

fun json_elements :: "nat \<Rightarrow> string \<Rightarrow> string list" where
  "json_elements 0 s = []"
| "json_elements (Suc n) s =
     (let v = skip_ws s
      in case scan_value n v of
           None \<Rightarrow> []
         | Some r \<Rightarrow>
             take (length v - length r) v
             # (if take 1 (skip_ws r) = '','' then json_elements n (drop 1 (skip_ws r)) else []))"

definition strings_field :: "string \<Rightarrow> string list option" where
  "strings_field raw =
     (if is_null raw then Some []
      else if take 1 raw = ''['' then
        (let elems = (if take 1 (skip_ws (drop 1 raw)) = '']'' then []
                      else json_elements (2 * length raw) (drop 1 raw))
         in those (map (\<lambda>e. string_field e []) elems))
      else None)"

subsection \<open>Structs\<close>

text \<open>\<open>json.Unmarshal\<close> into a struct: the whole input has to be one value; \<open>null\<close> leaves the
  struct as it is.  \<open>put\<close> stores one member by its folded name.\<close>

definition decode_struct :: "(string \<Rightarrow> string \<Rightarrow> 'r \<Rightarrow> 'r option) \<Rightarrow> string \<Rightarrow> 'r \<Rightarrow> 'r option" where
  "decode_struct put raw zero =
     (if is_null raw then Some zero
      else if take 1 raw = ''{'' then
        foldl (\<lambda>r (k, v). Option.bind r (put (fold_name k) v)) (Some zero)
          (json_members (2 * length raw) (drop 1 raw))
      else None)"

definition Unmarshal :: "(string \<Rightarrow> string \<Rightarrow> 'r \<Rightarrow> 'r option) \<Rightarrow> string \<Rightarrow> 'r \<Rightarrow> 'r option" where
  "Unmarshal put text zero =
     (if json_valid text then decode_struct put (skip_ws text) zero else None)"

text \<open>\<open>Decoder.Decode\<close> reads one value and leaves the rest of the input alone; behind a value that
  is no object and no array it looks at the next byte.\<close>

definition Decode :: "(string \<Rightarrow> string \<Rightarrow> 'r \<Rightarrow> 'r option) \<Rightarrow> string \<Rightarrow> 'r \<Rightarrow> 'r option" where
  "Decode put text zero =
     (case scan_value (2 * length text + 1) text of
        None \<Rightarrow> None
      | Some r \<Rightarrow>
          (let v = skip_ws text
           in if take 1 v = ''{'' \<or> take 1 v = ''['' \<or> r = [] \<or> skip_ws r \<noteq> r
              then decode_struct put (take (length v - length r) v) zero else None))"

subsection \<open>Quoting and unquoting\<close>

lemma hex_value_digit: "n < 16 \<Longrightarrow> hex_value (''0123456789abcdef'' ! n) = n"
proof -
  assume "n < 16"
  moreover have "\<forall>n \<in> set [0..<16]. hex_value (''0123456789abcdef'' ! n) = n"
    by code_simp
  ultimately show ?thesis by simp
qed

lemma hex4_value_hex4:
  assumes "n < 65536" shows "hex4_value (hex4 n @ r) = n"
proof -
  have "hex4_value (hex4 n @ r) =
      16 * (16 * (16 * (n div 4096 mod 16) + n div 256 mod 16) + n div 16 mod 16) + n mod 16"
    by (simp add: hex4_value_def hex4_def hex_value_digit del: nth_Cons_numeral nth_Cons_0)
  also have "\<dots> = n"
  proof -
    have d: "n div 256 = n div 16 div 16" "n div 4096 = n div 16 div 16 div 16"
      by (simp_all add: div_mult2_eq [symmetric])
    have "n div 16 div 16 div 16 < 16" using assms by linarith
    then have e1: "16 * (n div 4096 mod 16) + n div 256 mod 16 = n div 16 div 16"
      unfolding d by (simp add: mult_div_mod_eq)
    have e2: "16 * (n div 16 div 16) + n div 16 mod 16 = n div 16" by (simp add: mult_div_mod_eq)
    have e3: "16 * (n div 16) + n mod 16 = n" by (simp add: mult_div_mod_eq)
    show ?thesis unfolding e1 e2 e3 ..
  qed
  finally show ?thesis .
qed

lemma unquote_unicode_escape:
  assumes "n < 0xD800" shows "unquote (unicode_escape n @ r) = encode_rune n @ unquote r"
  using assms hex4_value_hex4 [of n r] is_hex_hex4(2) [of n]
  by (simp add: unicode_escape_def surrogate_def Let_def)

lemma char_of_byte [simp]: "char_of (byte c) = c" by (simp add: byte_def)

lemma unquote_escape_ascii: "byte c < 128 \<Longrightarrow> unquote (escape_ascii c @ r) = c # unquote r"
  by (auto simp: escape_ascii_def unquote_unicode_escape encode_rune_def unescape_def)

lemma conts_take: "m \<le> j \<Longrightarrow> j \<le> length cs \<Longrightarrow> conts m (take j cs @ r) = conts m cs"
  by (simp add: conts_def min_def)

lemma utf8_size_le: "utf8_size (c # cs) \<le> Suc (length cs)"
  by (auto simp: Let_def conts_def)

lemma utf8_size_cong:
  assumes "utf8_size (c # cs) = Suc j"
    and "\<And>m. m \<le> j \<Longrightarrow> conts m xs = conts m cs" and "0 < j \<Longrightarrow> xs ! 0 = cs ! 0"
  shows "utf8_size (c # xs) = Suc j"
proof -
  have "1 \<le> j \<Longrightarrow> conts 1 xs = conts 1 cs" "2 \<le> j \<Longrightarrow> conts 2 xs = conts 2 cs" "3 \<le> j \<Longrightarrow> conts 3 xs = conts 3 cs"
    by (rule assms(2), simp)+
  with assms(1,3) show ?thesis by (simp add: Let_def split: if_splits)
qed

lemma utf8_size_take:
  assumes "0 < utf8_size (c # cs)"
  shows "utf8_size (c # take (utf8_size (c # cs) - 1) cs @ r) = utf8_size (c # cs)"
proof -
  define j where "j = utf8_size (c # cs) - 1"
  have j: "j \<le> length cs" "utf8_size (c # cs) = Suc j"
    using utf8_size_le [of c cs] assms by (simp_all add: j_def del: utf8_size.simps)
  have "utf8_size (c # take j cs @ r) = Suc j"
    by (rule utf8_size_cong [OF j(2)]) (use j in \<open>simp_all add: conts_take nth_append del: utf8_size.simps\<close>)
  then show ?thesis unfolding j(2) by simp
qed

lemma high_chars:
  "char_of (226 :: nat) = CHR 0xE2" "char_of (128 :: nat) = CHR 0x80"
  "char_of (168 :: nat) = CHR 0xA8" "char_of (169 :: nat) = CHR 0xA9"
  by code_simp+

lemma unquote_json_escape:
  assumes "utf8_valid s" shows "unquote (json_escape s @ quote_char # r) = s"
  using assms
proof (induction s rule: json_escape.induct)
  case (2 c cs)
  let ?k = "utf8_size (c # cs)"
  have valid: "0 < ?k" "utf8_valid (drop (?k - 1) cs)" using "2.prems" by simp_all
  show ?case
  proof (cases "byte c < 128")
    case True
    then have "?k = 1" by simp
    then show ?thesis using 2(1) [OF True] valid True by (simp add: unquote_escape_ascii)
  next
    case high: False
    then have nq: "c \<noteq> quote_char" "c \<noteq> backslash" by (auto simp: byte_def)
    show ?thesis
    proof (cases "line_separator (c # cs)")
      case None
      have "unquote (json_escape (c # cs) @ quote_char # r) =
          unquote (c # take (?k - 1) cs @ json_escape (drop (?k - 1) cs) @ quote_char # r)"
        using high valid None by (simp add: take_Cons' del: utf8_size.simps)
      also have "\<dots> = c # take (?k - 1) cs @ drop (?k - 1) cs"
        using high nq valid utf8_size_take [OF valid(1)] utf8_size_le [of c cs] 2(3) [OF high _ None]
        by (simp add: take_Cons' del: utf8_size.simps)
      finally show ?thesis by simp
    next
      case (Some n)
      then obtain d ds where cs: "c # cs = CHR 0xE2 # CHR 0x80 # d # ds"
        "n = 0x2028 \<and> d = CHR 0xA8 \<or> n = 0x2029 \<and> d = CHR 0xA9"
        unfolding line_separator_def
        by (cases cs; cases "tl cs") (auto split: if_splits)
      moreover have "encode_rune 0x2028 = [CHR 0xE2, CHR 0x80, CHR 0xA8]" "encode_rune 0x2029 = [CHR 0xE2, CHR 0x80, CHR 0xA9]"
        using high_chars by (simp_all add: encode_rune_def)
      ultimately have n: "encode_rune n = CHR 0xE2 # CHR 0x80 # [d]" "n < 0xD800" by auto
      have "?k = 3" unfolding cs(1) using cs(2) by (elim disjE) (simp_all add: byte_def conts_def)
      with n cs Some high valid 2(4) [OF high _ Some] show ?thesis
        by (simp add: unquote_unicode_escape del: utf8_size.simps)
    qed
  qed
qed simp

subsection \<open>Objects that the program writes\<close>

text \<open>The text of an object with the given members.\<close>

fun member_texts :: "(string \<times> string) list \<Rightarrow> string" where
  "member_texts [] = ''}''"
| "member_texts [(k, v)] = json_string k @ '':'' @ v @ ''}''"
| "member_texts ((k, v) # kvs) = json_string k @ '':'' @ v @ '','' @ member_texts kvs"

definition tight_value :: "string \<Rightarrow> bool" where
  "tight_value v \<longleftrightarrow> value_text v \<and> v \<noteq> [] \<and> \<not> is_ws (hd v)"

lemma json_members_step:
  assumes "utf8_valid k" "tight_value v" "2 * length v \<le> n" "c \<in> set '',}''"
  shows "json_members (Suc n) (json_string k @ '':'' @ v @ c # r) =
    (k, v) # (if c = CHR '','' then json_members n r else [])"
proof -
  have f: "follows (c # r)" using follows_ws [of "[]" c r] assms(4) by auto
  have "scan_value n (v @ c # r) = Some (c # r)"
    using scan_complete(1) [OF _ f assms(3)] assms(2) by (simp add: tight_value_def)
  moreover have "skip_ws (v @ c # r) = v @ c # r" "skip_ws (c # r) = c # r"
    using assms(2,4) by (auto simp: tight_value_def intro!: skip_ws_id)
  moreover have "scan_string (json_escape k @ quote_char # CHR '':'' # v @ c # r) = Some (CHR '':'' # v @ c # r)"
    using json_string_scans [of k "CHR '':'' # v @ c # r"] by simp
  ultimately show ?thesis
    using assms(1,4) by (auto simp: json_string_def unquote_json_escape)
qed

lemma json_members_texts:
  assumes "\<forall>(k, v) \<in> set kvs. utf8_valid k \<and> tight_value v" "2 * length (member_texts kvs) \<le> n"
  shows "json_members n (member_texts kvs @ r) = kvs"
  using assms
proof (induction kvs arbitrary: n rule: member_texts.induct)
  case 1
  then show ?case by (cases n) simp_all
next
  case (2 k v)
  then obtain m where "n = Suc m" by (cases n) auto
  with 2 json_members_step [of k v m "CHR ''}''" r] show ?case by simp
next
  case (3 k v kv kvs)
  then obtain m where "n = Suc m" by (cases n) auto
  with 3 json_members_step [of k v m "CHR '',''" "member_texts (kv # kvs) @ r"] show ?case by simp
qed

lemma members_text_texts:
  assumes "\<forall>(k, v) \<in> set kvs. utf8_valid k \<and> tight_value v" "kvs \<noteq> []"
  shows "members_text (member_texts kvs)"
  using assms
proof (induction kvs rule: member_texts.induct)
  case (2 k v)
  then show ?case using tight_texts(3) [OF string_text_json_escape, of v k] by (simp add: json_string_def tight_value_def)
next
  case (3 k v kv kvs)
  then show ?case using tight_texts(4) [OF string_text_json_escape, of v "member_texts (kv # kvs)" k]
    by (simp add: json_string_def tight_value_def)
qed simp

lemma decode_struct_object:
  assumes "\<forall>(k, v) \<in> set kvs. utf8_valid k \<and> tight_value v"
  shows "decode_struct put (CHR ''{'' # member_texts kvs) zero =
    foldl (\<lambda>r (k, v). Option.bind r (put (fold_name k) v)) (Some zero) kvs"
  using json_members_texts [OF assms, of _ "[]"] by (simp add: decode_struct_def is_null_def del: json_members.simps)

lemma Unmarshal_object:
  assumes "\<forall>(k, v) \<in> set kvs. utf8_valid k \<and> tight_value v" "kvs \<noteq> []"
  shows "Unmarshal put (CHR ''{'' # member_texts kvs) zero =
    foldl (\<lambda>r (k, v). Option.bind r (put (fold_name k) v)) (Some zero) kvs"
proof -
  have "value_text (CHR ''{'' # member_texts kvs)" using members_text_texts [OF assms] by (rule value_object)
  then have "json_valid (CHR ''{'' # member_texts kvs)" using json_valid_iff by (metis append_Nil2 list.pred_inject(1))
  then show ?thesis using decode_struct_object [OF assms(1)] by (simp add: Unmarshal_def)
qed

subsection \<open>Decoded strings are UTF-8\<close>

lemma utf8_valid_append: "utf8_valid xs \<Longrightarrow> utf8_valid (xs @ ys) = utf8_valid ys"
proof (induction xs rule: utf8_valid.induct)
  case (2 c cs)
  let ?k = "utf8_size (c # cs)"
  have k: "0 < ?k" "utf8_valid (drop (?k - 1) cs)" using "2.prems" by simp_all
  have len: "?k - 1 \<le> length cs" using utf8_size_le [of c cs] by linarith
  have "utf8_size (c # cs @ ys) = ?k"
    using utf8_size_take [OF k(1), of "drop (?k - 1) cs @ ys"] by (metis append.assoc append_take_drop_id)
  with 2(1) [OF k(2)] k(1) len show ?case by (simp del: utf8_size.simps)
qed simp

lemma byte_char_of: "n < 256 \<Longrightarrow> byte (char_of n) = n"
  by (simp add: byte_def)

lemma utf8_valid_encode_rune:
  assumes "n < 0x110000" "\<not> surrogate n" shows "utf8_valid (encode_rune n)"
proof -
  have m: "n mod 64 < 64" "n div 64 mod 64 < 64" "n div 4096 mod 64 < 64" by simp_all
  have d: "n = 64 * (n div 64) + n mod 64" "n div 64 = 64 * (n div 4096) + n div 64 mod 64"
    "n div 4096 = 64 * (n div 262144) + n div 4096 mod 64"
    using div_mult2_eq [of n 64 64] div_mult2_eq [of n 4096 64] by simp_all
  consider "n < 128" | "128 \<le> n" "n < 2048" | "2048 \<le> n" "n < 65536" | "65536 \<le> n" by linarith
  then show ?thesis
  proof cases
    case 1
    then show ?thesis by (simp add: encode_rune_def byte_char_of)
  next
    case 2
    then have "2 \<le> n div 64" "n div 64 < 32" by linarith+
    with 2 m show ?thesis by (simp add: encode_rune_def byte_char_of conts_def Let_def)
  next
    case 3
    then have "n div 4096 < 16" by linarith
    moreover have "n div 4096 = 0 \<Longrightarrow> 32 \<le> n div 64 mod 64" "n div 4096 = 13 \<Longrightarrow> n div 64 mod 64 < 32"
      using 3 assms(2) d(1,2) m unfolding surrogate_def by linarith+
    ultimately show ?thesis using 3 m by (simp add: encode_rune_def byte_char_of conts_def Let_def)
  next
    case 4
    then have "n div 262144 < 5" using assms(1) by linarith
    moreover have "n div 262144 = 0 \<Longrightarrow> 16 \<le> n div 4096 mod 64" "n div 262144 = 4 \<Longrightarrow> n div 4096 mod 64 < 16"
      using 4 assms(1) d m by linarith+
    ultimately show ?thesis using 4 m by (simp add: encode_rune_def byte_char_of conts_def Let_def)
  qed
qed

lemma hex_value_less: "is_hex c \<Longrightarrow> hex_value c < 16"
proof -
  have "\<forall>c \<in> set ''0123456789abcdefABCDEF''. hex_value c < 16" by code_simp
  then show "is_hex c \<Longrightarrow> hex_value c < 16" unfolding is_hex_def by blast
qed

lemma byte_unescape: "is_escape c \<Longrightarrow> byte (unescape c) < 128"
proof -
  have "\<forall>c \<in> set (quote_char # backslash # ''/bfnrt''). byte (unescape c) < 128" by code_simp
  then show "is_escape c \<Longrightarrow> byte (unescape c) < 128" unfolding is_escape_def by auto
qed

lemma utf8_valid_take:
  assumes "0 < utf8_size (c # cs)" shows "utf8_valid (take (utf8_size (c # cs)) (c # cs))"
  using utf8_size_take [OF assms, of "[]"] assms by (simp add: take_Cons' del: utf8_size.simps)

lemma hex4_value_less:
  assumes "length h = 4" "list_all is_hex h" shows "hex4_value (h @ r) < 65536"
proof -
  obtain a b c d where h: "h = [a, b, c, d]"
    using assms(1) by (auto simp: length_Suc_conv numeral_eq_Suc)
  have "hex_value a < 16" "hex_value b < 16" "hex_value c < 16" "hex_value d < 16"
    using assms(2) by (auto simp: h hex_value_less)
  then show ?thesis by (simp add: h hex4_value_def)
qed

lemma DecodeRune_range: "DecodeRune u v = Some r \<Longrightarrow> r < 0x110000 \<and> \<not> surrogate r"
  by (auto simp: DecodeRune_def surrogate_def split: if_splits)

lemma string_text_high:
  "string_text (xs @ r) \<Longrightarrow> \<forall>c \<in> set xs. 128 \<le> byte c \<Longrightarrow> string_text r"
proof (induction xs)
  case (Cons c xs)
  have "c \<noteq> quote_char" "c \<noteq> backslash" using Cons.prems(2) by (auto simp: byte_def)
  with Cons show ?case by (auto elim: string_text.cases)
qed simp

lemma string_text_getu4:
  assumes "string_text p" "getu4 p = Some v" shows "string_text (drop 6 p)"
  using assms by (cases rule: string_text.cases) (auto simp: getu4_def split: if_splits)

lemma utf8_valid_unquote:
  assumes "string_text p" shows "utf8_valid (unquote p)"
  using assms
proof (induction p rule: length_induct)
  case (1 p)
  have IH: "utf8_valid (unquote q)" if "length q < length p" "string_text q" for q using 1(1) that by blast
  have rune: "utf8_valid (encode_rune n @ x) = utf8_valid x" if "n < 0x110000" "\<not> surrogate n" for n x
    using utf8_valid_append [OF utf8_valid_encode_rune [OF that]] .
  have fffd: "utf8_valid (encode_rune 0xFFFD @ x) = utf8_valid x" for x by (rule rune) (simp_all add: surrogate_def)
  from 1(2) show ?case
  proof (cases rule: string_text.cases)
    case string_close
    then show ?thesis by simp
  next
    case (string_unicode h q)
    let ?u = "hex4_value (h @ q)"
    have "?u < 65536" using hex4_value_less string_unicode by blast
    moreover have "unquote p = (if surrogate ?u then
        (case getu4 q of Some v \<Rightarrow> (case DecodeRune ?u v of Some r \<Rightarrow> encode_rune r @ unquote (drop 6 q)
           | None \<Rightarrow> encode_rune 0xFFFD @ unquote q) | None \<Rightarrow> encode_rune 0xFFFD @ unquote q)
        else encode_rune ?u @ unquote q)"
      using string_unicode by (simp add: Let_def)
    moreover have "utf8_valid (unquote q)" using IH [of q] string_unicode by simp
    moreover have "utf8_valid (unquote (drop 6 q))" if "getu4 q = Some v" for v
      using IH [of "drop 6 q"] string_unicode string_text_getu4 [OF _ that] by simp
    ultimately show ?thesis using rune [of ?u] fffd rune DecodeRune_range
      by (auto split: option.split)
  next
    case (string_escape c q)
    then have "c \<noteq> CHR ''u''" by auto
    then show ?thesis using string_escape IH [of q] byte_unescape [of c] by simp
  next
    case (string_plain c q)
    have k: "utf8_valid (unquote (drop (utf8_size (c # q) - 1) q))" if high: "128 \<le> byte c" "0 < utf8_size (c # q)"
    proof (rule IH)
      have "string_text (drop (utf8_size (c # q)) (c # q))"
        using string_text_high [of "take (utf8_size (c # q)) (c # q)"] take_utf8_size_high [OF high(1), of q] 1(2) string_plain(1)
        by (metis append_take_drop_id)
      then show "string_text (drop (utf8_size (c # q) - 1) q)" using high(2) by (simp add: drop_Cons' del: utf8_size.simps)
    qed (use string_plain in simp)
    consider "byte c < 128" | "128 \<le> byte c" "utf8_size (c # q) = 0" | "128 \<le> byte c" "0 < utf8_size (c # q)"
      by linarith
    then show ?thesis
    proof cases
      case 1
      with string_plain IH [of q] show ?thesis by simp
    next
      case 2
      with string_plain IH [of q] fffd show ?thesis by (simp del: utf8_size.simps)
    next
      case 3
      with string_plain k [OF 3] utf8_valid_append [OF utf8_valid_take [OF 3(2)]] show ?thesis
        by (simp del: utf8_size.simps)
    qed
  qed
qed

text \<open>The raw values of members and elements are values, so that string fields get UTF-8.\<close>

lemma scan_value_take:
  assumes "scan_value n s = Some r" "s = [] \<or> \<not> is_ws (hd s)"
  shows "tight_value (take (length s - length r) s)"
proof -
  obtain p where p: "s = p @ r" "value_text p" using scan_sound(1) [OF assms(1)] by blast
  then have "p \<noteq> []" using value_text_head(1) [OF p(2)] by auto
  with p assms(2) show ?thesis by (auto simp: tight_value_def)
qed

lemma skip_ws_head: "skip_ws s = [] \<or> \<not> is_ws (hd (skip_ws s))"
  using skip_ws_split by blast

lemma json_members_tight: "(k, v) \<in> set (json_members n s) \<Longrightarrow> tight_value v"
proof (induction n s rule: json_members.induct)
  case (2 n s)
  from "2.prems" obtain s1 r where q: "take 1 (skip_ws s) = [quote_char]" and s1: "scan_string (drop 1 (skip_ws s)) = Some s1"
    and r: "scan_value n (skip_ws (drop 1 (skip_ws s1))) = Some r"
    by (cases "scan_string (drop 1 (skip_ws s))"; cases "scan_value n (skip_ws (drop 1 (skip_ws (the (scan_string (drop 1 (skip_ws s)))))))")
      (auto simp: Let_def split: if_splits)
  with "2.prems" have "v = take (length (skip_ws (drop 1 (skip_ws s1))) - length r) (skip_ws (drop 1 (skip_ws s1)))
      \<or> take 1 (skip_ws r) = '','' \<and> (k, v) \<in> set (json_members n (drop 1 (skip_ws r)))"
    by (auto simp: Let_def split: if_splits)
  with "2.IH" [OF refl _ s1 refl r] q scan_value_take [OF r skip_ws_head] show ?case by auto
qed simp

lemma json_elements_tight: "v \<in> set (json_elements n s) \<Longrightarrow> tight_value v"
proof (induction n s rule: json_elements.induct)
  case (2 n s)
  from "2.prems" obtain r where r: "scan_value n (skip_ws s) = Some r"
    by (cases "scan_value n (skip_ws s)") (auto simp: Let_def)
  with "2.prems" have "v = take (length (skip_ws s) - length r) (skip_ws s)
      \<or> take 1 (skip_ws r) = '','' \<and> v \<in> set (json_elements n (drop 1 (skip_ws r)))"
    by (auto simp: Let_def split: if_splits)
  with "2.IH" [OF refl r] scan_value_take [OF r skip_ws_head] show ?case by auto
qed simp

lemma string_value_text:
  assumes "value_text (quote_char # p)" shows "string_text p"
proof -
  have "scan_value (2 * length (quote_char # p)) ((quote_char # p) @ []) = Some []"
    by (rule scan_complete(1) [OF assms]) (simp_all add: follows_def)
  then have "scan_string p = Some []" by simp
  then show ?thesis using scan_string_sound by fastforce
qed

lemma string_field_utf8:
  assumes "tight_value raw" "string_field raw old = Some x" "utf8_valid old" shows "utf8_valid x"
  using assms string_value_text utf8_valid_unquote
  by (cases raw) (auto simp: string_field_def tight_value_def split: if_splits)

lemma tight_value_valid: "tight_value v \<Longrightarrow> json_valid v"
  using json_valid_iff by (metis append_Nil2 list.pred_inject(1) tight_value_def)

end
