(* ===== verification/Webhook.thy ===== *)
theory Webhook
  imports Domain Json_Decode Hmac_Sha256
begin

text \<open>
  \<^verbatim>\<open>internal/kafka/webhook.go\<close> and \<^verbatim>\<open>signature.go\<close>, the parts without effects: the message type, the
  payload, its signature, the request and the classification of the answer.

  The lemmas show that a receiver can verify every signed request, that the signed text
  determines the timestamp and the payload, that the payload decodes to the event, and how
  status codes are classified.
\<close>

subsection \<open>Messages and payload\<close>

record EventMessage =
  em_ID :: string
  em_Type :: string
  em_Source :: string
  em_Data :: string
  em_MaxAttempts :: int
  em_Attempt :: int
  em_LastError :: string
  em_NextAttemptAt :: "time option"
  em_TraceID :: string

text \<open>\<open>json.Marshal\<close> of a \<open>json.RawMessage\<close>: nil is \<open>null\<close>, anything else is checked and compacted.  The
  empty list stands for nil; a message that is empty without being nil, which would be refused, does
  not arise, as decoding and scanning leave a field nil or fill it with at least one byte.\<close>

definition marshal_raw :: "string \<Rightarrow> error + string" where
  "marshal_raw data =
     (if data = [] then Inr ''null''
      else if json_valid data then Inr (json_compact False data)
      else Inl (ErrText ''json: error calling MarshalJSON for type json.RawMessage''))"

text \<open>\<open>json.Marshal\<close> of a map writes its keys in order.\<close>

definition marshal_payload :: "EventMessage \<Rightarrow> error + string" where
  "marshal_payload event =
     (case marshal_raw (em_Data event) of
        Inl e \<Rightarrow> Inl e
      | Inr data \<Rightarrow>
          Inr (''{'' @ json_string ''data'' @ '':'' @ data
               @ '','' @ json_string ''id'' @ '':'' @ json_string (em_ID event)
               @ '','' @ json_string ''source'' @ '':'' @ json_string (em_Source event)
               @ '','' @ json_string ''type'' @ '':'' @ json_string (em_Type event) @ ''}''))"

subsection \<open>Signature\<close>

definition webhookTimestampHeader :: string where
  "webhookTimestampHeader = ''X-Dispatch-Timestamp''"

definition webhookSignatureHeader :: string where
  "webhookSignatureHeader = ''X-Dispatch-Signature''"

definition webhookSignatureVersion :: string where
  "webhookSignatureVersion = ''v1=''"

definition bytes :: "string \<Rightarrow> int list" where
  "bytes s = map of_char s"

definition signWebhookPayload :: "string \<Rightarrow> string \<Rightarrow> string \<Rightarrow> string" where
  "signWebhookPayload payload secret timestamp =
     webhookSignatureVersion
       @ hex_encode (hmac_sha256 (bytes secret) (bytes timestamp @ bytes ''.'' @ bytes payload))"

subsection \<open>Request\<close>

record Request =
  rq_URL :: string
  rq_Header :: "string \<rightharpoonup> string"
  rq_Body :: string
  rq_ContentLength :: int

definition TraceIDHeader :: string where
  "TraceIDHeader = ''X-Trace-ID''"

text \<open>\<open>now\<close> is the reading of the handler's time source, which is taken only when there is a
  secret to sign with.\<close>

definition has_secret :: "Subscription \<Rightarrow> bool" where
  "has_secret sub = (case sub_Secret sub of None \<Rightarrow> False | Some s \<Rightarrow> s \<noteq> [])"

definition webhook_request :: "string \<Rightarrow> time \<Rightarrow> Subscription \<Rightarrow> EventMessage \<Rightarrow> string \<Rightarrow> Request" where
  "webhook_request traceID now sub event payload =
     (let hdr = [''Content-Type'' \<mapsto> ''application/json'', ''X-Event-ID'' \<mapsto> em_ID event,
                 ''X-Event-Type'' \<mapsto> em_Type event];
          hdr = (if traceID \<noteq> [] then hdr(TraceIDHeader \<mapsto> traceID) else hdr);
          hdr = (case sub_Secret sub of
                   None \<Rightarrow> hdr
                 | Some secret \<Rightarrow>
                     if secret = [] then hdr
                     else
                       (let timestamp = FormatInt (Unix now)
                        in hdr(webhookTimestampHeader \<mapsto> timestamp,
                               webhookSignatureHeader \<mapsto> signWebhookPayload payload secret timestamp)))
      in \<lparr>rq_URL = sub_URL sub, rq_Header = hdr, rq_Body = payload,
          rq_ContentLength = int (length payload)\<rparr>)"

subsection \<open>Answer\<close>

text \<open>\<open>rs_Read\<close> are the bytes the first \<open>Read\<close> of the body would return to a large buffer.\<close>

record Response =
  rs_StatusCode :: int
  rs_Read :: string

definition webhook_answer :: "Response \<Rightarrow> int option \<times> string \<times> error option" where
  "webhook_answer resp =
     (let respBody = take 1024 (rs_Read resp); statusCode = rs_StatusCode resp
      in if statusCode \<ge> 200 \<and> statusCode < 300 then (Some statusCode, respBody, None)
         else (Some statusCode, respBody,
               Some (ErrText (''non-2xx status: '' @ FormatInt statusCode))))"

definition isPermanentFailure :: "int \<Rightarrow> bool" where
  "isPermanentFailure statusCode =
     (statusCode \<in> {400, 401, 403, 404, 405, 406, 410, 411, 413, 414, 415, 422, 426, 431})"

definition isRetryableFailure :: "int \<Rightarrow> bool" where
  "isRetryableFailure statusCode = (statusCode \<in> {408, 429, 500, 502, 503, 504})"

subsection \<open>Lemmas\<close>

lemma no_dot_FormatInt: "CHR ''.'' \<notin> set (FormatInt i)"
proof
  assume "CHR ''.'' \<in> set (FormatInt i)"
  then have "CHR ''.'' \<in> set (nat_digits (nat (- i))) \<or> CHR ''.'' \<in> set (nat_digits (nat i))"
    unfolding FormatInt_def by (cases "i < 0") simp_all
  then show False using set_nat_digits by fastforce
qed

lemma FormatInt_inj: "FormatInt i = FormatInt j \<Longrightarrow> i = j"
proof -
  assume eq: "FormatInt i = FormatInt j"
  have minus: "CHR ''-'' \<notin> set (nat_digits n)" for n using set_nat_digits by fastforce
  have "nat_digits n \<noteq> ''-'' @ nat_digits m" for n m
    using minus by (metis append_Cons list.set_intros(1))
  then have "(i < 0) = (j < 0)" using eq unfolding FormatInt_def by (cases "i < 0"; cases "j < 0") (simp_all, metis)
  then show "i = j"
    using eq nat_digits_inj unfolding FormatInt_def by (cases "i < 0"; cases "j < 0") (simp_all, fastforce+)
qed

lemma length_be_bytes [simp]: "length (be_bytes k n) = k"
  by (induction k arbitrary: n) auto

lemma length_sha256 [simp]: "length (sha256 m) = 32"
  by (simp add: sha256_def Let_def split: prod.split)

lemma length_hmac [simp]: "length (hmac_sha256 k m) = 32"
  by (simp add: hmac_sha256_def Let_def)

lemma length_hex_encode [simp]: "length (hex_encode bs) = 2 * length bs"
  by (induction bs) (simp_all add: hex_encode_def)

lemma bytes_append: "bytes (x @ y) = bytes x @ bytes y"
  by (simp add: bytes_def)

lemma bytes_inj: "bytes x = bytes y \<longleftrightarrow> x = y"
  by (auto simp: bytes_def inj_map_eq_map inj_def)

subsection \<open>Properties\<close>

text \<open>C26 A receiver can verify a signed request: the timestamp header is the decimal Unix time, and
  recomputing the HMAC over that header, a dot and the body as received, with the shared
  secret, gives exactly the signature header.\<close>

theorem request_signature_verifies:
  assumes "sub_Secret sub = Some secret" "secret \<noteq> []"
  shows "let rq = webhook_request traceID now sub event payload
     in \<exists>ts. rq_Header rq webhookTimestampHeader = Some ts \<and> ts = FormatInt (Unix now)
       \<and> rq_Header rq webhookSignatureHeader = Some (''v1='' @
            hex_encode (hmac_sha256 (bytes secret) (bytes (ts @ ''.'' @ rq_Body rq))))"
  using assms
  by (simp add: webhook_request_def signWebhookPayload_def webhookSignatureVersion_def
      webhookTimestampHeader_def webhookSignatureHeader_def bytes_def Let_def)

theorem request_signature_verifies_witness:
  "rq_Header (webhook_request [] 0 \<lparr>sub_ID = ''s'', sub_URL = ''u'', sub_EventTypes = [], sub_Secret = Some ''k'',
       sub_MaxDeliveryRate = 1, sub_CreatedAt = 0, sub_Active = True\<rparr>
       \<lparr>em_ID = ''e'', em_Type = ''t'', em_Source = ''b'', em_Data = [], em_MaxAttempts = 5, em_Attempt = 0,
        em_LastError = [], em_NextAttemptAt = None, em_TraceID = []\<rparr> ''{}'') webhookTimestampHeader
     = Some (FormatInt (Unix 0))"
  using request_signature_verifies
    [of "\<lparr>sub_ID = ''s'', sub_URL = ''u'', sub_EventTypes = [], sub_Secret = Some ''k'',
       sub_MaxDeliveryRate = 1, sub_CreatedAt = 0, sub_Active = True\<rparr>" "''k''" "[]" 0] by (simp add: Let_def)

text \<open>The signed text is unambiguous: two requests that sign the same bytes have the same
  timestamp and the same payload.\<close>

lemma signed_text_unambiguous:
  "bytes (FormatInt t) @ bytes ''.'' @ bytes p = bytes (FormatInt t') @ bytes ''.'' @ bytes p'
     \<longleftrightarrow> t = t' \<and> p = p'"
proof -
  have "bytes (FormatInt t) @ bytes ''.'' @ bytes p = bytes (FormatInt t') @ bytes ''.'' @ bytes p'
      \<longleftrightarrow> FormatInt t @ CHR ''.'' # p = FormatInt t' @ CHR ''.'' # p'"
    unfolding bytes_append [symmetric] bytes_inj by simp
  also have "\<dots> \<longleftrightarrow> t = t' \<and> p = p'"
    using append_colon_inj [OF _ no_dot_FormatInt no_dot_FormatInt] FormatInt_inj by metis
  finally show ?thesis .
qed

lemma marshal_raw_tight: "marshal_raw data = Inr v \<Longrightarrow> tight_value v"
  using compact_valid value_literal [of "''null''"]
  by (auto simp: marshal_raw_def tight_value_def is_ws_def split: if_splits)

lemma json_string_tight: "tight_value (json_string s)"
  using value_text_json_string by (simp add: tight_value_def json_string_def)

lemma json_string_decodes: "utf8_valid s \<Longrightarrow> string_field (json_string s) old = Some s"
  by (simp add: string_field_def is_null_def json_string_def unquote_json_escape)

text \<open>C27 The payload is one valid JSON object with exactly the members data, id, source and type,
  whatever the event contains; its data is the event's data, compacted, and a receiver that
  decodes the other three gets the event's identifier, source and type.\<close>

theorem payload_members:
  assumes "marshal_payload event = Inr p"
    and "utf8_valid (em_ID event)" "utf8_valid (em_Source event)" "utf8_valid (em_Type event)"
  shows "\<exists>data i s t q. json_valid p \<and> p = CHR ''{'' # q
     \<and> json_members (2 * length p) q = [(''data'', data), (''id'', i), (''source'', s), (''type'', t)]
     \<and> marshal_raw (em_Data event) = Inr data
     \<and> string_field i [] = Some (em_ID event)
     \<and> string_field s [] = Some (em_Source event) \<and> string_field t [] = Some (em_Type event)"
proof -
  from assms(1) obtain data where data: "marshal_raw (em_Data event) = Inr data"
    by (cases "marshal_raw (em_Data event)") (simp_all add: marshal_payload_def)
  let ?kvs = "[(''data'', data), (''id'', json_string (em_ID event)),
    (''source'', json_string (em_Source event)), (''type'', json_string (em_Type event))]"
  have p: "p = CHR ''{'' # member_texts ?kvs" using assms(1) data by (simp add: marshal_payload_def)
  have "utf8_valid ''data''" "utf8_valid ''id''" "utf8_valid ''source''" "utf8_valid ''type''" by code_simp+
  then have kvs: "\<forall>(k, v) \<in> set ?kvs. utf8_valid k \<and> tight_value v"
    using marshal_raw_tight [OF data] json_string_tight by simp
  have "json_valid p"
    using value_object [OF members_text_texts [OF kvs]] json_valid_iff unfolding p
    by (metis append_Nil2 list.distinct(1) list.pred_inject(1))
  moreover have "json_members (2 * length p) (member_texts ?kvs) = ?kvs"
    using json_members_texts [OF kvs, of "2 * length p" "[]"] unfolding p by simp
  ultimately show ?thesis using p data assms(2-4) json_string_decodes by blast
qed

theorem payload_members_witness:
  "\<exists>p data i s t q. marshal_payload \<lparr>em_ID = ''e'', em_Type = ''t'', em_Source = ''b'', em_Data = ''[1]'', em_MaxAttempts = 5,
        em_Attempt = 0, em_LastError = [], em_NextAttemptAt = None, em_TraceID = []\<rparr> = Inr p \<and> p = CHR ''{'' # q
     \<and> json_members (2 * length p) q = [(''data'', data), (''id'', i), (''source'', s), (''type'', t)]
     \<and> data = ''[1]'' \<and> string_field i [] = Some ''e''"
proof -
  let ?e = "\<lparr>em_ID = ''e'', em_Type = ''t'', em_Source = ''b'', em_Data = ''[1]'', em_MaxAttempts = 5,
        em_Attempt = 0, em_LastError = [], em_NextAttemptAt = None, em_TraceID = []\<rparr>"
  have raw: "marshal_raw ''[1]'' = Inr ''[1]''" by code_simp
  have utf8: "utf8_valid ''e''" "utf8_valid ''b''" "utf8_valid ''t''" by code_simp+
  obtain p where p: "marshal_payload ?e = Inr p" using raw by (simp add: marshal_payload_def)
  from payload_members [OF p] utf8 raw p show ?thesis by auto
qed

text \<open>Status codes fall into three disjoint classes: success, failures that are final, and
  failures that are retried; every other code is neither retried nor a success.\<close>

lemma status_classes_disjoint:
  "\<not> (isPermanentFailure c \<and> isRetryableFailure c)
   \<and> (isPermanentFailure c \<or> isRetryableFailure c \<longrightarrow>
        snd (snd (webhook_answer \<lparr>rs_StatusCode = c, rs_Read = b\<rparr>)) \<noteq> None)"
  by (auto simp: isPermanentFailure_def isRetryableFailure_def webhook_answer_def Let_def)

end
