(* ===== verification/Redis_Rate_Limiter.thy ===== *)
theory Redis_Rate_Limiter
  imports Domain "HOL-Library.Finite_Map"
begin

text \<open>
  \<^verbatim>\<open>internal/resilience/redis_ratelimiter.go\<close>: the distributed rate limiter, a Lua script over a
  Redis sorted set.

  The sorted-set commands are an interface: the locale \<open>sorted_set\<close> states their documented
  behaviour, and the sliding-window bound is proved from it.  A finite map from members to
  scores provides the interface.  A key holds its set and the time it expires; times are
  milliseconds, and Redis's own clock is the argument \<open>server\<close>.
\<close>

record RateLimitDecision =
  Allowed :: bool
  RetryAfter :: Duration

record 'z zset_ops =
  z_empty :: 'z
  ZREMRANGEBYSCORE :: "int \<Rightarrow> int \<Rightarrow> 'z \<Rightarrow> 'z"
  ZCARD :: "'z \<Rightarrow> nat"
  ZADD :: "int \<Rightarrow> string \<Rightarrow> 'z \<Rightarrow> 'z"

type_synonym 'z redis = "string \<rightharpoonup> 'z \<times> int"

text \<open>An expired key is absent; \<open>PEXPIRE\<close> with a period that is not positive deletes the key.\<close>

definition zset_at :: "'z zset_ops \<Rightarrow> int \<Rightarrow> 'z redis \<Rightarrow> string \<Rightarrow> 'z" where
  "zset_at ops server db key =
     (case db key of None \<Rightarrow> z_empty ops
      | Some (z, expires) \<Rightarrow> if expires \<le> server then z_empty ops else z)"

definition pexpire :: "int \<Rightarrow> int \<Rightarrow> string \<Rightarrow> 'z \<Rightarrow> 'z redis \<Rightarrow> 'z redis" where
  "pexpire server window key z db =
     (if window \<le> 0 then db(key := None) else db(key \<mapsto> (z, server + window)))"

definition redisSlidingWindowScript ::
  "'z zset_ops \<Rightarrow> int \<Rightarrow> string \<Rightarrow> int \<Rightarrow> int \<Rightarrow> int \<Rightarrow> string \<Rightarrow> 'z redis \<Rightarrow> int \<times> 'z redis" where
  "redisSlidingWindowScript ops server key now window limit member db =
     (let z = ZREMRANGEBYSCORE ops 0 (now - window) (zset_at ops server db key);
          count = int (ZCARD ops z)
      in if count < limit
         then (1, pexpire server window key (ZADD ops now member z) db)
         else (0, pexpire server window key z db))"

record RedisRateLimiter =
  rl_window :: Duration
  rl_counter :: nat

definition NewRedisRateLimiter :: "Duration \<Rightarrow> RedisRateLimiter" where
  "NewRedisRateLimiter window =
     \<lparr>rl_window = (if window \<le> 0 then Second else window), rl_counter = 0\<rparr>"

definition redis_member :: "int \<Rightarrow> nat \<Rightarrow> string" where
  "redis_member now counter = FormatInt now @ '':'' @ FormatInt (int counter)"

text \<open>\<open>err\<close> is the error of the script's run, \<open>t\<close> the value of \<open>time.Now()\<close>.  The counter is a
  \<open>uint64\<close>.\<close>

definition redis_Allow ::
  "'z zset_ops \<Rightarrow> error option \<Rightarrow> int \<Rightarrow> time \<Rightarrow> string \<Rightarrow> RatePolicy \<Rightarrow> RedisRateLimiter \<Rightarrow> 'z redis
     \<Rightarrow> (RateLimitDecision \<times> error option) \<times> RedisRateLimiter \<times> 'z redis" where
  "redis_Allow ops err server t subscriptionID policy r db =
     (let limit = rp_RequestsPerSecond policy;
          limit = (if limit \<le> 0 then DefaultSubscriptionMaxDeliveryRate else limit);
          now = UnixMilli t;
          windowMs = Milliseconds (rl_window r);
          counter = (rl_counter r + 1) mod 2 ^ 64;
          r = r\<lparr>rl_counter := counter\<rparr>;
          member = redis_member now counter;
          key = ''ratelimit:'' @ subscriptionID
      in case err of
           Some e \<Rightarrow> ((\<lparr>Allowed = False, RetryAfter = rl_window r\<rparr>, Some e), r, db)
         | None \<Rightarrow>
             (let (result, db) = redisSlidingWindowScript ops server key now windowMs limit member db
              in if result = 1 then ((\<lparr>Allowed = True, RetryAfter = 0\<rparr>, None), r, db)
                 else ((\<lparr>Allowed = False, RetryAfter = rl_window r\<rparr>, None), r, db)))"

text \<open>Several runs of the script on one key, each with the caller's time, the time of Redis's own
  clock and the member: the times of the admitted ones, and the state after them.\<close>

fun window_run ::
  "'z zset_ops \<Rightarrow> string \<Rightarrow> int \<Rightarrow> int \<Rightarrow> (int \<times> int \<times> string) list \<Rightarrow> 'z redis \<Rightarrow> int list \<times> 'z redis" where
  "window_run ops key window limit [] db = ([], db)"
| "window_run ops key window limit ((now, server, member) # calls) db =
     (let (result, db) = redisSlidingWindowScript ops server key now window limit member db;
          (adm, db) = window_run ops key window limit calls db
      in (if result = 1 then now # adm else adm, db))"

text \<open>Calls of several workers for one subscription, in the order Redis runs their scripts: each
  names the worker, the time of the worker's clock and that of Redis.  Every worker has a
  limiter of its own, and they share the database.  The result are the times, in milliseconds,
  of the admitted calls.\<close>

fun workers_run ::
  "'z zset_ops \<Rightarrow> string \<Rightarrow> RatePolicy \<Rightarrow> (nat \<Rightarrow> RedisRateLimiter) \<Rightarrow> 'z redis \<Rightarrow> (nat \<times> time \<times> int) list
     \<Rightarrow> int list" where
  "workers_run ops sub policy rs db [] = []"
| "workers_run ops sub policy rs db ((i, t, server) # calls) =
     (let ((d, err), r, db) = redis_Allow ops None server t sub policy (rs i) db;
          adm = workers_run ops sub policy (rs(i := r)) db calls
      in if Allowed d then UnixMilli t # adm else adm)"

text \<open>The members these calls write, from the workers' counters.\<close>

fun call_members :: "(nat \<Rightarrow> nat) \<Rightarrow> (nat \<times> time \<times> int) list \<Rightarrow> string list" where
  "call_members cs [] = []"
| "call_members cs ((i, t, server) # calls) =
     (let c = (cs i + 1) mod 2 ^ 64
      in redis_member (UnixMilli t) c # call_members (cs(i := c)) calls)"

definition in_window :: "int \<Rightarrow> int \<Rightarrow> int list \<Rightarrow> nat" where
  "in_window window t adm = length (filter (\<lambda>m. t - window < m \<and> m \<le> t) adm)"

subsection \<open>Sorted sets\<close>

locale sorted_set =
  fixes ops :: "'z zset_ops" and scores :: "'z \<Rightarrow> (string \<rightharpoonup> int)"
  assumes scores_empty: "scores (z_empty ops) = Map.empty"
    and scores_remove: "scores (ZREMRANGEBYSCORE ops lo hi z) m =
          (case scores z m of None \<Rightarrow> None | Some s \<Rightarrow> if lo \<le> s \<and> s \<le> hi then None else Some s)"
    and scores_add: "scores (ZADD ops s m z) = (scores z)(m \<mapsto> s)"
    and card_scores: "ZCARD ops z = card (dom (scores z))"
    and finite_scores: "finite (dom (scores z))"
begin

definition above :: "int \<Rightarrow> 'z \<Rightarrow> nat" where
  "above b z = card {m. \<exists>s. scores z m = Some s \<and> b < s}"

text \<open>How the set mirrors the admissions so far: every score is the time of an admission up to
  \<open>n\<close>, and above each bound from \<open>n - window\<close> on there are as many members as admissions.\<close>

definition mirrors :: "int \<Rightarrow> int \<Rightarrow> string set \<Rightarrow> int list \<Rightarrow> 'z \<Rightarrow> bool" where
  "mirrors window n used adm z \<longleftrightarrow>
     (\<forall>m s. scores z m = Some s \<longrightarrow> 0 \<le> s \<and> s \<le> n \<and> m \<in> used) \<and> (\<forall>t \<in> set adm. t \<le> n)
     \<and> (\<forall>b \<ge> n - window. above b z = length (filter (\<lambda>t. b < t) adm))"

lemma above_empty [simp]: "above b (z_empty ops) = 0"
  by (simp add: above_def scores_empty)

lemma above_remove:
  assumes "\<And>m s. scores z m = Some s \<Longrightarrow> 0 \<le> s" "hi \<le> b"
  shows "above b (ZREMRANGEBYSCORE ops 0 hi z) = above b z"
proof -
  have "{m. \<exists>s. scores (ZREMRANGEBYSCORE ops 0 hi z) m = Some s \<and> b < s} = {m. \<exists>s. scores z m = Some s \<and> b < s}"
    using assms by (auto simp: scores_remove split: option.splits)
  then show ?thesis by (simp add: above_def)
qed

lemma ZCARD_remove:
  assumes "\<And>m s. scores z m = Some s \<Longrightarrow> 0 \<le> s"
  shows "ZCARD ops (ZREMRANGEBYSCORE ops 0 hi z) = above hi z"
proof -
  have "dom (scores (ZREMRANGEBYSCORE ops 0 hi z)) = {m. \<exists>s. scores z m = Some s \<and> hi < s}"
    using assms by (auto simp: dom_def scores_remove split: option.splits if_splits) (metis linorder_not_le)
  then show ?thesis by (simp add: card_scores above_def)
qed

lemma above_add:
  assumes "scores z m = None"
  shows "above b (ZADD ops s m z) = above b z + (if b < s then 1 else 0)"
proof -
  have "{k. \<exists>x. scores (ZADD ops s m z) k = Some x \<and> b < x} =
      (if b < s then insert m {k. \<exists>x. scores z k = Some x \<and> b < x} else {k. \<exists>x. scores z k = Some x \<and> b < x})"
    using assms by (auto simp: scores_add)
  moreover have "finite {k. \<exists>x. scores z k = Some x \<and> b < x}"
    by (rule finite_subset [OF _ finite_scores [of z]]) auto
  moreover have "m \<notin> {k. \<exists>x. scores z k = Some x \<and> b < x}" using assms by auto
  ultimately show ?thesis by (simp add: above_def)
qed

text \<open>A key that has expired held only scores that are out of the window, when Redis's clock has not
  advanced more than the callers' since the last run, at \<open>n\<close> on theirs and \<open>srv\<close> on Redis's.\<close>

definition state_ok :: "int \<Rightarrow> string \<Rightarrow> int \<Rightarrow> int \<Rightarrow> string set \<Rightarrow> int list \<Rightarrow> 'z redis \<Rightarrow> bool" where
  "state_ok window key n srv used adm db \<longleftrightarrow>
     (case db key of None \<Rightarrow> adm = [] | Some (z, expires) \<Rightarrow> mirrors window n used adm z \<and> expires = srv + window)"

lemma zset_at_mirrors:
  assumes "state_ok window key n srv used adm db" "n \<le> now" "server - srv \<le> now - n" "0 < window"
    "\<forall>t \<in> set adm. t \<le> n"
  shows "mirrors window now used adm (zset_at ops server db key)"
proof (cases "db key")
  case None
  then show ?thesis using assms by (simp add: state_ok_def mirrors_def zset_at_def scores_empty)
next
  case (Some p)
  obtain z ex where p: "p = (z, ex)" by fastforce
  have z: "mirrors window n used adm z" and ex: "ex = srv + window"
    using assms(1) Some p by (auto simp: state_ok_def)
  show ?thesis
  proof (cases "ex \<le> server")
    case True
    have "filter (\<lambda>t. b < t) adm = []" if "b \<ge> now - window" for b
      using that True ex assms(3,5) by (auto simp: filter_empty_conv)
    then show ?thesis
      using True Some p assms(2,5) by (auto simp: mirrors_def zset_at_def scores_empty)
  next
    case False
    have "\<forall>b \<ge> now - window. above b z = length (filter (\<lambda>t. b < t) adm)"
      using z assms(2) by (auto simp: mirrors_def)
    moreover have "\<forall>m s. scores z m = Some s \<longrightarrow> 0 \<le> s \<and> s \<le> now \<and> m \<in> used"
      using z assms(2) unfolding mirrors_def by fastforce
    moreover have "\<forall>t \<in> set adm. t \<le> now" using assms(2,5) by fastforce
    ultimately show ?thesis using False Some p by (simp add: mirrors_def zset_at_def)
  qed
qed

lemma script_step:
  assumes st: "state_ok window key n srv used adm db" and n: "0 \<le> now" "n \<le> now"
    and srv: "server - srv \<le> now - n" and w: "0 < window"
    and adm: "\<forall>t \<in> set adm. t \<le> n" and fresh: "member \<notin> used"
    and run: "redisSlidingWindowScript ops server key now window limit member db = (r, db')"
  shows "state_ok window key now server (insert member used) (if r = 1 then adm @ [now] else adm) db'
       \<and> (r = 1 \<longleftrightarrow> int (in_window window now adm) < limit)"
proof -
  let ?z = "zset_at ops server db key"
  let ?z1 = "ZREMRANGEBYSCORE ops 0 (now - window) ?z"
  have m: "mirrors window now used adm ?z" by (rule zset_at_mirrors [OF st n(2) srv w adm])
  have pos: "\<And>m s. scores ?z m = Some s \<Longrightarrow> 0 \<le> s" using m by (auto simp: mirrors_def)
  have "filter (\<lambda>t. now - window < t) adm = filter (\<lambda>t. now - window < t \<and> t \<le> now) adm"
    by (rule filter_cong) (use adm n in auto)
  then have card: "ZCARD ops ?z1 = in_window window now adm"
    using m by (simp add: ZCARD_remove [OF pos] mirrors_def in_window_def)
  have sub: "scores ?z1 k = Some s \<Longrightarrow> scores ?z k = Some s" for k s
    by (auto simp: scores_remove split: option.splits if_splits)
  have "above b ?z1 = above b ?z" if "now - window \<le> b" for b by (rule above_remove [OF pos that])
  moreover have "\<forall>k s. scores ?z1 k = Some s \<longrightarrow> 0 \<le> s \<and> s \<le> now \<and> k \<in> used"
    using m sub unfolding mirrors_def by blast
  ultimately have m1: "mirrors window now used adm ?z1"
    using m unfolding mirrors_def by simp
  have "scores ?z1 member = None" using m1 fresh by (cases "scores ?z1 member") (auto simp: mirrors_def)
  then have m2: "mirrors window now (insert member used) (adm @ [now]) (ZADD ops now member ?z1)"
    using m1 n by (auto simp: mirrors_def above_add scores_add)
  have m3: "mirrors window now (insert member used) adm ?z1" using m1 by (auto simp: mirrors_def)
  show ?thesis
    using run w card m2 m3
    by (auto simp: redisSlidingWindowScript_def Let_def pexpire_def state_ok_def split: if_splits)
qed

lemma in_window_snoc_le:
  assumes "\<forall>t. int (in_window window t adm) \<le> limit" "\<forall>m \<in> set adm. m \<le> now"
    and "int (in_window window now adm) < limit"
  shows "int (in_window window t (adm @ [now])) \<le> limit"
proof (cases "t - window < now \<and> now \<le> t")
  case True
  have "length (filter (\<lambda>m. t - window < m \<and> m \<le> t) adm) \<le> length (filter (\<lambda>m. now - window < m \<and> m \<le> now) adm)"
    using assms(2) True
    by (induction adm) auto
  then show ?thesis using assms(3) True by (simp add: in_window_def)
next
  case False
  then show ?thesis using assms(1) by (auto simp: in_window_def)
qed

text \<open>The bound along a run, from a state that mirrors earlier admissions \<open>adm\<close>.\<close>

lemma window_run_bound:
  assumes "state_ok window key n srv used adm db" "0 < window" "0 < limit"
    and "sorted (n # map fst calls)" "0 \<le> n" "distinct (map (snd \<circ> snd) calls)"
    and "set (map (snd \<circ> snd) calls) \<inter> used = {}"
    and "\<forall>m \<in> set adm. m \<le> n" "\<forall>t. int (in_window window t adm) \<le> limit"
    and "sorted ((n - srv) # map (\<lambda>(now, server, m). now - server) calls)"
    and "window_run ops key window limit calls db = (ext, db')"
  shows "int (in_window window t (adm @ ext)) \<le> limit"
  using assms
proof (induction calls arbitrary: n srv used adm db ext)
  case (Cons c calls)
  obtain now server member where c: "c = (now, server, member)" by (cases c)
  obtain r db1 where s: "redisSlidingWindowScript ops server key now window limit member db = (r, db1)" by fastforce
  obtain m2 db2 where rest: "window_run ops key window limit calls db1 = (m2, db2)" by fastforce
  let ?adm = "if r = 1 then adm @ [now] else adm"
  have n: "0 \<le> now" "n \<le> now" using Cons.prems(4,5) c by auto
  have srv: "server - srv \<le> now - n" using Cons.prems(10) c by auto
  have fresh: "member \<notin> used" using Cons.prems(7) c by auto
  note step = script_step [OF Cons.prems(1) n srv Cons.prems(2) Cons.prems(8) fresh s]
  have adm: "\<forall>m \<in> set adm. m \<le> now" using Cons.prems(8) n by auto
  have bound: "\<forall>t. int (in_window window t ?adm) \<le> limit"
    using in_window_snoc_le [OF Cons.prems(9) adm] step Cons.prems(9) by auto
  have ext: "adm @ ext = ?adm @ m2" using Cons.prems(11) c s rest by auto
  show ?case
    unfolding ext
    by (rule Cons.IH [OF conjunct1 [OF step]])
       (use Cons.prems c n adm bound s rest in \<open>auto split: if_splits\<close>)
qed simp

lemma window_bound:
  assumes "0 < window" "0 < limit" "sorted (0 # map fst calls)" "distinct (map (snd \<circ> snd) calls)"
    and "sorted (map (\<lambda>(now, server, m). now - server) calls)"
    and "db key = None" "window_run ops key window limit calls db = (adm, db')"
  shows "int (in_window window t adm) \<le> limit"
proof (cases calls)
  case (Cons c cs)
  obtain now server m where c: "c = (now, server, m)" by (cases c)
  have "sorted ((0 - (server - now)) # map (\<lambda>(now, server, m). now - server) calls)"
    using assms(5) Cons c by auto
  from window_run_bound [OF _ assms(1,2,3) _ assms(4) _ _ _ this assms(7), of "{}" "[]"] show ?thesis
    using assms(2,6) by (simp add: state_ok_def in_window_def)
qed (use assms in \<open>simp add: in_window_def\<close>)

text \<open>The runs of one member in one millisecond leave the set with that member at most: all of them
  are admitted under any limit of two or more, whatever Redis's clock says.\<close>

definition lone :: "int \<Rightarrow> string \<Rightarrow> string \<Rightarrow> 'z redis \<Rightarrow> bool" where
  "lone now m key db \<longleftrightarrow> (case db key of None \<Rightarrow> True | Some (z, ex) \<Rightarrow> scores z \<subseteq>\<^sub>m [m \<mapsto> now])"

lemma script_lone:
  assumes l: "lone now m key db" and lim: "2 \<le> limit"
    and run: "redisSlidingWindowScript ops server key now window limit m db = (r, db')"
  shows "r = 1 \<and> lone now m key db'"
proof -
  let ?z = "ZREMRANGEBYSCORE ops 0 (now - window) (zset_at ops server db key)"
  have "scores (zset_at ops server db key) \<subseteq>\<^sub>m [m \<mapsto> now]"
    using l by (auto simp: lone_def zset_at_def scores_empty split: option.splits)
  moreover have "scores ?z \<subseteq>\<^sub>m scores (zset_at ops server db key)"
    by (simp add: map_le_def dom_def scores_remove split: option.splits)
  ultimately have sub: "scores ?z \<subseteq>\<^sub>m [m \<mapsto> now]" by (rule map_le_trans [rotated])
  then have "dom (scores ?z) \<subseteq> {m}" by (metis dom_eq_singleton_conv map_le_implies_dom_le)
  then have "card (dom (scores ?z)) \<le> 1" using card_mono [of "{m}"] by fastforce
  then have "int (ZCARD ops ?z) < limit" using lim by (simp add: card_scores)
  moreover have "scores (ZADD ops now m ?z) \<subseteq>\<^sub>m [m \<mapsto> now]"
    using sub by (auto simp: scores_add map_le_def split: if_splits)
  ultimately show ?thesis using run by (auto simp: redisSlidingWindowScript_def Let_def pexpire_def lone_def)
qed

lemma window_run_lone:
  assumes "lone now m key db" "2 \<le> limit"
  shows "fst (window_run ops key window limit (map (\<lambda>server. (now, server, m)) servers) db)
      = replicate (length servers) now"
  using assms
proof (induction servers arbitrary: db)
  case (Cons server servers)
  obtain r db1 where s: "redisSlidingWindowScript ops server key now window limit m db = (r, db1)" by fastforce
  from script_lone [OF Cons.prems s] Cons.IH [of db1] Cons.prems(2) s show ?case by (auto split: prod.splits)
qed simp

end

subsection \<open>Sorted sets as finite maps\<close>

definition map_zset :: "(string, int) fmap zset_ops" where
  "map_zset = \<lparr>z_empty = fmempty,
     ZREMRANGEBYSCORE = (\<lambda>lo hi z. fmfilter (\<lambda>m. case fmlookup z m of None \<Rightarrow> False
                                        | Some s \<Rightarrow> \<not> (lo \<le> s \<and> s \<le> hi)) z),
     ZCARD = (\<lambda>z. fcard (fmdom z)),
     ZADD = (\<lambda>s m z. fmupd m s z)\<rparr>"

interpretation zset: sorted_set map_zset fmlookup
proof
  fix z :: "(string, int) fmap" and lo hi s :: int and m :: string
  have dom: "dom (fmlookup z) = fset (fmdom z)" by (simp add: fmdom'_alt_def)
  show "ZCARD map_zset z = card (dom (fmlookup z))" by (simp add: map_zset_def fcard.rep_eq fmdom'_alt_def)
  show "finite (dom (fmlookup z))" by (simp add: dom)
  show "fmlookup (ZREMRANGEBYSCORE map_zset lo hi z) m =
      (case fmlookup z m of None \<Rightarrow> None | Some s \<Rightarrow> if lo \<le> s \<and> s \<le> hi then None else Some s)"
    by (simp add: map_zset_def split: option.split)
  show "fmlookup (ZADD map_zset s m z) = (fmlookup z)(m \<mapsto> s)"
    by (simp add: map_zset_def fun_eq_iff)
qed (simp add: map_zset_def fun_eq_iff)

subsection \<open>The calls of several workers\<close>

lemma redis_member_inj: "redis_member t c = redis_member t' c' \<Longrightarrow> c = c'"
proof -
  assume eq: "redis_member t c = redis_member t' c'"
  have no_colon: "CHR '':'' \<notin> set (FormatInt i)" for i
  proof
    assume "CHR '':'' \<in> set (FormatInt i)"
    then have "CHR '':'' \<in> set (nat_digits (nat (- i))) \<or> CHR '':'' \<in> set (nat_digits (nat i))"
      unfolding FormatInt_def by (cases "i < 0") simp_all
    then show False using set_nat_digits by fastforce
  qed
  have "FormatInt (int c) = FormatInt (int c')"
    using append_colon_inj [OF _ no_colon no_colon, of t "FormatInt (int c)" t' "FormatInt (int c')"] eq
    unfolding redis_member_def by simp
  then have "nat_digits c = nat_digits c'" by (simp add: FormatInt_def)
  then show "c = c'" by (rule nat_digits_inj)
qed

text \<open>The script runs behind the calls of the workers.\<close>

definition script_calls :: "(nat \<Rightarrow> nat) \<Rightarrow> (nat \<times> time \<times> int) list \<Rightarrow> (int \<times> int \<times> string) list" where
  "script_calls cs calls =
     map (\<lambda>((i, t, server), m). (UnixMilli t, server, m)) (zip calls (call_members cs calls))"

lemma length_call_members [simp]: "length (call_members cs calls) = length calls"
  by (induction calls arbitrary: cs) (auto simp: Let_def)

lemma script_calls_columns:
  "map fst (script_calls cs calls) = map (\<lambda>(i, t, server). UnixMilli t) calls"
  "map (snd \<circ> snd) (script_calls cs calls) = call_members cs calls"
  "map (\<lambda>(now, server, m). now - server) (script_calls cs calls) = map (\<lambda>(i, t, server). UnixMilli t - server) calls"
  unfolding script_calls_def by (induction calls arbitrary: cs) (auto simp: Let_def)

text \<open>One worker alone writes each member once, until its counter wraps around.\<close>

lemma call_members_later:
  "m \<in> set (call_members cs calls) \<Longrightarrow> \<forall>c \<in> set calls. fst c = w \<Longrightarrow> cs w + length calls < 2 ^ 64
     \<Longrightarrow> \<exists>t k. m = redis_member t k \<and> cs w < k"
proof (induction calls arbitrary: cs)
  case (Cons c calls)
  define cs' where "cs' = cs(w := Suc (cs w))"
  have cs': "cs' w = Suc (cs w)" by (simp add: cs'_def)
  obtain t server where c: "c = (w, t, server)" using Cons.prems(2) by (cases c) auto
  have k: "(cs w + 1) mod 2 ^ 64 = Suc (cs w)" using Cons.prems(3) by simp
  consider "m = redis_member (UnixMilli t) (Suc (cs w))" | "m \<in> set (call_members cs' calls)"
    using Cons.prems(1) unfolding c call_members.simps k Let_def cs'_def by auto
  then show ?case
    by cases (use Cons.IH [of cs'] Cons.prems(2,3) cs' in \<open>auto intro: Suc_lessD\<close>)
qed simp

lemma distinct_call_members:
  assumes "\<forall>c \<in> set calls. fst c = w" "cs w + length calls < 2 ^ 64"
  shows "distinct (call_members cs calls)"
  using assms
proof (induction calls arbitrary: cs)
  case (Cons c calls)
  define cs' where "cs' = cs(w := Suc (cs w))"
  have cs': "cs' w = Suc (cs w)" by (simp add: cs'_def)
  obtain t server where c: "c = (w, t, server)" using Cons.prems(1) by (cases c) auto
  have k: "(cs w + 1) mod 2 ^ 64 = Suc (cs w)" using Cons.prems(2) by simp
  have rest: "\<forall>c \<in> set calls. fst c = w" "cs' w + length calls < 2 ^ 64" using Cons.prems cs' by simp_all
  have "redis_member (UnixMilli t) (Suc (cs w)) \<notin> set (call_members cs' calls)"
    using call_members_later [of _ cs' calls w] rest redis_member_inj cs' by (metis less_irrefl)
  moreover have "distinct (call_members cs' calls)" by (rule Cons.IH) (fact rest)+
  ultimately show ?case unfolding c call_members.simps k Let_def cs'_def [symmetric] by simp
qed simp

definition rate_limit :: "RatePolicy \<Rightarrow> int" where
  "rate_limit policy = (if rp_RequestsPerSecond policy \<le> 0 then DefaultSubscriptionMaxDeliveryRate
     else rp_RequestsPerSecond policy)"

lemma rate_limit_pos: "0 < rate_limit policy"
  by (simp add: rate_limit_def DefaultSubscriptionMaxDeliveryRate_def)

lemma redis_Allow_script:
  assumes "redisSlidingWindowScript ops server (''ratelimit:'' @ sub) (UnixMilli t) (Milliseconds (rl_window r))
      (rate_limit policy) (redis_member (UnixMilli t) ((rl_counter r + 1) mod 2 ^ 64)) db = (res, db')"
  shows "redis_Allow ops None server t sub policy r db =
     ((\<lparr>Allowed = (res = 1), RetryAfter = (if res = 1 then 0 else rl_window r)\<rparr>, None),
      r\<lparr>rl_counter := (rl_counter r + 1) mod 2 ^ 64\<rparr>, db')"
  using assms unfolding redis_Allow_def rate_limit_def Let_def by auto

lemma workers_run_window_run:
  assumes "\<forall>i. Milliseconds (rl_window (rs i)) = window"
  shows "workers_run ops sub policy rs db calls =
     fst (window_run ops (''ratelimit:'' @ sub) window (rate_limit policy)
            (script_calls (\<lambda>i. rl_counter (rs i)) calls) db)"
  using assms
proof (induction calls arbitrary: rs db)
  case (Cons call calls)
  obtain i t server where call: "call = (i, t, server)" by (cases call)
  let ?c = "(rl_counter (rs i) + 1) mod 2 ^ 64"
  define rs' where "rs' = rs(i := rs i\<lparr>rl_counter := ?c\<rparr>)"
  obtain res db1 where s: "redisSlidingWindowScript ops server (''ratelimit:'' @ sub) (UnixMilli t) window
      (rate_limit policy) (redis_member (UnixMilli t) ?c) db = (res, db1)" by fastforce
  have counters: "(\<lambda>j. rl_counter (rs' j)) = (\<lambda>j. rl_counter (rs j))(i := ?c)" by (auto simp: rs'_def)
  have a: "redis_Allow ops None server t sub policy (rs i) db =
      ((\<lparr>Allowed = (res = 1), RetryAfter = (if res = 1 then 0 else rl_window (rs i))\<rparr>, None),
       rs i\<lparr>rl_counter := ?c\<rparr>, db1)"
    by (rule redis_Allow_script) (use s Cons.prems in simp)
  have w: "\<forall>j. Milliseconds (rl_window (rs' j)) = window" using Cons.prems by (simp add: rs'_def)
  have calls: "script_calls (\<lambda>j. rl_counter (rs j)) (call # calls) =
      (UnixMilli t, server, redis_member (UnixMilli t) ?c) # script_calls (\<lambda>j. rl_counter (rs' j)) calls"
    unfolding call counters script_calls_def call_members.simps Let_def by simp
  show ?case
    unfolding calls window_run.simps s using Cons.IH [OF w, of db1]
    unfolding call workers_run.simps a Let_def prod.case rs'_def [symmetric]
    by (auto split: prod.splits)
qed (simp add: script_calls_def)

text \<open>Workers with the same counter write the same member in one millisecond.\<close>

lemma same_counter_calls:
  assumes "distinct (map fst calls)" "\<forall>(i, t, server) \<in> set calls. UnixMilli t = now \<and> cs i = c"
  shows "script_calls cs calls
    = map (\<lambda>server. (now, server, redis_member now ((c + 1) mod 2 ^ 64))) (map (snd \<circ> snd) calls)"
  using assms
proof (induction calls arbitrary: cs)
  case (Cons call calls)
  obtain i t server where call: "call = (i, t, server)" by (cases call)
  have "\<forall>(j, t, server) \<in> set calls. UnixMilli t = now \<and> (cs(i := (cs i + 1) mod 2 ^ 64)) j = c"
  proof
    fix x assume x: "x \<in> set calls"
    then have "fst x \<noteq> i" using Cons.prems(1) call by force
    moreover have "case x of (j, t, server) \<Rightarrow> UnixMilli t = now \<and> cs j = c" using Cons.prems(2) x by simp
    ultimately show "case x of (j, t, server) \<Rightarrow> UnixMilli t = now \<and> (cs(i := (cs i + 1) mod 2 ^ 64)) j = c"
      by (cases x) simp
  qed
  moreover have "script_calls cs (call # calls) = (now, server, redis_member now ((c + 1) mod 2 ^ 64))
      # script_calls (cs(i := (cs i + 1) mod 2 ^ 64)) calls"
    using Cons.prems(2) unfolding call script_calls_def call_members.simps Let_def by simp
  ultimately show ?case using Cons.IH Cons.prems(1) call by simp
qed (simp add: script_calls_def)

subsection \<open>Properties\<close>

text \<open>C24 The sliding window of the workers that share a subscription's key: starting without the key,
  however many calls are made by however many workers, no period of the window's length
  contains more admissions than the subscription's rate (the default rate when it has none).  This needs that the
  members the calls write are different, that the workers' clocks agree so far that the times do
  not decrease in the order in which Redis runs the scripts, and that Redis's own clock does not
  advance more than theirs.  One worker alone writes different members.\<close>

theorem redis_window_bound:
  assumes "sorted (map (\<lambda>(i, t, server). t) calls)" "\<forall>(i, t, server) \<in> set calls. 0 \<le> UnixMilli t"
    and "sorted (map (\<lambda>(i, t, server). UnixMilli t - server) calls)"
    and "\<forall>i. rl_window (rs i) = window" "0 < Milliseconds window"
    and "distinct (call_members (\<lambda>i. rl_counter (rs i)) calls)" "db (''ratelimit:'' @ sub) = None"
  shows "int (in_window (Milliseconds window) t (workers_run map_zset sub policy rs db calls))
     \<le> (if rp_RequestsPerSecond policy \<le> 0 then DefaultSubscriptionMaxDeliveryRate
         else rp_RequestsPerSecond policy)"
proof -
  let ?calls = "script_calls (\<lambda>i. rl_counter (rs i)) calls"
  have "sorted (map UnixMilli ts)" if "sorted ts" for ts
    using that by (induction ts) (auto simp: UnixMilli_def zdiv_mono1)
  from this [OF assms(1)] have "sorted (map (\<lambda>(i, t, server). UnixMilli t) calls)"
    by (simp add: comp_def case_prod_unfold)
  then have srt: "sorted (0 # map fst ?calls)"
    using assms(2) by (auto simp: script_calls_columns)
  obtain adm db' where run: "window_run map_zset (''ratelimit:'' @ sub) (Milliseconds window)
      (rate_limit policy) ?calls db = (adm, db')" by fastforce
  have "int (in_window (Milliseconds window) t adm) \<le> rate_limit policy"
    by (rule zset.window_bound [OF assms(5) rate_limit_pos srt _ _ assms(7) run])
       (use assms(3,6) in \<open>simp_all only: script_calls_columns\<close>)
  then show ?thesis
    using workers_run_window_run [of rs "Milliseconds window" map_zset sub policy db calls] assms(4) run
    unfolding rate_limit_def [symmetric] by simp
qed

text \<open>Two workers, of which the second has called before: their three calls write three members.\<close>

definition sample_limiters :: "nat \<Rightarrow> RedisRateLimiter" where
  "sample_limiters i = (NewRedisRateLimiter Second)\<lparr>rl_counter := 7 * i\<rparr>"

definition sample_calls :: "(nat \<times> time \<times> int) list" where
  "sample_calls = [(0, 62135596800000000000, 5), (1, 62135596800000000000, 5), (0, 62135596800001000000, 6)]"

lemma sample_calls_members: "distinct (call_members (\<lambda>i. rl_counter (sample_limiters i)) sample_calls)"
proof -
  have "call_members (\<lambda>i. rl_counter (sample_limiters i)) sample_calls
      = [redis_member 0 1, redis_member 0 8, redis_member 1 (Suc (Suc 0))]"
    by (simp add: sample_calls_def sample_limiters_def NewRedisRateLimiter_def UnixMilli_def Let_def)
  then show ?thesis using redis_member_inj [of 0 "Suc 0" 0 8] redis_member_inj [of 0 "Suc 0" 1 "Suc (Suc 0)"]
      redis_member_inj [of 0 8 1 "Suc (Suc 0)"] by auto
qed

theorem redis_window_bound_witness:
  "int (in_window 1000 62135596800500 (workers_run map_zset ''sub_1'' \<lparr>rp_RequestsPerSecond = 1\<rparr>
     sample_limiters Map.empty sample_calls)) \<le> 1"
  using redis_window_bound [OF _ _ _ _ _ sample_calls_members, of Second Map.empty "''sub_1''" 62135596800500
      "\<lparr>rp_RequestsPerSecond = 1\<rparr>"]
  by (simp add: sample_calls_def sample_limiters_def NewRedisRateLimiter_def UnixMilli_def Milliseconds_def)

text \<open>An error of Redis closes the limiter: the call is not allowed and is to be repeated after
  the window, and no state changes but the call counter.\<close>

lemma redis_fails_closed:
  "redis_Allow ops (Some e) server t sub policy r db =
     ((\<lparr>Allowed = False, RetryAfter = rl_window r\<rparr>, Some e),
      r\<lparr>rl_counter := (rl_counter r + 1) mod 2 ^ 64\<rparr>, db)"
  by (simp add: redis_Allow_def Let_def)

text \<open>C25 The members are unique only within one process: workers whose counters agree, as those of
  workers that start together do, write the same member when they call in the same millisecond.
  Starting without the key, all of them are admitted, however many they are, under any rate of
  two or more requests.\<close>

theorem redis_member_collision:
  assumes "distinct (map fst calls)"
    and "\<forall>(i, t, server) \<in> set calls. UnixMilli t = now \<and> rl_counter (rs i) = c"
    and "\<forall>i. rl_window (rs i) = window"
    and "2 \<le> rp_RequestsPerSecond policy" "db (''ratelimit:'' @ sub) = None"
  shows "workers_run map_zset sub policy rs db calls = replicate (length calls) now"
proof -
  have "script_calls (\<lambda>i. rl_counter (rs i)) calls
      = map (\<lambda>server. (now, server, redis_member now ((c + 1) mod 2 ^ 64))) (map (snd \<circ> snd) calls)"
    using same_counter_calls [OF assms(1,2)] .
  moreover have "zset.lone now (redis_member now ((c + 1) mod 2 ^ 64)) (''ratelimit:'' @ sub) db"
    using assms(5) by (simp add: zset.lone_def)
  moreover have "2 \<le> rate_limit policy" using assms(4) by (simp add: rate_limit_def)
  ultimately show ?thesis
    using workers_run_window_run [of rs "Milliseconds window" map_zset sub policy db calls] assms(3)
      zset.window_run_lone [of now _ "''ratelimit:'' @ sub" db "rate_limit policy" _ "map (snd \<circ> snd) calls"]
    by simp
qed

theorem redis_member_collision_witness:
  "in_window 1000 0 (workers_run map_zset ''sub_1'' \<lparr>rp_RequestsPerSecond = 2\<rparr> (\<lambda>i. NewRedisRateLimiter Second)
     Map.empty [(0, 62135596800000000000, 0), (1, 62135596800000000000, 0), (2, 62135596800000000000, 0)]) = 3"
  by (subst redis_member_collision [where now = 0 and c = 0 and window = Second])
     (simp_all add: UnixMilli_def NewRedisRateLimiter_def in_window_def)

end
