(* ===== verification/Retry_Policy.thy ===== *)
theory Retry_Policy
  imports Dispatch_Prelude "HOL-Library.Log_Nat"
begin

text \<open>
  \<^verbatim>\<open>internal/retry/policy.go\<close>: exponential backoff with jitter.

  The delays are computed in \<open>float64\<close>.  A finite \<open>float64\<close> is a real number here, and
  every operation of the source rounds its exact result to the nearest number with a
  53-bit significand, ties to even (\<open>fl\<close>).  Overflow to infinity and subnormal results are
  not modelled: a delay that overflows is larger than any \<open>MaxInterval\<close> and is cut to it
  in both readings, and a subnormal one becomes zero nanoseconds in both.

  The lemmas bound the rounding error and give the delay of an attempt within explicit
  bounds: the doubled interval up to the cap, within the jitter's tenth.
\<close>

subsection \<open>Rounding to float64\<close>

text \<open>The exponent of the leading binary digit, \<open>floor (log 2 \<bar>x\<bar>)\<close>.\<close>

definition float_exponent :: "real \<Rightarrow> int" where
  "float_exponent x =
     (if 1 \<le> \<bar>x\<bar> then int (floorlog 2 (nat \<lfloor>\<bar>x\<bar>\<rfloor>)) - 1
      else - int (floorlog 2 (nat (\<lceil>1 / \<bar>x\<bar>\<rceil> - 1))))"

definition round_even :: "real \<Rightarrow> int" where
  "round_even x =
     (let f = \<lfloor>x\<rfloor>; d = x - of_int f
      in if d < 1 / 2 then f else if d > 1 / 2 then f + 1 else if even f then f else f + 1)"

definition fl :: "real \<Rightarrow> real" where
  "fl x =
     (if x = 0 then 0
      else (let ulp = 2 powi (float_exponent x - 52)
            in of_int (round_even (x / ulp)) * ulp))"

text \<open>Conversion of a \<open>float64\<close> to \<open>int64\<close> drops the fraction.\<close>

definition float_to_int :: "real \<Rightarrow> int" where
  "float_to_int x = (if 0 \<le> x then \<lfloor>x\<rfloor> else \<lceil>x\<rceil>)"

subsection \<open>The policy\<close>

record Policy =
  InitialInterval :: Duration
  MaxInterval :: Duration
  Multiplier :: real
  Jitter :: real
  MaxAttempts :: int

definition DefaultPolicy :: Policy where
  "DefaultPolicy =
     \<lparr>InitialInterval = 1 * Second,
      MaxInterval = 1 * Hour,
      Multiplier = 2,
      Jitter = fl (1 / 10),
      MaxAttempts = 5\<rparr>"

text \<open>\<open>r\<close> is the value of \<open>rand.Float64()\<close>, a number in the interval [0, 1).\<close>

definition CalculateDelay :: "Policy \<Rightarrow> int \<Rightarrow> real \<Rightarrow> Duration" where
  "CalculateDelay p attempt r =
     (let delay = fl (fl (of_int (InitialInterval p)) * fl (Multiplier p powi (attempt - 1)));
          delay = (if delay > fl (of_int (MaxInterval p)) then fl (of_int (MaxInterval p)) else delay);
          delay = (if Jitter p > 0 then
                     (let jitterRange = fl (delay * Jitter p);
                          jitterOffset = fl (fl (fl (r * 2) - 1) * jitterRange)
                      in fl (delay + jitterOffset))
                   else delay)
      in float_to_int delay)"

definition NextAttemptTime :: "Policy \<Rightarrow> time \<Rightarrow> int \<Rightarrow> real \<Rightarrow> time" where
  "NextAttemptTime p now attempt r = now + CalculateDelay p attempt r"

subsection \<open>Rounding errors\<close>

lemma round_even_error: "\<bar>of_int (round_even x) - x\<bar> \<le> 1 / 2"
proof -
  define f where "f = \<lfloor>x\<rfloor>"
  have "of_int f \<le> x" "x \<le> of_int f + 1" unfolding f_def by linarith+
  then show ?thesis
    unfolding round_even_def Let_def f_def [symmetric] by (auto simp: abs_if)
qed

lemma round_even_of_int [simp]: "round_even (of_int n) = n"
  by (simp add: round_even_def)

lemma floorlog2_bounds:
  "0 < n \<Longrightarrow> 2 ^ (floorlog 2 n - 1) \<le> n \<and> n < 2 ^ floorlog 2 n \<and> 0 < floorlog 2 n"
  using floorlog_bounds [of n 2] by (simp add: floorlog_def)

lemma float_exponent_bounds:
  assumes "x \<noteq> 0"
  shows "2 powi float_exponent x \<le> \<bar>x\<bar>"
proof (cases "1 \<le> \<bar>x\<bar>")
  case True
  let ?n = "nat \<lfloor>\<bar>x\<bar>\<rfloor>"
  have pos: "0 < ?n" using True by (simp add: le_floor_iff)
  have "2 ^ (floorlog 2 ?n - 1) \<le> ?n"
    using floorlog2_bounds [OF pos] by simp
  then have "(2::real) ^ (floorlog 2 ?n - 1) \<le> real ?n"
    by (metis of_nat_le_iff of_nat_numeral of_nat_power)
  also have "\<dots> \<le> \<bar>x\<bar>" using pos by (simp add: of_nat_nat)
  finally show ?thesis
    using True floorlog2_bounds [OF pos] by (simp add: float_exponent_def power_int_def nat_diff_distrib)
next
  case False
  let ?m = "nat (\<lceil>1 / \<bar>x\<bar>\<rceil> - 1)"
  have "1 < 1 / \<bar>x\<bar>" using False assms by (simp add: less_divide_eq)
  then have pos: "0 < ?m" by linarith
  have "?m < 2 ^ floorlog 2 ?m"
    using floorlog2_bounds [OF pos] by simp
  then have "real (?m + 1) \<le> (2::real) ^ floorlog 2 ?m"
    by (metis Suc_eq_plus1 Suc_leI of_nat_le_iff of_nat_numeral of_nat_power)
  moreover have "1 / \<bar>x\<bar> \<le> real (?m + 1)" using pos by linarith
  ultimately have "1 / \<bar>x\<bar> \<le> 2 ^ floorlog 2 ?m" by linarith
  then have "1 / 2 ^ floorlog 2 ?m \<le> \<bar>x\<bar>"
    using assms by (simp add: field_simps)
  then show ?thesis
    using False by (simp add: float_exponent_def power_int_minus inverse_eq_divide)
qed

lemma fl_0 [simp]: "fl 0 = 0"
  by (simp add: fl_def)

lemma fl_error: "\<bar>fl x - x\<bar> \<le> \<bar>x\<bar> / 2 ^ 53"
proof (cases "x = 0")
  case False
  let ?u = "(2::real) powi (float_exponent x - 52)"
  have u: "?u > 0" by simp
  have "fl x - x = (of_int (round_even (x / ?u)) - x / ?u) * ?u"
    using False u by (simp add: fl_def Let_def field_simps)
  then have "\<bar>fl x - x\<bar> = \<bar>of_int (round_even (x / ?u)) - x / ?u\<bar> * ?u"
    using u by (simp add: abs_mult)
  also have "\<dots> \<le> 1 / 2 * ?u"
    using round_even_error u by (intro mult_right_mono) auto
  also have "\<dots> = 2 powi float_exponent x / 2 ^ 53"
    by (simp add: power_int_diff)
  also have "\<dots> \<le> \<bar>x\<bar> / 2 ^ 53"
    using float_exponent_bounds [OF False] by (simp add: divide_right_mono)
  finally show ?thesis .
qed simp

text \<open>Integers below \<open>2 ^ 53\<close> are \<open>float64\<close> values.\<close>

lemma fl_of_int:
  assumes "\<bar>n\<bar> < 2 ^ 53"
  shows "fl (of_int n) = of_int n"
proof (cases "n = 0")
  case False
  let ?m = "nat \<bar>n\<bar>"
  let ?u = "(2::real) powi (float_exponent (of_int n) - 52)"
  have m: "\<lfloor>\<bar>real_of_int n\<bar>\<rfloor> = \<bar>n\<bar>" by (metis floor_of_int of_int_abs)
  have "floorlog 2 ?m \<le> 53"
  proof -
    have "2 ^ (floorlog 2 ?m - 1) \<le> ?m" using floorlog2_bounds [of ?m] False by simp
    also have "\<dots> < 2 ^ 53" using assms by (simp add: nat_less_iff)
    finally have "floorlog 2 ?m - 1 < 53" by (rule power_less_imp_less_exp [rotated]) simp
    then show ?thesis by simp
  qed
  moreover have "1 \<le> \<bar>real_of_int n\<bar>" using False by linarith
  ultimately have "float_exponent (of_int n) \<le> 52"
    using m by (simp add: float_exponent_def)
  then obtain k where k: "float_exponent (of_int n) - 52 = - int k"
    by (metis diff_le_0_iff_le nonpos_int_cases)
  then have u: "?u = 1 / 2 ^ k" by (simp add: power_int_minus inverse_eq_divide)
  then have "of_int n / ?u = of_int (n * 2 ^ k)" by simp
  then have "round_even (of_int n / ?u) = n * 2 ^ k" by (simp only: round_even_of_int)
  then show ?thesis using False u by (simp add: fl_def Let_def)
qed simp


subsection \<open>The delay of an attempt\<close>

text \<open>The delay before jitter under the default policy: doubled from one second, at most one hour.\<close>

definition backoff_base :: "nat \<Rightarrow> int" where
  "backoff_base k = min (Second * 2 ^ k) Hour"

lemma fl_numeral_int: "\<bar>n\<bar> < 2 ^ 53 \<Longrightarrow> x = of_int n \<Longrightarrow> fl x = of_int n"
  by (simp add: fl_of_int)

lemma fl_two_power:
  assumes "k < 53" shows "fl (2 ^ k) = 2 ^ k"
proof -
  have "fl (real_of_int (2 ^ k)) = of_int (2 ^ k)"
  proof (rule fl_of_int)
    have "(2::int) ^ k < 2 ^ 53" using assms by (intro power_strict_increasing) auto
    then show "\<bar>2 ^ k :: int\<bar> < 2 ^ 53" by simp
  qed
  then show ?thesis by simp
qed

lemma fl_mono_ge:
  assumes "0 \<le> x" shows "x * (1 - 1 / 2 ^ 53) \<le> fl x" "fl x \<le> x * (1 + 1 / 2 ^ 53)"
  using fl_error [of x] assms unfolding abs_le_iff by (simp_all add: algebra_simps)

lemma fl_abs: "\<bar>fl x\<bar> \<le> \<bar>x\<bar> * (1 + 1 / 2 ^ 53)"
proof -
  have "\<bar>fl x\<bar> \<le> \<bar>fl x - x\<bar> + \<bar>x\<bar>" by linarith
  also have "\<dots> \<le> \<bar>x\<bar> / 2 ^ 53 + \<bar>x\<bar>" using fl_error [of x] by linarith
  finally show ?thesis by (simp add: algebra_simps)
qed

lemma delay_before_jitter:
  assumes "p = DefaultPolicy"
  shows "(let delay = fl (fl (of_int (InitialInterval p)) * fl (Multiplier p powi (int (Suc k) - 1)))
          in if delay > fl (of_int (MaxInterval p)) then fl (of_int (MaxInterval p)) else delay)
         = of_int (backoff_base k)"
proof (cases "k < 20")
  case True
  have "fl (2 powi (int (Suc k) - 1)) = 2 ^ k" using fl_two_power [of k] True by simp
  moreover have "fl (of_int (Second * 2 ^ k)) = of_int (Second * 2 ^ k)"
  proof (rule fl_of_int)
    have "(2::int) ^ k < 2 ^ 20" using True by (intro power_strict_increasing) auto
    then show "\<bar>Second * 2 ^ k\<bar> < 2 ^ 53" by simp
  qed
  moreover have "fl (of_int Second) = of_int Second" "fl (of_int Hour) = of_int Hour"
    by (rule fl_of_int, simp)+
  moreover have "3600 < (2::real) ^ k \<longleftrightarrow> 3600 < (2::int) ^ k"
    using of_int_less_iff [where ?'a = real, of 3600 "2 ^ k"] by simp
  ultimately show ?thesis
    using assms by (simp add: DefaultPolicy_def backoff_base_def Let_def min_def linorder_not_less [symmetric])
next
  case False
  have "(2::real) ^ 20 \<le> 2 ^ k" using False by (intro power_increasing) auto
  moreover have "2 ^ k * (1 - 1 / 2 ^ 53) \<le> fl (2 ^ k)" by (rule fl_mono_ge) simp
  ultimately have a: "(2::real) ^ 19 \<le> fl (2 ^ k)" by simp
  then have "1000000000 * fl (2 ^ k) * (1 - 1 / 2 ^ 53) \<le> fl (1000000000 * fl (2 ^ k))"
    by (intro fl_mono_ge) simp
  with a have "fl (1000000000 * fl (2 ^ k)) > 3600000000000" by simp
  moreover have "fl 1000000000 = 1000000000" "fl 3600000000000 = 3600000000000"
    using fl_of_int [of Second] fl_of_int [of Hour] by simp_all
  moreover have "Hour \<le> Second * 2 ^ k"
  proof -
    have "(2::int) ^ 20 \<le> 2 ^ k" using False by (intro power_increasing) auto
    then show ?thesis by simp
  qed
  ultimately show ?thesis
    using assms by (simp add: DefaultPolicy_def backoff_base_def Let_def min_def)
qed


text \<open>The jitter moves a base delay by at most a tenth, up to rounding.\<close>

lemma jitter_offset:
  assumes r: "0 \<le> r" "r < 1" and b: "0 \<le> b"
  shows "\<bar>fl (fl (fl (r * 2) - 1) * fl (b * fl (1 / 10)))\<bar> \<le> b / 10 * (1 + 1 / 10 ^ 14)"
proof -
  let ?j = "fl (b * fl (1 / 10))" and ?u = "fl (fl (r * 2) - 1)"
  have t: "fl (1 / 10) \<le> 1 / 10 * (1 + 1 / 2 ^ 53)" "0 \<le> fl (1 / 10)"
    using fl_mono_ge [of "1 / 10"] by simp_all
  have "b * fl (1 / 10) \<le> b * (1 / 10 * (1 + 1 / 2 ^ 53))"
    using t b by (intro mult_left_mono) auto
  moreover have "\<bar>?j\<bar> \<le> \<bar>b * fl (1 / 10)\<bar> * (1 + 1 / 2 ^ 53)" by (rule fl_abs)
  ultimately have j: "\<bar>?j\<bar> \<le> b * (1 / 10 * (1 + 1 / 2 ^ 53)) * (1 + 1 / 2 ^ 53)"
    using t b by (simp add: abs_mult)
  have "0 \<le> fl (r * 2)" "fl (r * 2) \<le> 2 * (1 + 1 / 2 ^ 53)"
    using fl_mono_ge [of "r * 2"] r by (auto intro: order_trans simp: field_simps)
  then have "\<bar>fl (r * 2) - 1\<bar> \<le> 1 + 2 / 2 ^ 53" unfolding abs_le_iff by (intro conjI) simp_all
  moreover have "\<bar>?u\<bar> \<le> \<bar>fl (r * 2) - 1\<bar> * (1 + 1 / 2 ^ 53)" by (rule fl_abs)
  ultimately have u: "\<bar>?u\<bar> \<le> (1 + 2 / 2 ^ 53) * (1 + 1 / 2 ^ 53)" by (simp add: field_simps)
  have "\<bar>fl (?u * ?j)\<bar> \<le> \<bar>?u\<bar> * \<bar>?j\<bar> * (1 + 1 / 2 ^ 53)"
    using fl_abs [of "?u * ?j"] by (simp only: abs_mult)
  also have "\<dots> \<le> ((1 + 2 / 2 ^ 53) * (1 + 1 / 2 ^ 53)) *
      (b * (1 / 10 * (1 + 1 / 2 ^ 53)) * (1 + 1 / 2 ^ 53)) * (1 + 1 / 2 ^ 53)"
    using u j by (intro mult_right_mono mult_mono) auto
  also have "\<dots> \<le> b / 10 * (1 + 1 / 10 ^ 14)" using b by simp
  finally show ?thesis .
qed

lemma CalculateDelay_default_eq:
  "CalculateDelay DefaultPolicy (int (Suc k)) r =
     (let b = of_int (backoff_base k)
      in float_to_int (fl (b + fl (fl (fl (r * 2) - 1) * fl (b * fl (1 / 10))))))"
proof -
  have "Jitter DefaultPolicy = fl (1 / 10)" "0 < fl (1 / 10)"
    using fl_mono_ge [of "1 / 10"] by (simp_all add: DefaultPolicy_def)
  then show ?thesis
    unfolding CalculateDelay_def Let_def
    using delay_before_jitter [OF refl, of k] unfolding Let_def by (simp only: if_True)
qed

lemma CalculateDelay_default:
  assumes r: "0 \<le> r" "r < 1"
  shows "9 * backoff_base k - 10 \<le> 10 * CalculateDelay DefaultPolicy (int (Suc k)) r"
    and "10 * CalculateDelay DefaultPolicy (int (Suc k)) r \<le> 11 * backoff_base k + 10"
proof -
  let ?b = "real_of_int (backoff_base k)"
  let ?o = "fl (fl (fl (r * 2) - 1) * fl (?b * fl (1 / 10)))"
  have b: "0 \<le> ?b" "?b \<le> of_int Hour" by (simp_all add: backoff_base_def min_def)
  have o: "\<bar>?o\<bar> \<le> ?b / 10 * (1 + 1 / 10 ^ 14)" by (rule jitter_offset) (use r b in auto)
  have d: "CalculateDelay DefaultPolicy (int (Suc k)) r = float_to_int (fl (?b + ?o))"
    unfolding CalculateDelay_default_eq Let_def ..
  have s: "0 \<le> ?b + ?o" using o b unfolding abs_le_iff by (simp add: field_simps)
  have lo: "9 / 10 * ?b - 1 / 10 \<le> fl (?b + ?o)" and hi: "fl (?b + ?o) \<le> 11 / 10 * ?b + 1 / 10"
    using fl_mono_ge [OF s] o b unfolding abs_le_iff by (simp_all add: field_simps)
  have "0 \<le> fl (?b + ?o)" using fl_mono_ge(1) [OF s] s by (simp add: mult_nonneg_nonneg order_trans)
  then have f: "float_to_int (fl (?b + ?o)) = \<lfloor>fl (?b + ?o)\<rfloor>" by (simp add: float_to_int_def)
  have "real_of_int (9 * backoff_base k - 11) < of_int (10 * \<lfloor>fl (?b + ?o)\<rfloor>)"
    using lo by simp linarith
  then show "9 * backoff_base k - 10 \<le> 10 * CalculateDelay DefaultPolicy (int (Suc k)) r"
    unfolding d f by (simp only: of_int_less_iff)
  have "real_of_int (10 * \<lfloor>fl (?b + ?o)\<rfloor>) \<le> of_int (11 * backoff_base k + 10)"
    using hi by simp linarith
  then show "10 * CalculateDelay DefaultPolicy (int (Suc k)) r \<le> 11 * backoff_base k + 10"
    unfolding d f by (simp only: of_int_le_iff)
qed

subsection \<open>Properties\<close>

text \<open>C14 The \<open>k+1\<close>-st retry under the default policy waits one second doubled \<open>k\<close> times, at most
  one hour, give or take a tenth (up to a rounding of one nanosecond), whatever the random
  number: in particular the delay is never negative and never below nine tenths of the
  backoff.\<close>

theorem delay_within_jitter:
  assumes "0 \<le> r" "r < 1"
  shows "9 * min (Second * 2 ^ k) Hour - 10 \<le> 10 * CalculateDelay DefaultPolicy (int (Suc k)) r
       \<and> 10 * CalculateDelay DefaultPolicy (int (Suc k)) r \<le> 11 * min (Second * 2 ^ k) Hour + 10"
  using CalculateDelay_default [OF assms] by (simp add: backoff_base_def)

theorem delay_within_jitter_witness:
  "9 * (4 * Second) - 10 \<le> 10 * CalculateDelay DefaultPolicy 3 (1 / 2)
     \<and> 10 * CalculateDelay DefaultPolicy 3 (1 / 2) \<le> 11 * (4 * Second) + 10"
  using delay_within_jitter [of "1 / 2" 2] by simp

text \<open>The cap is applied before the jitter, so a delay can exceed \<open>MaxInterval\<close>: with the random
  number 3/4 the thirteenth attempt waits longer than the hour.\<close>

lemma delay_may_exceed_cap: "CalculateDelay DefaultPolicy 13 (3 / 4) > MaxInterval DefaultPolicy"
proof -
  let ?j = "fl (3600000000000 * fl (1 / 10))" and ?h = "3600000000000 :: real"
  have t: "fl (1 / 10) \<ge> 1 / 10 * (1 - 1 / 2 ^ 53)" using fl_mono_ge [of "1 / 10"] by simp
  have r: "fl (3 / 4 * 2) \<ge> 149 / 100" using fl_mono_ge(1) [of "3 / 4 * 2"] by simp
  have u: "fl (fl (3 / 4 * 2) - 1) \<ge> 48 / 100"
    using fl_mono_ge(1) [of "fl (3 / 4 * 2) - 1"] r by (simp add: field_simps)
  have j: "?j \<ge> 350000000000"
    using fl_mono_ge(1) [of "?h * fl (1 / 10)"] t by simp
  have "48 / 100 * 350000000000 \<le> fl (fl (3 / 4 * 2) - 1) * ?j"
    using u j by (intro mult_mono) auto
  then have p: "0 \<le> fl (fl (3 / 4 * 2) - 1) * ?j" "168000000000 \<le> fl (fl (3 / 4 * 2) - 1) * ?j" by simp_all
  then have o: "fl (fl (fl (3 / 4 * 2) - 1) * ?j) \<ge> 160000000000"
    using fl_mono_ge(1) [OF p(1)] by (simp add: field_simps)
  then have d: "?h + 150000000000 \<le> fl (?h + fl (fl (fl (3 / 4 * 2) - 1) * ?j))"
    using fl_mono_ge(1) [of "?h + fl (fl (fl (3 / 4 * 2) - 1) * ?j)"] by (simp add: field_simps)
  have "real_of_int (backoff_base 12) = ?h" by (simp add: backoff_base_def)
  then have "CalculateDelay DefaultPolicy (int (Suc 12)) (3 / 4)
      = float_to_int (fl (?h + fl (fl (fl (3 / 4 * 2) - 1) * ?j)))"
    unfolding CalculateDelay_default_eq Let_def by (simp only:)
  then show ?thesis
    using d unfolding float_to_int_def by (simp add: DefaultPolicy_def)
qed

end
