(* ===== verification/Local_Rate_Limiter.thy ===== *)
theory Local_Rate_Limiter
  imports Redis_Rate_Limiter Retry_Policy
begin

text \<open>
  \<^verbatim>\<open>internal/resilience/ratelimiter.go\<close> and \<^verbatim>\<open>interfaces.go\<close>: the in-process limiters, one per
  subscription, and the limiter that refuses everything.

  The limiter of \<^verbatim>\<open>golang.org/x/time/rate\<close> is an interface, the record \<open>limiter_ops\<close>; the locale
  \<open>rate_package\<close> states what the manager relies on (a limiter reports the rate it was made
  with, whatever is asked of it), and a token bucket provides it.  The manager's methods run
  under its mutex, so that each is one step; \<open>t\<close> is the clock reading the package takes.
\<close>

record ('l, 'r) limiter_ops =
  NewLimiter :: "real \<Rightarrow> nat \<Rightarrow> 'l"
  lim_Allow :: "time \<Rightarrow> 'l \<Rightarrow> bool \<times> 'l"
  lim_Limit :: "'l \<Rightarrow> real"
  Reserve :: "time \<Rightarrow> 'l \<Rightarrow> 'r \<times> 'l"
  res_OK :: "'r \<Rightarrow> bool"
  res_Delay :: "time \<Rightarrow> 'r \<Rightarrow> Duration"
  res_Cancel :: "time \<Rightarrow> 'r \<Rightarrow> 'l \<Rightarrow> 'l"

record 'l RateLimiterManager =
  rm_RequestsPerSecond :: real
  rm_limiters :: "string \<rightharpoonup> 'l"

definition NewRateLimiterManager :: "real \<Rightarrow> 'l RateLimiterManager" where
  "NewRateLimiterManager rate = \<lparr>rm_RequestsPerSecond = rate, rm_limiters = Map.empty\<rparr>"

definition set_limiter :: "string \<Rightarrow> 'l \<Rightarrow> 'l RateLimiterManager \<Rightarrow> 'l RateLimiterManager" where
  "set_limiter sub l m = m\<lparr>rm_limiters := (rm_limiters m)(sub \<mapsto> l)\<rparr>"

definition GetLimiter ::
  "('l, 'r) limiter_ops \<Rightarrow> string \<Rightarrow> 'l RateLimiterManager \<Rightarrow> 'l \<times> 'l RateLimiterManager" where
  "GetLimiter ops sub m =
     (case rm_limiters m sub of
        Some limiter \<Rightarrow> (limiter, m)
      | None \<Rightarrow>
          (let limiter = NewLimiter ops (rm_RequestsPerSecond m) 1
           in (limiter, set_limiter sub limiter m)))"

definition manager_Allow ::
  "('l, 'r) limiter_ops \<Rightarrow> time \<Rightarrow> string \<Rightarrow> 'l RateLimiterManager \<Rightarrow> bool \<times> 'l RateLimiterManager" where
  "manager_Allow ops t sub m =
     (let (limiter, m) = GetLimiter ops sub m;
          (allowed, limiter) = lim_Allow ops t limiter
      in (allowed, set_limiter sub limiter m))"

definition SetRateIfChanged ::
  "('l, 'r) limiter_ops \<Rightarrow> string \<Rightarrow> real \<Rightarrow> 'l RateLimiterManager \<Rightarrow> 'l RateLimiterManager" where
  "SetRateIfChanged ops sub rate m =
     (case rm_limiters m sub of
        Some limiter \<Rightarrow>
          if lim_Limit ops limiter = rate then m else set_limiter sub (NewLimiter ops rate 1) m
      | None \<Rightarrow> set_limiter sub (NewLimiter ops rate 1) m)"

definition manager_Wait ::
  "('l, 'r) limiter_ops \<Rightarrow> time \<Rightarrow> string \<Rightarrow> 'l RateLimiterManager \<Rightarrow> Duration \<times> 'l RateLimiterManager" where
  "manager_Wait ops t sub m =
     (let (limiter, m) = GetLimiter ops sub m;
          (reservation, limiter) = Reserve ops t limiter
      in if \<not> res_OK ops reservation then (0, set_limiter sub limiter m)
         else (res_Delay ops t reservation,
               set_limiter sub (res_Cancel ops t reservation limiter) m))"

definition SetRate ::
  "('l, 'r) limiter_ops \<Rightarrow> string \<Rightarrow> real \<Rightarrow> 'l RateLimiterManager \<Rightarrow> 'l RateLimiterManager" where
  "SetRate ops sub rate m = set_limiter sub (NewLimiter ops rate 1) m"

definition SetRateIfNotExists ::
  "('l, 'r) limiter_ops \<Rightarrow> string \<Rightarrow> real \<Rightarrow> 'l RateLimiterManager \<Rightarrow> 'l RateLimiterManager" where
  "SetRateIfNotExists ops sub rate m =
     (if rm_limiters m sub \<noteq> None then m else set_limiter sub (NewLimiter ops rate 1) m)"

definition Remove :: "string \<Rightarrow> 'l RateLimiterManager \<Rightarrow> 'l RateLimiterManager" where
  "Remove sub m = m\<lparr>rm_limiters := (rm_limiters m)(sub := None)\<rparr>"

definition AllowWithPolicy ::
  "('l, 'r) limiter_ops \<Rightarrow> time \<Rightarrow> string \<Rightarrow> RatePolicy \<Rightarrow> 'l RateLimiterManager
     \<Rightarrow> (bool \<times> Duration) \<times> 'l RateLimiterManager" where
  "AllowWithPolicy ops t sub policy m =
     (let rateLimit = rp_RequestsPerSecond policy;
          rateLimit = (if rateLimit \<le> 0 then DefaultSubscriptionMaxDeliveryRate else rateLimit);
          m = SetRateIfChanged ops sub (fl (of_int rateLimit)) m;
          (limiter, m) = GetLimiter ops sub m;
          (allowed, limiter) = lim_Allow ops t limiter;
          m = set_limiter sub limiter m
      in if allowed then ((True, 0), m)
         else (let (wait, m) = manager_Wait ops t sub m in ((False, wait), m)))"

definition InMemory_Allow ::
  "('l, 'r) limiter_ops \<Rightarrow> time \<Rightarrow> string \<Rightarrow> RatePolicy \<Rightarrow> 'l RateLimiterManager
     \<Rightarrow> (RateLimitDecision \<times> error option) \<times> 'l RateLimiterManager" where
  "InMemory_Allow ops t sub policy m =
     (let ((allowed, retryAfter), m) = AllowWithPolicy ops t sub policy m
      in ((\<lparr>Allowed = allowed, RetryAfter = retryAfter\<rparr>, None), m))"

definition NewFailClosedRateLimiter :: "Duration \<Rightarrow> Duration" where
  "NewFailClosedRateLimiter retryAfter = (if retryAfter \<le> 0 then Second else retryAfter)"

definition FailClosed_Allow :: "Duration \<Rightarrow> string \<Rightarrow> RatePolicy \<Rightarrow> RateLimitDecision \<times> error option" where
  "FailClosed_Allow retryAfter sub policy = (\<lparr>Allowed = False, RetryAfter = retryAfter\<rparr>, None)"

subsection \<open>What the manager relies on\<close>

locale rate_package =
  fixes ops :: "('l, 'r) limiter_ops"
  assumes Limit_new: "lim_Limit ops (NewLimiter ops rate n) = rate"
    and Limit_Allow: "lim_Limit ops (snd (lim_Allow ops t l)) = lim_Limit ops l"
    and Limit_Reserve: "lim_Limit ops (snd (Reserve ops t l)) = lim_Limit ops l"
    and Limit_Cancel: "lim_Limit ops (res_Cancel ops t res l) = lim_Limit ops l"
begin

text \<open>Whatever was asked before, the limiter that decides has the rate of the policy; a limiter of
  that rate is not replaced, and those of other subscriptions are not touched.\<close>

lemma SetRateIfChanged_limit:
  "\<exists>l. rm_limiters (SetRateIfChanged ops sub rate m) sub = Some l \<and> lim_Limit ops l = rate
     \<and> (\<forall>k. rm_limiters m sub = Some k \<and> lim_Limit ops k = rate \<longrightarrow> l = k)"
  by (auto simp: SetRateIfChanged_def set_limiter_def Limit_new split: option.split)

lemma AllowWithPolicy_spec:
  assumes "AllowWithPolicy ops t sub policy m = ((allowed, wait), m')"
    and "rate = fl (of_int (if rp_RequestsPerSecond policy \<le> 0 then DefaultSubscriptionMaxDeliveryRate
                            else rp_RequestsPerSecond policy))"
  shows "\<exists>l l'. lim_Limit ops l = rate \<and> allowed = fst (lim_Allow ops t l)
     \<and> (\<forall>k. rm_limiters m sub = Some k \<and> lim_Limit ops k = rate \<longrightarrow> l = k)
     \<and> rm_limiters m' = (rm_limiters m)(sub \<mapsto> l') \<and> lim_Limit ops l' = rate"
proof -
  let ?m1 = "SetRateIfChanged ops sub rate m"
  obtain l where l: "rm_limiters ?m1 sub = Some l" "lim_Limit ops l = rate"
      "\<forall>k. rm_limiters m sub = Some k \<and> lim_Limit ops k = rate \<longrightarrow> l = k"
    using SetRateIfChanged_limit by blast
  have other: "rm_limiters ?m1 = (rm_limiters m)(sub \<mapsto> l)"
    using l(1) by (auto simp: SetRateIfChanged_def set_limiter_def split: option.splits if_splits)
  obtain a l1 where a: "lim_Allow ops t l = (a, l1)" by fastforce
  obtain res l2 where r: "Reserve ops t l1 = (res, l2)" by fastforce
  have lims: "lim_Limit ops l1 = rate" "lim_Limit ops l2 = rate"
    using Limit_Allow [of t l] Limit_Reserve [of t l1] l(2) a r by simp_all
  have "allowed = a \<and> (\<exists>l'. rm_limiters m' = (rm_limiters m)(sub \<mapsto> l') \<and> lim_Limit ops l' = rate)"
    using assms(1) l(1) other a r lims Limit_Cancel [of t res l2]
    unfolding AllowWithPolicy_def Let_def assms(2) [symmetric]
    by (auto simp: GetLimiter_def manager_Wait_def set_limiter_def Let_def split: if_splits)
  then show ?thesis using l a by auto
qed

end

subsection \<open>A token bucket\<close>

record bucket =
  b_limit :: real
  b_burst :: nat
  b_tokens :: real
  b_last :: time

definition b_advance :: "time \<Rightarrow> bucket \<Rightarrow> bucket" where
  "b_advance t b = b\<lparr>b_tokens := min (of_nat (b_burst b))
      (b_tokens b + b_limit b * (of_int (max 0 (t - b_last b)) / of_int Second)), b_last := t\<rparr>"

definition bucket_ops :: "(bucket, bool \<times> Duration) limiter_ops" where
  "bucket_ops = \<lparr>NewLimiter = (\<lambda>r n. \<lparr>b_limit = r, b_burst = n, b_tokens = of_nat n, b_last = 0\<rparr>),
     lim_Allow = (\<lambda>t b. let b = b_advance t b
        in if 1 \<le> b_tokens b then (True, b\<lparr>b_tokens := b_tokens b - 1\<rparr>) else (False, b)),
     lim_Limit = b_limit,
     Reserve = (\<lambda>t b. let b = b_advance t b; left = b_tokens b - 1
        in if 1 \<le> b_burst b
           then ((True, if 0 \<le> left then 0 else \<lceil>- left / b_limit b * of_int Second\<rceil>), b\<lparr>b_tokens := left\<rparr>)
           else ((False, 0), b)),
     res_OK = fst, res_Delay = (\<lambda>t. snd),
     res_Cancel = (\<lambda>t res b. b\<lparr>b_tokens := b_tokens b + 1\<rparr>)\<rparr>"

interpretation token_bucket: rate_package bucket_ops
  by unfold_locales (simp_all add: bucket_ops_def b_advance_def Let_def)

subsection \<open>Properties\<close>

text \<open>For any limiter package that reports a limiter's rate truthfully, the in-process limiter
  decides every call with a limiter of exactly the subscription's current rate, keeps that
  limiter (and so its spent tokens) from call to call as long as the rate stays the same, and
  never touches the limiters of other subscriptions.\<close>

lemma local_limiter_follows_policy:
  assumes "\<And>rate n. lim_Limit ops (NewLimiter ops rate n) = rate"
    and "\<And>t l. lim_Limit ops (snd (lim_Allow ops t l)) = lim_Limit ops l"
    and "\<And>t l. lim_Limit ops (snd (Reserve ops t l)) = lim_Limit ops l"
    and "\<And>t res l. lim_Limit ops (res_Cancel ops t res l) = lim_Limit ops l"
    and "InMemory_Allow ops t sub policy m = ((d, err), m')"
    and "rate = fl (of_int (if rp_RequestsPerSecond policy \<le> 0 then DefaultSubscriptionMaxDeliveryRate
                            else rp_RequestsPerSecond policy))"
  shows "err = None \<and> (\<exists>l l'. lim_Limit ops l = rate \<and> Allowed d = fst (lim_Allow ops t l)
     \<and> (\<forall>k. rm_limiters m sub = Some k \<and> lim_Limit ops k = rate \<longrightarrow> l = k)
     \<and> rm_limiters m' = (rm_limiters m)(sub \<mapsto> l') \<and> lim_Limit ops l' = rate)"
proof -
  have pkg: "rate_package ops" by unfold_locales (fact assms(1-4))+
  obtain a w m1 where s: "AllowWithPolicy ops t sub policy m = ((a, w), m1)" by (metis prod_cases3 surj_pair)
  with assms(5) have "Allowed d = a" "err = None" "m1 = m'" by (auto simp: InMemory_Allow_def)
  with rate_package.AllowWithPolicy_spec [OF pkg s assms(6)] show ?thesis by simp
qed

end
