(* ===== verification/Pg_Schema.thy ===== *)
theory Pg_Schema
  imports Domain Go_Text
begin

text \<open>
  The PostgreSQL database of \<^verbatim>\<open>migrations/001_initial_schema.up.sql\<close>: the tables as lists of
  rows, the time columns, the constraints an \<open>INSERT\<close> checks, and the frame of a
  transaction.  A row has the fields of the Go struct it is scanned into, which are the
  table's columns.

  A driver error can happen at every statement.  The model takes the errors as an argument
  \<open>flt\<close>: \<open>flt st\<close> is the text of the error the driver returns at stage \<open>st\<close>, or \<open>None\<close>.
  A failed \<open>COMMIT\<close> is of two kinds: \<open>Commit\<close>, after which nothing has been written, and
  \<open>CommitAck\<close>, where the server has committed and only the answer was lost.

  The invariant \<open>db_ok\<close> collects the schema's keys and references and the state discipline
  of a delivery row; the repository theories show that every operation keeps it.
\<close>

subsection \<open>Tables\<close>

record db =
  events :: "Event list"
  subscriptions :: "Subscription list"
  deliveries :: "Delivery list"
  delivery_attempts :: "DeliveryAttempt list"
  attempts_seq :: int

text \<open>A \<open>TIMESTAMPTZ\<close> column holds whole microseconds; the digits below are dropped.\<close>

definition timestamptz :: "time \<Rightarrow> time" where
  "timestamptz t = t - t mod 1000"

definition event_columns :: "Event \<Rightarrow> Event" where
  "event_columns e =
     e\<lparr>ev_NextAttemptAt := map_option timestamptz (ev_NextAttemptAt e),
       ev_CreatedAt := timestamptz (ev_CreatedAt e),
       ev_UpdatedAt := timestamptz (ev_UpdatedAt e),
       ev_DeliveredAt := map_option timestamptz (ev_DeliveredAt e)\<rparr>"

definition delivery_columns :: "Delivery \<Rightarrow> Delivery" where
  "delivery_columns d =
     d\<lparr>dl_NextAttemptAt := map_option timestamptz (dl_NextAttemptAt d),
       dl_CreatedAt := timestamptz (dl_CreatedAt d),
       dl_UpdatedAt := timestamptz (dl_UpdatedAt d),
       dl_DeliveredAt := map_option timestamptz (dl_DeliveredAt d),
       dl_ProcessingDeadline := map_option timestamptz (dl_ProcessingDeadline d)\<rparr>"

subsection \<open>Statements that insert\<close>

text \<open>What a column can hold: text is valid UTF-8 without a NUL byte, and \<open>INT\<close> has 32 bits.\<close>

definition text_column :: "string option \<Rightarrow> bool" where
  "text_column x \<longleftrightarrow> (case x of None \<Rightarrow> True | Some s \<Rightarrow> pg_text s)"

definition pg_int :: "int \<Rightarrow> bool" where
  "pg_int n \<longleftrightarrow> - (2 ^ 31) \<le> n \<and> n < 2 ^ 31"

definition delivery_texts :: "Delivery \<Rightarrow> bool" where
  "delivery_texts d \<longleftrightarrow> pg_text (dl_ID d) \<and> pg_text (dl_EventID d) \<and> pg_text (dl_SubscriptionID d)
     \<and> pg_text (dl_EventType d) \<and> pg_text (dl_Source d) \<and> pg_text (dl_SubscriptionURL d)
     \<and> text_column (dl_SubscriptionSecret d) \<and> text_column (dl_LastError d) \<and> text_column (dl_ProcessingOwner d)"

definition delivery_ints :: "Delivery \<Rightarrow> bool" where
  "delivery_ints d \<longleftrightarrow> pg_int (dl_MaxDeliveryRate d) \<and> pg_int (dl_Attempts d) \<and> pg_int (dl_MaxAttempts d)
     \<and> pg_int (dl_Generation d)"

text \<open>
  \<open>INSERT INTO events ... ON CONFLICT (id) DO NOTHING\<close>.  \<open>data\<close> is \<open>JSONB NOT NULL\<close>: a nil
  \<open>json.RawMessage\<close> is refused, which is the empty text here (an empty one that is not nil is never
  made: decoding and PostgreSQL give at least one byte).  (Whether other data is acceptable as \<open>JSONB\<close> is left to the faults of the statement, and
  the column gives the text back as it was, where PostgreSQL gives an equal value in its own
  spelling.)
\<close>

definition insert_event :: "Event \<Rightarrow> db \<Rightarrow> error + db" where
  "insert_event e s =
     (if \<not> (pg_text (ev_ID e) \<and> pg_text (ev_Type e) \<and> pg_text (ev_Source e) \<and> text_column (ev_LastError e))
        then Inl (ErrText ''invalid byte sequence for encoding UTF8'')
      else if \<not> (pg_int (ev_Attempts e) \<and> pg_int (ev_MaxAttempts e)) then Inl (ErrText ''integer out of range'')
      else if ev_Data e = [] then Inl (ErrText ''null value in column data'')
      else if has_row (\<lambda>r. ev_ID r = ev_ID e) (events s) then Inr s
      else Inr (s\<lparr>events := events s @ [event_columns e]\<rparr>))"

text \<open>
  \<open>INSERT INTO deliveries ... ON CONFLICT (event_id, subscription_id) DO NOTHING\<close>.  Only the
  pair is a conflict target: a clash of the primary key \<open>id\<close> alone is an error, as are a
  missing event or subscription and a generation that is not positive.
\<close>

definition insert_delivery :: "Delivery \<Rightarrow> db \<Rightarrow> error + db" where
  "insert_delivery d s =
     (if \<not> delivery_texts d then Inl (ErrText ''invalid byte sequence for encoding UTF8'')
      else if \<not> delivery_ints d then Inl (ErrText ''integer out of range'')
      else if dl_Data d = [] then Inl (ErrText ''null value in column data'')
      else if dl_Generation d \<le> 0 then Inl (ErrText ''deliveries_generation_positive'')
      else if has_row (\<lambda>r. dl_EventID r = dl_EventID d \<and> dl_SubscriptionID r = dl_SubscriptionID d)
                (deliveries s) then Inr s
      else if has_row (\<lambda>r. dl_ID r = dl_ID d) (deliveries s) then Inl (ErrText ''deliveries_pkey'')
      else if \<not> has_row (\<lambda>e. ev_ID e = dl_EventID d) (events s)
        then Inl (ErrText ''deliveries_event_id_fkey'')
      else if \<not> has_row (\<lambda>u. sub_ID u = dl_SubscriptionID d) (subscriptions s)
        then Inl (ErrText ''deliveries_subscription_id_fkey'')
      else Inr (s\<lparr>deliveries := deliveries s @ [delivery_columns d]\<rparr>))"

text \<open>
  \<open>INSERT INTO delivery_attempts\<close>: \<open>id\<close> is \<open>SERIAL\<close> and \<open>created_at\<close> defaults to \<open>NOW()\<close>; the
  composite foreign key ties the attempt to one delivery row.  The receiver's answer is text of
  unknown origin: a body that is not valid UTF-8, or has a NUL byte, is refused.
\<close>

definition insert_attempt :: "time \<Rightarrow> DeliveryAttempt \<Rightarrow> db \<Rightarrow> error + db" where
  "insert_attempt now a s =
     (if \<not> text_column (at_ResponseBody a) \<or> \<not> text_column (at_Error a)
        then Inl (ErrText ''invalid byte sequence for encoding UTF8'')
      else if at_Generation a \<le> 0 then Inl (ErrText ''delivery_attempts_generation_positive'')
      else if \<not> has_row (\<lambda>d. dl_ID d = at_DeliveryID a \<and> dl_EventID d = at_EventID a
                         \<and> dl_SubscriptionID d = at_SubscriptionID a) (deliveries s)
        then Inl (ErrText ''delivery_attempts_delivery_fk'')
      else Inr (s\<lparr>delivery_attempts := delivery_attempts s
                    @ [a\<lparr>at_ID := attempts_seq s, at_CreatedAt := timestamptz now\<rparr>],
                  attempts_seq := attempts_seq s + 1\<rparr>))"

subsection \<open>Transactions\<close>

datatype stage =
    Begin
  | InsertEvent
  | InsertDelivery nat
  | InsertAttempt nat
  | SelectDelivery
  | SelectDeliveries
  | UpdateDelivery
  | UpdateEvent
  | Query
  | Scan
  | Commit
  | CommitAck

type_synonym faults = "stage \<Rightarrow> string option"

text \<open>A statement that the driver may refuse.\<close>

definition exec :: "string option \<Rightarrow> error + 'a \<Rightarrow> error + 'a" where
  "exec f r = (case f of Some m \<Rightarrow> Inl (ErrText m) | None \<Rightarrow> r)"

text \<open>A rollback undoes everything but the values a sequence has handed out.\<close>

definition rollback :: "db \<Rightarrow> db \<Rightarrow> db" where
  "rollback s s' = s\<lparr>attempts_seq := attempts_seq s'\<rparr>"

definition commit :: "faults \<Rightarrow> string \<Rightarrow> db \<Rightarrow> db \<Rightarrow> 'a \<Rightarrow> (error + 'a) \<times> db" where
  "commit flt what s s' result =
     (case flt Commit of
        Some m \<Rightarrow> (Inl (ErrWrap what (ErrText m)), rollback s s')
      | None \<Rightarrow>
          (case flt CommitAck of
             Some m \<Rightarrow> (Inl (ErrWrap what (ErrText m)), s')
           | None \<Rightarrow> (Inr result, s')))"

subsection \<open>Invariant\<close>

definition keys_ok :: "db \<Rightarrow> bool" where
  "keys_ok s \<longleftrightarrow>
     key_unique ev_ID (events s) \<and> key_unique sub_ID (subscriptions s)
     \<and> key_unique dl_ID (deliveries s)
     \<and> key_unique (\<lambda>d. (dl_EventID d, dl_SubscriptionID d)) (deliveries s)
     \<and> key_unique at_ID (delivery_attempts s)
     \<and> (\<forall>a \<in> set (delivery_attempts s). at_ID a < attempts_seq s)"

definition attempt_of :: "DeliveryAttempt \<Rightarrow> Delivery \<Rightarrow> bool" where
  "attempt_of a d \<longleftrightarrow>
     dl_ID d = at_DeliveryID a \<and> dl_EventID d = at_EventID a
     \<and> dl_SubscriptionID d = at_SubscriptionID a"

definition refs_ok :: "db \<Rightarrow> bool" where
  "refs_ok s \<longleftrightarrow>
     (\<forall>d \<in> set (deliveries s). has_row (\<lambda>e. ev_ID e = dl_EventID d) (events s)
        \<and> has_row (\<lambda>u. sub_ID u = dl_SubscriptionID d) (subscriptions s))
     \<and> (\<forall>a \<in> set (delivery_attempts s). has_row (attempt_of a) (deliveries s))"

text \<open>
  The state discipline of a delivery row: exactly the rows being processed carry a claim, a
  scheduled row has a time, a terminal row has none, a delivered row says when.
\<close>

definition row_ok :: "Delivery \<Rightarrow> bool" where
  "row_ok d \<longleftrightarrow>
     (dl_Status d = DeliveryStatusProcessing \<longleftrightarrow> dl_ProcessingOwner d \<noteq> None)
     \<and> (dl_Status d = DeliveryStatusProcessing \<longleftrightarrow> dl_ProcessingDeadline d \<noteq> None)
     \<and> (dl_Status d \<in> {DeliveryStatusRetrying, DeliveryStatusThrottled} \<longrightarrow> dl_NextAttemptAt d \<noteq> None)
     \<and> (dl_Status d \<in> {DeliveryStatusDelivered, DeliveryStatusFailed} \<longrightarrow> dl_NextAttemptAt d = None)
     \<and> (dl_Status d = DeliveryStatusDelivered \<longrightarrow> dl_DeliveredAt d \<noteq> None)
     \<and> 0 < dl_Generation d"

definition db_ok :: "db \<Rightarrow> bool" where
  "db_ok s \<longleftrightarrow> keys_ok s \<and> refs_ok s \<and> (\<forall>d \<in> set (deliveries s). row_ok d)"

lemma db_ok_keys:
  assumes "db_ok s"
  shows "key_unique ev_ID (events s)" "key_unique sub_ID (subscriptions s)"
    "key_unique dl_ID (deliveries s)" "key_unique at_ID (delivery_attempts s)"
  using assms by (simp_all add: db_ok_def keys_ok_def)

lemma db_ok_event_of:
  assumes "db_ok s" "d \<in> set (deliveries s)"
  obtains e where "e \<in> set (events s)" "ev_ID e = dl_EventID d"
  using assms unfolding db_ok_def refs_ok_def has_row_def by blast

lemma db_ok_delivery_of:
  assumes "db_ok s" "a \<in> set (delivery_attempts s)"
  obtains d where "d \<in> set (deliveries s)" "attempt_of a d"
  using assms unfolding db_ok_def refs_ok_def has_row_def by blast

subsection \<open>Facts about columns and inserts\<close>

lemma timestamptz_idem [simp]: "timestamptz (timestamptz t) = timestamptz t"
  by (simp add: timestamptz_def mod_diff_eq [symmetric])

lemma timestamptz_micro [simp]: "timestamptz (timestamptz t + 1000 * n) = timestamptz t + 1000 * n"
  by (simp add: timestamptz_def mod_diff_eq [symmetric])

lemma timestamptz_le: "timestamptz t \<le> t" "t < timestamptz t + 1000"
  by (simp_all add: timestamptz_def)

lemma event_columns_simps [simp]:
  "ev_ID (event_columns e) = ev_ID e" "ev_Status (event_columns e) = ev_Status e"
  "ev_Attempts (event_columns e) = ev_Attempts e" "ev_LastError (event_columns e) = ev_LastError e"
  "ev_Data (event_columns e) = ev_Data e" "ev_Type (event_columns e) = ev_Type e"
  "ev_Source (event_columns e) = ev_Source e" "ev_MaxAttempts (event_columns e) = ev_MaxAttempts e"
  by (simp_all add: event_columns_def)

lemma delivery_columns_simps [simp]:
  "dl_ID (delivery_columns d) = dl_ID d" "dl_EventID (delivery_columns d) = dl_EventID d"
  "dl_SubscriptionID (delivery_columns d) = dl_SubscriptionID d"
  "dl_Status (delivery_columns d) = dl_Status d" "dl_Attempts (delivery_columns d) = dl_Attempts d"
  "dl_MaxAttempts (delivery_columns d) = dl_MaxAttempts d"
  "dl_Generation (delivery_columns d) = dl_Generation d"
  "dl_ProcessingOwner (delivery_columns d) = dl_ProcessingOwner d"
  "dl_SubscriptionURL (delivery_columns d) = dl_SubscriptionURL d"
  "dl_SubscriptionSecret (delivery_columns d) = dl_SubscriptionSecret d"
  "dl_MaxDeliveryRate (delivery_columns d) = dl_MaxDeliveryRate d"
  "dl_Data (delivery_columns d) = dl_Data d" "dl_EventType (delivery_columns d) = dl_EventType d"
  "dl_Source (delivery_columns d) = dl_Source d"
  by (simp_all add: delivery_columns_def)

lemma row_ok_columns [simp]: "row_ok (delivery_columns d) \<longleftrightarrow> row_ok d"
  by (simp add: row_ok_def delivery_columns_def)

lemma row_ok_NewDelivery [simp]: "row_ok (NewDelivery now e u)"
  by (simp add: row_ok_def NewDelivery_def)

lemma exec_simps [simp]: "exec None r = r" "exec (Some m) r = Inl (ErrText m)"
  by (simp_all add: exec_def)

lemma exec_Inr [simp]: "exec f r = Inr x \<longleftrightarrow> f = None \<and> r = Inr x"
  by (simp add: exec_def split: option.split)

lemma rollback_simps [simp]:
  "events (rollback s s') = events s" "subscriptions (rollback s s') = subscriptions s"
  "deliveries (rollback s s') = deliveries s"
  "delivery_attempts (rollback s s') = delivery_attempts s"
  "attempts_seq (rollback s s') = attempts_seq s'"
  by (simp_all add: rollback_def)

lemma commit_cases:
  assumes "commit flt what s s' x = (r, t)"
  obtains (committed) "r = Inr x" "t = s'"
  | (unacknowledged) e where "r = Inl e" "t = s'" "flt CommitAck \<noteq> None"
  | (rolled_back) e where "r = Inl e" "t = rollback s s'"
  using assms by (auto simp: commit_def split: option.splits)

lemma insert_event_ok [keeps]:
  assumes "db_ok s" "insert_event e s = Inr s'"
  shows "db_ok s'"
  using assms
  by (auto simp: insert_event_def db_ok_def keys_ok_def refs_ok_def key_unique_snoc split: if_splits)

lemma insert_delivery_ok [keeps]:
  assumes "db_ok s" "row_ok d" "insert_delivery d s = Inr s'"
  shows "db_ok s'"
  using assms
  by (auto simp: insert_delivery_def db_ok_def keys_ok_def refs_ok_def key_unique_snoc split: if_splits)

lemma attempt_of_serial [simp]: "attempt_of (a\<lparr>at_ID := i, at_CreatedAt := t\<rparr>) = attempt_of a"
  by (rule ext) (simp add: attempt_of_def)

lemma insert_attempt_ok [keeps]:
  assumes "db_ok s" "insert_attempt now a s = Inr s'"
  shows "db_ok s'"
proof -
  from assms(2) have fk: "has_row (attempt_of a) (deliveries s)"
    and s': "s' = s\<lparr>delivery_attempts := delivery_attempts s
              @ [a\<lparr>at_ID := attempts_seq s, at_CreatedAt := timestamptz now\<rparr>],
            attempts_seq := attempts_seq s + 1\<rparr>"
    by (auto simp: insert_attempt_def has_row_def attempt_of_def split: if_splits)
  have "\<not> has_row (\<lambda>q. at_ID q = attempts_seq s) (delivery_attempts s)"
    using assms(1) by (auto simp: db_ok_def keys_ok_def has_row_def)
  with assms(1) fk show ?thesis
    unfolding s' by (auto simp: db_ok_def keys_ok_def refs_ok_def key_unique_snoc)
qed

lemma db_ok_rollback [keeps]:
  "db_ok s \<Longrightarrow> attempts_seq s \<le> attempts_seq s' \<Longrightarrow> db_ok (rollback s s')"
  by (force simp: db_ok_def keys_ok_def refs_ok_def)

lemma insert_seq:
  "insert_event e s = Inr s' \<Longrightarrow> attempts_seq s' = attempts_seq s"
  "insert_delivery d s = Inr s' \<Longrightarrow> attempts_seq s' = attempts_seq s"
  "insert_attempt now a s = Inr s' \<Longrightarrow> attempts_seq s' = attempts_seq s + 1"
  by (auto simp: insert_event_def insert_delivery_def insert_attempt_def split: if_splits)

subsection \<open>A small database\<close>

text \<open>One subscription, one event and its delivery, on which the theorems are instantiated.\<close>

definition sample_sub :: Subscription where
  "sample_sub = \<lparr>sub_ID = ''sub_1'', sub_URL = ''http://receiver/hook'', sub_EventTypes = [''order.*''],
     sub_Secret = Some ''s3cret'', sub_MaxDeliveryRate = 100, sub_CreatedAt = 1000, sub_Active = True\<rparr>"

definition sample_event :: Event where
  "sample_event = \<lparr>ev_ID = ''evt_1'', ev_Type = ''order.created'', ev_Source = ''billing'',
     ev_Data = ''{}'', ev_Status = EventStatusPending, ev_Attempts = 0, ev_MaxAttempts = 5,
     ev_NextAttemptAt = None, ev_LastError = None, ev_CreatedAt = 2000, ev_UpdatedAt = 2000,
     ev_DeliveredAt = None\<rparr>"

definition sample_row :: Delivery where
  "sample_row = NewDelivery 3000 sample_event sample_sub"

definition sample_db :: "Delivery list \<Rightarrow> db" where
  "sample_db rows = \<lparr>events = [sample_event], subscriptions = [sample_sub], deliveries = rows,
     delivery_attempts = [], attempts_seq = 1\<rparr>"

text \<open>The delivery under a claim and after a final failure.\<close>

definition sample_claimed :: Delivery where
  "sample_claimed = MarkAsProcessing 4000 ''worker-1'' 9000 sample_row"

definition sample_failed :: Delivery where
  "sample_failed = MarkAsFailed 8000 ''max attempts reached'' sample_row"

lemmas sample_defs = sample_sub_def sample_event_def sample_row_def sample_db_def sample_claimed_def
  sample_failed_def NewDelivery_def DeliveryID_def EffectiveRatePolicy_def
  MarkAsProcessing_def MarkAsFailed_def

lemma sample_texts [simp]: "pg_text ''evt_1''" "pg_text ''order.created''" "pg_text ''billing''" "pg_text ''evt_1:sub_1''"
  "pg_text ''sub_1''" "pg_text ''http://receiver/hook''" "pg_text ''s3cret''"
  by code_simp+

lemma sample_db_ok: "db_ok (sample_db [sample_row])" "db_ok (sample_db [sample_claimed])"
  "db_ok (sample_db [sample_failed])" "db_ok (sample_db [])"
  by (simp_all add: sample_defs db_ok_def keys_ok_def refs_ok_def row_ok_def key_unique_def)

end
