(* ===== verification/Event_Repository.thy ===== *)
theory Event_Repository
  imports Pg_Schema
begin

text \<open>
  \<^verbatim>\<open>internal/repository/postgres/event.go\<close>: the event repository.  Every method is a
  function of the driver errors \<open>flt\<close>, the clock readings it takes (\<open>now\<close> of the database
  for \<open>NOW()\<close>, \<open>nows i\<close> for the \<open>i\<close>-th \<open>time.Now()\<close> of the Go code) and the database, and
  returns the method's result with the database after it.

  The lemmas show that every method keeps \<open>db_ok\<close>, that an error leaves either the old
  tables or the whole transaction, what a claim takes, that an outcome is written only for
  the exact claim, and that the event row then equals the projection of its deliveries.
\<close>

subsection \<open>Reading\<close>

definition GetByID :: "faults \<Rightarrow> string \<Rightarrow> db \<Rightarrow> error + Event" where
  "GetByID flt i s =
     (case flt Query of Some m \<Rightarrow> Inl (ErrText m)
      | None \<Rightarrow> (case List.find (\<lambda>e. ev_ID e = i) (events s) of
                  None \<Rightarrow> Inl ErrNotFound | Some e \<Rightarrow> Inr e))"

text \<open>\<open>SELECT ... FROM deliveries WHERE event_id = $1 ORDER BY created_at, id\<close>\<close>

definition deliveries_of :: "string \<Rightarrow> db \<Rightarrow> Delivery list" where
  "deliveries_of eventID s =
     sort_key (\<lambda>d. (dl_CreatedAt d, dl_ID d)) (filter (\<lambda>d. dl_EventID d = eventID) (deliveries s))"

definition getDeliveriesByEventID :: "faults \<Rightarrow> string \<Rightarrow> db \<Rightarrow> error + Delivery list" where
  "getDeliveriesByEventID flt eventID s = exec (flt SelectDeliveries) (Inr (deliveries_of eventID s))"

definition GetDeliveriesByEventID :: "faults \<Rightarrow> string \<Rightarrow> db \<Rightarrow> error + Delivery list" where
  "GetDeliveriesByEventID flt eventID s = getDeliveriesByEventID flt eventID s"

definition GetAttemptsByEventID :: "faults \<Rightarrow> string \<Rightarrow> db \<Rightarrow> error + DeliveryAttempt list" where
  "GetAttemptsByEventID flt eventID s =
     exec (flt Query)
       (Inr (sort_key (\<lambda>a. (at_Generation a, at_AttemptNumber a, at_ID a))
               (filter (\<lambda>a. at_EventID a = eventID) (delivery_attempts s))))"

subsection \<open>Initializing deliveries\<close>

definition prepare_event :: "time \<Rightarrow> Event \<Rightarrow> Event" where
  "prepare_event now event =
     (let event = (if IsZero (ev_CreatedAt event) then event\<lparr>ev_CreatedAt := now\<rparr> else event);
          event = (if IsZero (ev_UpdatedAt event)
                   then event\<lparr>ev_UpdatedAt := ev_CreatedAt event\<rparr> else event)
      in if ev_MaxAttempts event = 0 then event\<lparr>ev_MaxAttempts := 5\<rparr> else event)"

text \<open>The row of the event: without subscriptions it is delivered at once.\<close>

definition initial_event :: "time \<Rightarrow> Event \<Rightarrow> Subscription option list \<Rightarrow> Event" where
  "initial_event now event subs =
     (if length subs = 0 then
        event\<lparr>ev_Status := EventStatusDelivered,
              ev_DeliveredAt := (case ev_DeliveredAt event of None \<Rightarrow> Some now | Some t \<Rightarrow> Some t)\<rparr>
      else if ev_Status event = EventStatusEmpty then event\<lparr>ev_Status := EventStatusPending\<rparr>
      else event)"

fun insert_deliveries ::
  "faults \<Rightarrow> (nat \<Rightarrow> time) \<Rightarrow> nat \<Rightarrow> Event \<Rightarrow> Subscription option list \<Rightarrow> db \<Rightarrow> error + db" where
  "insert_deliveries flt nows i event [] s = Inr s"
| "insert_deliveries flt nows i event (None # subs) s = insert_deliveries flt nows (Suc i) event subs s"
| "insert_deliveries flt nows i event (Some sub # subs) s =
     (let delivery = NewDelivery (nows (Suc i)) event sub
      in case exec (flt (InsertDelivery i)) (insert_delivery delivery s) of
           Inl e \<Rightarrow> Inl (ErrWrap (''insert delivery '' @ dl_ID delivery) e)
         | Inr s' \<Rightarrow> insert_deliveries flt nows (Suc i) event subs s')"

definition InitializeEventDeliveries ::
  "faults \<Rightarrow> (nat \<Rightarrow> time) \<Rightarrow> Event option \<Rightarrow> Subscription option list \<Rightarrow> db
     \<Rightarrow> (error + Delivery list) \<times> db" where
  "InitializeEventDeliveries flt nows event subs s =
     (case event of
        None \<Rightarrow> (Inl (ErrText ''initialize deliveries: event is nil''), s)
      | Some e0 \<Rightarrow>
          (case flt Begin of
             Some m \<Rightarrow> (Inl (ErrWrap ''begin delivery initialization'' (ErrText m)), s)
           | None \<Rightarrow>
               (let now = nows 0; e = prepare_event now e0
                in case exec (flt InsertEvent) (insert_event (initial_event now e subs) s) of
                     Inl err \<Rightarrow> (Inl (ErrWrap ''insert event for deliveries'' err), s)
                   | Inr s1 \<Rightarrow>
                       (case insert_deliveries flt nows 0 e subs s1 of
                          Inl err \<Rightarrow> (Inl err, s)
                        | Inr s2 \<Rightarrow>
                            (case getDeliveriesByEventID flt (ev_ID e) s2 of
                               Inl err \<Rightarrow> (Inl err, s)
                             | Inr ds \<Rightarrow>
                                 commit flt ''commit delivery initialization'' s s2 ds)))))"

subsection \<open>Claiming\<close>

record ClaimedDelivery =
  cd_Delivery :: Delivery
  cd_Reclaimed :: bool

text \<open>Whole microseconds of an \<open>interval\<close> literal; a positive duration is never zero.\<close>

definition postgresInterval :: "Duration \<Rightarrow> int" where
  "postgresInterval d =
     (let microseconds = Microseconds d
      in if d > 0 \<and> microseconds = 0 then 1 else microseconds)"

text \<open>\<open>x \<le> NOW()\<close> is not true of a null \<open>x\<close>.\<close>

definition due :: "time option \<Rightarrow> time \<Rightarrow> bool" where
  "due x now = (case x of None \<Rightarrow> False | Some t \<Rightarrow> t \<le> now)"

definition claimable :: "time \<Rightarrow> Delivery \<Rightarrow> bool" where
  "claimable now d =
     (case dl_Status d of
        DeliveryStatusPending \<Rightarrow> True
      | DeliveryStatusRetrying \<Rightarrow> due (dl_NextAttemptAt d) now
      | DeliveryStatusThrottled \<Rightarrow> due (dl_NextAttemptAt d) now
      | DeliveryStatusProcessing \<Rightarrow> due (dl_ProcessingDeadline d) now
      | DeliveryStatusDelivered \<Rightarrow> False
      | DeliveryStatusFailed \<Rightarrow> False)"

text \<open>\<open>COALESCE(next_attempt_at, processing_deadline, created_at)\<close>\<close>

definition claim_order :: "Delivery \<Rightarrow> time" where
  "claim_order d =
     (case dl_NextAttemptAt d of Some t \<Rightarrow> t
      | None \<Rightarrow> (case dl_ProcessingDeadline d of Some t \<Rightarrow> t | None \<Rightarrow> dl_CreatedAt d))"

definition claim_row :: "string \<Rightarrow> Duration \<Rightarrow> time \<Rightarrow> Delivery \<Rightarrow> Delivery" where
  "claim_row owner lease now d =
     d\<lparr>dl_Status := DeliveryStatusProcessing,
       dl_ProcessingOwner := Some owner,
       dl_ProcessingDeadline := Some (now + 1000 * postgresInterval lease),
       dl_UpdatedAt := now\<rparr>"

text \<open>
  \<open>UPDATE deliveries ... FROM candidates WHERE delivery.id = candidates.id RETURNING ...\<close>: the
  rows are returned as updated, with the flag whether they were being processed before.
\<close>

definition claim_candidates ::
  "Delivery list \<Rightarrow> string \<Rightarrow> Duration \<Rightarrow> time \<Rightarrow> db \<Rightarrow> ClaimedDelivery list \<times> db" where
  "claim_candidates candidates owner lease now s =
     (let chosen = (\<lambda>d. dl_ID d \<in> set (map dl_ID candidates))
      in (map (\<lambda>d. \<lparr>cd_Delivery = claim_row owner lease now d,
                    cd_Reclaimed = (dl_Status d = DeliveryStatusProcessing)\<rparr>)
            (filter chosen (deliveries s)),
          s\<lparr>deliveries := update_where chosen (claim_row owner lease now) (deliveries s)\<rparr>))"

text \<open>
  A statement outside a transaction block commits by itself: an error while its rows are read
  (\<open>Scan\<close>) leaves them claimed.
\<close>

definition claim_result ::
  "faults \<Rightarrow> ClaimedDelivery list \<times> db \<Rightarrow> (error + ClaimedDelivery list) \<times> db" where
  "claim_result flt r = (exec (flt Scan) (Inr (fst r)), snd r)"

text \<open>\<open>locked\<close> is the set of rows other transactions hold a lock on, which the claim skips.\<close>

definition ClaimDeliveries ::
  "faults \<Rightarrow> time \<Rightarrow> string set \<Rightarrow> string \<Rightarrow> Duration \<Rightarrow> int \<Rightarrow> db
     \<Rightarrow> (error + ClaimedDelivery list) \<times> db" where
  "ClaimDeliveries flt now locked owner lease limit s =
     (case flt Query of
        Some m \<Rightarrow> (Inl (ErrText m), s)
      | None \<Rightarrow>
          if limit < 0 then (Inl (ErrText ''LIMIT must not be negative''), s)
          else
            (let now = timestamptz now;
                 candidates = order_limit (\<lambda>d. (claim_order d, dl_CreatedAt d)) (nat limit)
                   (filter (\<lambda>d. claimable now d \<and> dl_ID d \<notin> locked) (deliveries s))
             in claim_result flt (claim_candidates candidates owner lease now s)))"

definition ClaimEventDeliveries ::
  "faults \<Rightarrow> time \<Rightarrow> string set \<Rightarrow> string list \<Rightarrow> string \<Rightarrow> Duration \<Rightarrow> int \<Rightarrow> db
     \<Rightarrow> (error + ClaimedDelivery list) \<times> db" where
  "ClaimEventDeliveries flt now locked eventIDs owner lease limit s =
     (if length eventIDs = 0 \<or> limit \<le> 0 then (Inr [], s)
      else
        (case flt Query of
           Some m \<Rightarrow> (Inl (ErrText m), s)
         | None \<Rightarrow>
            (let now = timestamptz now;
                 candidates =
                   order_limit (\<lambda>d. (dl_EventID d, claim_order d, dl_CreatedAt d)) (nat limit)
                     (filter (\<lambda>d. dl_EventID d \<in> set eventIDs \<and> claimable now d
                                \<and> dl_ID d \<notin> locked) (deliveries s))
             in claim_result flt (claim_candidates candidates owner lease now s))))"

subsection \<open>Persisting an outcome\<close>

definition normalizeDeliveryAttempt :: "Delivery \<Rightarrow> DeliveryAttempt \<Rightarrow> Delivery \<times> DeliveryAttempt" where
  "normalizeDeliveryAttempt d a =
     (let d = (if dl_Generation d \<le> 0 then d\<lparr>dl_Generation := 1\<rparr> else d);
          a = (if at_EventID a = [] then a\<lparr>at_EventID := dl_EventID d\<rparr> else a);
          a = (if at_DeliveryID a = [] then a\<lparr>at_DeliveryID := dl_ID d\<rparr> else a);
          a = (if at_SubscriptionID a = [] then a\<lparr>at_SubscriptionID := dl_SubscriptionID d\<rparr> else a);
          a = (if at_Generation a \<le> 0 then a\<lparr>at_Generation := dl_Generation d\<rparr> else a)
      in (d, a))"

text \<open>The loop over the attempts; a failure returns the database as the loop has left it.\<close>

fun insert_attempts ::
  "faults \<Rightarrow> time \<Rightarrow> nat \<Rightarrow> Delivery \<Rightarrow> DeliveryAttempt list \<Rightarrow> db \<Rightarrow> (error + Delivery) \<times> db" where
  "insert_attempts flt now i d [] s = (Inr d, s)"
| "insert_attempts flt now i d (a # as) s =
     (let (d, a) = normalizeDeliveryAttempt d a
      in case exec (flt (InsertAttempt i)) (insert_attempt now a s) of
           Inl e \<Rightarrow> (Inl (ErrWrap (''insert claimed delivery attempt '' @ dl_ID d) e), s)
         | Inr s' \<Rightarrow> insert_attempts flt now (Suc i) d as s')"

definition project_event :: "time \<Rightarrow> EventProjection \<Rightarrow> Event \<Rightarrow> Event" where
  "project_event now p e =
     e\<lparr>ev_Status := pj_Status p, ev_Attempts := pj_Attempts p,
       ev_NextAttemptAt := map_option timestamptz (pj_NextAttemptAt p),
       ev_LastError := pj_LastError p, ev_UpdatedAt := timestamptz now,
       ev_DeliveredAt := map_option timestamptz (pj_DeliveredAt p)\<rparr>"

definition updateEventProjection :: "faults \<Rightarrow> time \<Rightarrow> time \<Rightarrow> string \<Rightarrow> db \<Rightarrow> error + db" where
  "updateEventProjection flt gonow now eventID s =
     (case getDeliveriesByEventID flt eventID s of
        Inl e \<Rightarrow> Inl (ErrWrap (''load deliveries for event projection '' @ eventID) e)
      | Inr ds \<Rightarrow>
          (let p = ProjectEventFromDeliveries gonow (map Some ds)
           in case flt UpdateEvent of
                Some m \<Rightarrow> Inl (ErrWrap (''update event projection '' @ eventID) (ErrText m))
              | None \<Rightarrow>
                  if RowsAffected (\<lambda>e. ev_ID e = eventID) (events s) \<noteq> 1
                  then Inl (ErrWrap (''event projection '' @ eventID) ErrNotFound)
                  else Inr (s\<lparr>events := update_where (\<lambda>e. ev_ID e = eventID)
                                (project_event now p) (events s)\<rparr>)))"

text \<open>The row the fenced \<open>UPDATE\<close> matches, and what it writes.\<close>

definition holds_claim :: "string \<Rightarrow> string \<Rightarrow> time \<Rightarrow> Delivery \<Rightarrow> bool" where
  "holds_claim i owner deadline r \<longleftrightarrow>
     dl_ID r = i \<and> dl_Status r = DeliveryStatusProcessing
     \<and> dl_ProcessingOwner r = Some owner \<and> dl_ProcessingDeadline r = Some (timestamptz deadline)"

definition write_outcome :: "Delivery \<Rightarrow> Delivery \<Rightarrow> Delivery" where
  "write_outcome d r =
     r\<lparr>dl_Status := dl_Status d, dl_Attempts := dl_Attempts d,
       dl_NextAttemptAt := map_option timestamptz (dl_NextAttemptAt d),
       dl_LastError := dl_LastError d,
       dl_ProcessingOwner := None, dl_ProcessingDeadline := None,
       dl_UpdatedAt := timestamptz (dl_UpdatedAt d),
       dl_DeliveredAt := map_option timestamptz (dl_DeliveredAt d)\<rparr>"

definition PersistClaimedDeliveryOutcome ::
  "faults \<Rightarrow> time \<Rightarrow> time \<Rightarrow> Delivery option \<Rightarrow> DeliveryAttempt list \<Rightarrow> db \<Rightarrow> (error + unit) \<times> db" where
  "PersistClaimedDeliveryOutcome flt gonow now delivery attempts s =
     (case delivery of
        None \<Rightarrow> (Inl (ErrWrap ''persist claimed delivery outcome'' ErrClaimLost), s)
      | Some d \<Rightarrow>
         (case (dl_ProcessingOwner d, dl_ProcessingDeadline d) of
            (Some owner, Some deadline) \<Rightarrow>
              (case flt Begin of
                 Some m \<Rightarrow> (Inl (ErrWrap ''begin claimed delivery outcome transaction'' (ErrText m)), s)
               | None \<Rightarrow>
                 (case flt UpdateDelivery of
                    Some m \<Rightarrow> (Inl (ErrWrap (''update claimed delivery '' @ dl_ID d) (ErrText m)), s)
                  | None \<Rightarrow>
                    if RowsAffected (holds_claim (dl_ID d) owner deadline) (deliveries s) \<noteq> 1
                    then (Inl (ErrWrap (''delivery '' @ dl_ID d) ErrClaimLost), s)
                    else
                      (let s1 = s\<lparr>deliveries := update_where (holds_claim (dl_ID d) owner deadline)
                                   (write_outcome d) (deliveries s)\<rparr>
                       in case insert_attempts flt now 0 d attempts s1 of
                            (Inl e, s2) \<Rightarrow> (Inl e, rollback s s2)
                          | (Inr d, s2) \<Rightarrow>
                              (case updateEventProjection flt gonow now (dl_EventID d) s2 of
                                 Inl e \<Rightarrow> (Inl e, rollback s s2)
                               | Inr s3 \<Rightarrow>
                                   commit flt ''commit claimed delivery outcome transaction'' s s3 ()))))
          | _ \<Rightarrow> (Inl (ErrWrap ''persist claimed delivery outcome'' ErrClaimLost), s)))"

subsection \<open>Replay\<close>

definition write_replay :: "Delivery \<Rightarrow> Delivery \<Rightarrow> Delivery" where
  "write_replay d r =
     r\<lparr>dl_Generation := dl_Generation d, dl_Status := dl_Status d, dl_Attempts := dl_Attempts d,
       dl_NextAttemptAt := map_option timestamptz (dl_NextAttemptAt d),
       dl_LastError := dl_LastError d, dl_ProcessingOwner := dl_ProcessingOwner d,
       dl_ProcessingDeadline := map_option timestamptz (dl_ProcessingDeadline d),
       dl_DeliveredAt := map_option timestamptz (dl_DeliveredAt d),
       dl_UpdatedAt := timestamptz (dl_UpdatedAt d)\<rparr>"

definition ReplayFailedDelivery ::
  "faults \<Rightarrow> time \<Rightarrow> time \<Rightarrow> string \<Rightarrow> time \<Rightarrow> db \<Rightarrow> (error + Delivery) \<times> db" where
  "ReplayFailedDelivery flt gonow now i scheduledAt s =
     (case flt Begin of
        Some m \<Rightarrow> (Inl (ErrWrap ''begin replay transaction'' (ErrText m)), s)
      | None \<Rightarrow>
        (case flt SelectDelivery of
           Some m \<Rightarrow> (Inl (ErrWrap (''lock delivery for replay '' @ i) (ErrText m)), s)
         | None \<Rightarrow>
           (case List.find (\<lambda>d. dl_ID d = i) (deliveries s) of
              None \<Rightarrow> (Inl ErrNotFound, s)
            | Some row \<Rightarrow>
              (case ScheduleReplay scheduledAt row of
                 Inl e \<Rightarrow> (Inl e, s)
               | Inr d \<Rightarrow>
                 (case flt UpdateDelivery of
                    Some m \<Rightarrow> (Inl (ErrWrap (''schedule replay '' @ i) (ErrText m)), s)
                  | None \<Rightarrow>
                    (let P = (\<lambda>r. dl_ID r = i \<and> dl_Status r = DeliveryStatusFailed)
                     in if RowsAffected P (deliveries s) \<noteq> 1 then (Inl ErrReplayNotEligible, s)
                        else
                          (let s1 = s\<lparr>deliveries := update_where P (write_replay d) (deliveries s)\<rparr>
                           in case updateEventProjection flt gonow now (dl_EventID d) s1 of
                                Inl e \<Rightarrow> (Inl e, s)
                              | Inr s2 \<Rightarrow> commit flt ''commit replay transaction'' s s2 d)))))))"

subsection \<open>Backlog\<close>

record RetryBacklogStats =
  bs_DueCount :: nat
  bs_OldestDueAt :: "time option"
  bs_ExpiredProcessingCount :: nat
  bs_LeasedCount :: nat

definition retry_due :: "time \<Rightarrow> Delivery \<Rightarrow> bool" where
  "retry_due now d \<longleftrightarrow>
     dl_Status d \<in> {DeliveryStatusRetrying, DeliveryStatusThrottled} \<and> due (dl_NextAttemptAt d) now"

definition lease_expired :: "time \<Rightarrow> Delivery \<Rightarrow> bool" where
  "lease_expired now d \<longleftrightarrow>
     dl_Status d = DeliveryStatusProcessing \<and> due (dl_ProcessingDeadline d) now"

definition leased :: "time \<Rightarrow> Delivery \<Rightarrow> bool" where
  "leased now d \<longleftrightarrow>
     dl_Status d = DeliveryStatusProcessing
     \<and> (case dl_ProcessingDeadline d of None \<Rightarrow> False | Some t \<Rightarrow> t > now)"

definition GetRetryBacklogStats :: "faults \<Rightarrow> time \<Rightarrow> db \<Rightarrow> error + RetryBacklogStats" where
  "GetRetryBacklogStats flt now s =
     (case flt Query of
        Some m \<Rightarrow> Inl (ErrWrap ''get retry backlog stats'' (ErrText m))
      | None \<Rightarrow>
          (let now = timestamptz now;
               rows = filter (\<lambda>d. dl_Status d \<in> {DeliveryStatusRetrying, DeliveryStatusThrottled,
                                    DeliveryStatusProcessing}) (deliveries s)
           in Inr \<lparr>bs_DueCount = RowsAffected (retry_due now) rows,
                   bs_OldestDueAt =
                     least_some (map (\<lambda>d. if retry_due now d then dl_NextAttemptAt d
                                          else if lease_expired now d then dl_ProcessingDeadline d
                                          else None) rows),
                   bs_ExpiredProcessingCount = RowsAffected (lease_expired now) rows,
                   bs_LeasedCount = RowsAffected (leased now) rows\<rparr>))"


subsection \<open>Lemmas: reading\<close>

lemma set_deliveries_of [simp]:
  "set (deliveries_of i s) = {d \<in> set (deliveries s). dl_EventID d = i}"
  by (auto simp: deliveries_of_def)

lemma deliveries_of_cong: "deliveries s = deliveries t \<Longrightarrow> deliveries_of i s = deliveries_of i t"
  by (simp add: deliveries_of_def)

lemma getDeliveries_Inr [simp]:
  "getDeliveriesByEventID flt i s = Inr ds \<longleftrightarrow> flt SelectDeliveries = None \<and> ds = deliveries_of i s"
  by (auto simp: getDeliveriesByEventID_def)

subsection \<open>Lemmas: initialization\<close>

lemma prepare_event_simps [simp]:
  "ev_ID (prepare_event now e) = ev_ID e" "ev_Data (prepare_event now e) = ev_Data e"
  "ev_Attempts (prepare_event now e) = ev_Attempts e" "ev_Type (prepare_event now e) = ev_Type e"
  "ev_Source (prepare_event now e) = ev_Source e" "ev_LastError (prepare_event now e) = ev_LastError e"
  "pg_int (ev_MaxAttempts (prepare_event now e)) = pg_int (ev_MaxAttempts e)"
  by (simp_all add: prepare_event_def Let_def pg_int_def)

lemma initial_event_simps [simp]:
  "ev_ID (initial_event now e subs) = ev_ID e" "ev_Data (initial_event now e subs) = ev_Data e"
  "ev_Type (initial_event now e subs) = ev_Type e" "ev_Source (initial_event now e subs) = ev_Source e"
  "ev_LastError (initial_event now e subs) = ev_LastError e"
  "ev_Attempts (initial_event now e subs) = ev_Attempts e"
  "ev_MaxAttempts (initial_event now e subs) = ev_MaxAttempts e"
  by (simp_all add: initial_event_def)

text \<open>What inserting a delivery does to the tables.\<close>

lemma insert_delivery_cases:
  assumes "insert_delivery d s = Inr s'"
  obtains (present) r where "r \<in> set (deliveries s)" "dl_EventID r = dl_EventID d"
      "dl_SubscriptionID r = dl_SubscriptionID d" "s' = s"
  | (inserted) "s' = s\<lparr>deliveries := deliveries s @ [delivery_columns d]\<rparr>"
      "\<not> has_row (\<lambda>r. dl_EventID r = dl_EventID d \<and> dl_SubscriptionID r = dl_SubscriptionID d) (deliveries s)"
proof (cases "has_row (\<lambda>r. dl_EventID r = dl_EventID d \<and> dl_SubscriptionID r = dl_SubscriptionID d)
    (deliveries s)")
  case True
  with assms have "s' = s" by (simp add: insert_delivery_def split: if_splits)
  with True show ?thesis using present by (auto simp: has_row_def)
next
  case False
  with assms have "s' = s\<lparr>deliveries := deliveries s @ [delivery_columns d]\<rparr>"
    by (simp add: insert_delivery_def split: if_splits)
  with False show ?thesis using inserted by blast
qed

lemma insert_deliveries_step:
  assumes "insert_deliveries flt nows i e (Some u # subs) s = Inr s'"
  obtains s1 where "insert_delivery (NewDelivery (nows (Suc i)) e u) s = Inr s1"
    "insert_deliveries flt nows (Suc i) e subs s1 = Inr s'"
    "exec (flt (InsertDelivery i)) (insert_delivery (NewDelivery (nows (Suc i)) e u) s) = Inr s1"
proof (cases "exec (flt (InsertDelivery i)) (insert_delivery (NewDelivery (nows (Suc i)) e u) s)")
  case (Inl err)
  then show ?thesis using assms by (simp add: Let_def)
next
  case (Inr s1)
  then show ?thesis using assms that [of s1] by (simp add: Let_def)
qed

lemma insert_deliveries_ok [keeps]:
  assumes "db_ok s" "insert_deliveries flt nows i e subs s = Inr s'"
  shows "db_ok s'"
  using assms
proof (induction flt nows i e subs s rule: insert_deliveries.induct)
  case (3 flt nows i event sub subs s)
  from "3.prems"(2) show ?case
  proof (rule insert_deliveries_step)
    fix s1
    assume "insert_delivery (NewDelivery (nows (Suc i)) event sub) s = Inr s1"
      and rest: "insert_deliveries flt nows (Suc i) event subs s1 = Inr s'"
      and x: "exec (flt (InsertDelivery i))
        (insert_delivery (NewDelivery (nows (Suc i)) event sub) s) = Inr s1"
    then have "db_ok s1" using "3.prems"(1) insert_delivery_ok row_ok_NewDelivery by blast
    with "3.IH" [OF refl x] rest show ?thesis by simp
  qed
qed simp_all

text \<open>
  Initialization only adds delivery rows, only fresh ones of this event, and covers every
  subscription it was given.
\<close>

definition fresh_rows :: "Event \<Rightarrow> Subscription option list \<Rightarrow> Delivery set" where
  "fresh_rows e subs = {delivery_columns (NewDelivery now e u) | now u. Some u \<in> set subs}"

lemma fresh_rows_pending:
  "r \<in> fresh_rows e subs \<Longrightarrow> dl_Status r = DeliveryStatusPending \<and> dl_Attempts r = ev_Attempts e"
  by (auto simp: fresh_rows_def delivery_columns_def NewDelivery_def)

definition covers :: "string \<Rightarrow> Subscription option list \<Rightarrow> Delivery list \<Rightarrow> bool" where
  "covers i subs ds \<longleftrightarrow>
     (\<forall>u. Some u \<in> set subs \<longrightarrow>
        has_row (\<lambda>d. dl_EventID d = i \<and> dl_SubscriptionID d = sub_ID u) ds)"

lemma insert_delivery_new:
  assumes "insert_delivery (NewDelivery now e u) s = Inr s'"
  shows "\<exists>new. s' = s\<lparr>deliveries := deliveries s @ new\<rparr> \<and> set new \<subseteq> fresh_rows e [Some u]
           \<and> has_row (\<lambda>d. dl_EventID d = ev_ID e \<and> dl_SubscriptionID d = sub_ID u) (deliveries s')"
  using assms
proof (cases rule: insert_delivery_cases)
  case (present r)
  then show ?thesis
    by (intro exI [of _ "[]"]) (auto simp: has_row_def NewDelivery_def)
next
  case inserted
  then show ?thesis
    by (intro exI [of _ "[delivery_columns (NewDelivery now e u)]"])
       (auto simp: fresh_rows_def NewDelivery_def)
qed

lemma insert_deliveries_rows:
  assumes "insert_deliveries flt nows i e subs s = Inr s'"
  shows "\<exists>new. s' = s\<lparr>deliveries := deliveries s @ new\<rparr> \<and> set new \<subseteq> fresh_rows e subs
           \<and> covers (ev_ID e) subs (deliveries s')"
  using assms
proof (induction flt nows i e subs s rule: insert_deliveries.induct)
  case (1 flt nows i event s)
  then show ?case by (intro exI [of _ "[]"]) (auto simp: covers_def)
next
  case (2 flt nows i event subs s)
  then show ?case by (simp add: covers_def fresh_rows_def)
next
  case (3 flt nows i event sub subs s)
  from "3.prems" show ?case
  proof (rule insert_deliveries_step)
    fix s1
    assume ins: "insert_delivery (NewDelivery (nows (Suc i)) event sub) s = Inr s1"
      and rest: "insert_deliveries flt nows (Suc i) event subs s1 = Inr s'"
      and x: "exec (flt (InsertDelivery i))
        (insert_delivery (NewDelivery (nows (Suc i)) event sub) s) = Inr s1"
    obtain n1 where n1: "s1 = s\<lparr>deliveries := deliveries s @ n1\<rparr>" "set n1 \<subseteq> fresh_rows event [Some sub]"
        "has_row (\<lambda>d. dl_EventID d = ev_ID event \<and> dl_SubscriptionID d = sub_ID sub) (deliveries s1)"
      using insert_delivery_new [OF ins] by blast
    obtain n2 where n2: "s' = s1\<lparr>deliveries := deliveries s1 @ n2\<rparr>" "set n2 \<subseteq> fresh_rows event subs"
        "covers (ev_ID event) subs (deliveries s')"
      using "3.IH" [OF refl x rest] by blast
    have "fresh_rows event [Some sub] \<subseteq> fresh_rows event (Some sub # subs)"
      "fresh_rows event subs \<subseteq> fresh_rows event (Some sub # subs)" by (auto simp: fresh_rows_def)
    with n1 n2 show ?thesis
      by (intro exI [of _ "n1 @ n2"]) (auto simp: covers_def)
  qed
qed

lemma rollback_self [simp]: "rollback s s = s"
  by (simp add: rollback_def)

lemma Initialize_cases:
  assumes "InitializeEventDeliveries flt nows (Some e) subs s = (r, t)"
  obtains (unchanged) err where "r = Inl err" "t = s"
  | (applied) s1 s2 where
      "insert_event (initial_event (nows 0) (prepare_event (nows 0) e) subs) s = Inr s1"
      "insert_deliveries flt nows 0 (prepare_event (nows 0) e) subs s1 = Inr s2"
      "t = s2" "r = Inr (deliveries_of (ev_ID e) s2) \<or> (\<exists>err. r = Inl err)"
proof -
  have "(\<exists>err. r = Inl err) \<and> t = s \<or> (\<exists>s1 s2.
      insert_event (initial_event (nows 0) (prepare_event (nows 0) e) subs) s = Inr s1 \<and>
      insert_deliveries flt nows 0 (prepare_event (nows 0) e) subs s1 = Inr s2 \<and>
      t = s2 \<and> (r = Inr (deliveries_of (ev_ID e) s2) \<or> (\<exists>err. r = Inl err)))"
  proof (cases "exec (flt InsertEvent)
      (insert_event (initial_event (nows 0) (prepare_event (nows 0) e) subs) s)")
    case (Inl err)
    with assms show ?thesis
      by (auto simp: InitializeEventDeliveries_def Let_def split: option.splits)
  next
    case ev: (Inr s1)
    then have seq1: "attempts_seq s1 = attempts_seq s" using insert_seq(1) by auto
    show ?thesis
    proof (cases "insert_deliveries flt nows 0 (prepare_event (nows 0) e) subs s1")
      case (Inl err)
      with ev assms show ?thesis
        by (auto simp: InitializeEventDeliveries_def Let_def split: option.splits)
    next
      case dls: (Inr s2)
      have "rollback s s2 = s"
        using insert_deliveries_rows [OF dls] seq1 by (auto simp: rollback_def)
      with ev dls assms show ?thesis
        by (auto simp: InitializeEventDeliveries_def commit_def Let_def getDeliveriesByEventID_def
            exec_def split: option.splits)
    qed
  qed
  then show ?thesis using that by blast
qed

lemma InitializeEventDeliveries_ok [keeps]:
  assumes "db_ok s" "InitializeEventDeliveries flt nows e subs s = (r, t)"
  shows "db_ok t"
proof (cases e)
  case None
  then show ?thesis using assms by (simp add: InitializeEventDeliveries_def)
next
  case (Some e')
  with assms(2) have "InitializeEventDeliveries flt nows (Some e') subs s = (r, t)" by simp
  then show ?thesis
    by (cases rule: Initialize_cases) (use assms(1) in \<open>auto intro: insert_event_ok insert_deliveries_ok\<close>)
qed


subsection \<open>Lemmas: claiming\<close>

lemma claim_row_simps [simp]:
  "dl_ID (claim_row ow l now d) = dl_ID d" "dl_EventID (claim_row ow l now d) = dl_EventID d"
  "dl_SubscriptionID (claim_row ow l now d) = dl_SubscriptionID d"
  "dl_Status (claim_row ow l now d) = DeliveryStatusProcessing"
  "dl_Attempts (claim_row ow l now d) = dl_Attempts d"
  "dl_MaxAttempts (claim_row ow l now d) = dl_MaxAttempts d"
  "dl_Generation (claim_row ow l now d) = dl_Generation d"
  "dl_ProcessingOwner (claim_row ow l now d) = Some ow"
  "dl_ProcessingDeadline (claim_row ow l now d) = Some (now + 1000 * postgresInterval l)"
  by (simp_all add: claim_row_def)

lemma row_ok_claim_row: "row_ok d \<Longrightarrow> row_ok (claim_row ow l now d)"
  by (simp add: row_ok_def)

text \<open>Selecting rows by the identifiers of some of them selects exactly those.\<close>

lemma chosen_rows:
  assumes "key_unique dl_ID ds" "set cs \<subseteq> set ds"
  shows "d \<in> set ds \<Longrightarrow> dl_ID d \<in> set (map dl_ID cs) \<longleftrightarrow> d \<in> set cs"
  using assms by (auto dest: key_unique_eq)

lemma update_rows_ok:
  assumes "db_ok s"
    and "\<And>d. d \<in> set (deliveries s) \<Longrightarrow> P d \<Longrightarrow> row_ok (f d) \<and> dl_ID (f d) = dl_ID d
           \<and> dl_EventID (f d) = dl_EventID d \<and> dl_SubscriptionID (f d) = dl_SubscriptionID d"
  shows "db_ok (s\<lparr>deliveries := update_where P f (deliveries s)\<rparr>)"
proof -
  have "has_row (attempt_of a) (update_where P f (deliveries s)) = has_row (attempt_of a) (deliveries s)" for a
    using assms(2) by (intro has_row_update_where) (auto simp: attempt_of_def)
  with assms show ?thesis
    by (auto simp: db_ok_def keys_ok_def refs_ok_def set_update_where intro!: key_unique_update_where)
qed

text \<open>What a claim over the candidates \<open>cs\<close> does.\<close>

lemma claim_candidates_spec:
  assumes ok: "db_ok s" and cs: "cs = order_limit key n (filter P (deliveries s))"
    and res: "claim_candidates cs owner lease now s = (res, t)"
  shows "set res = (\<lambda>d. \<lparr>cd_Delivery = claim_row owner lease now d,
                         cd_Reclaimed = (dl_Status d = DeliveryStatusProcessing)\<rparr>) ` set cs"
    and "length res = length cs"
    and "t = s\<lparr>deliveries := update_where (\<lambda>d. d \<in> set cs) (claim_row owner lease now) (deliveries s)\<rparr>"
    and "distinct (map (\<lambda>c. dl_ID (cd_Delivery c)) res)"
    and "db_ok t"
proof -
  let ?by_id = "\<lambda>d. dl_ID d \<in> set (map dl_ID cs)"
  have ku: "key_unique dl_ID (deliveries s)" using ok by (simp add: db_ok_def keys_ok_def)
  have sub: "set cs \<subseteq> set (deliveries s)" using set_order_limit [of key n] cs by fastforce
  have "distinct (map dl_ID (filter P (deliveries s)))"
    using key_unique_filter [OF ku, of P] by (simp add: key_unique_def)
  then have dist: "distinct (map dl_ID cs)" unfolding cs by (rule distinct_order_limit)
  note ch = chosen_rows [OF ku sub]
  have eq: "set (filter ?by_id (deliveries s)) = set cs" using ch sub by auto
  have upd: "update_where ?by_id f (deliveries s) = update_where (\<lambda>d. d \<in> set cs) f (deliveries s)" for f
    unfolding update_where_def by (rule map_cong) (use ch in auto)
  have r: "res = map (\<lambda>d. \<lparr>cd_Delivery = claim_row owner lease now d,
         cd_Reclaimed = (dl_Status d = DeliveryStatusProcessing)\<rparr>) (filter ?by_id (deliveries s))"
    and t: "t = s\<lparr>deliveries := update_where ?by_id (claim_row owner lease now) (deliveries s)\<rparr>"
    using res by (simp_all add: claim_candidates_def Let_def)
  show "set res = (\<lambda>d. \<lparr>cd_Delivery = claim_row owner lease now d,
         cd_Reclaimed = (dl_Status d = DeliveryStatusProcessing)\<rparr>) ` set cs"
    unfolding r by (subst set_map) (simp only: eq)
  have dsel: "distinct (filter ?by_id (deliveries s))"
    using ku by (simp add: key_unique_def distinct_map)
  show "length res = length cs"
    using distinct_card [OF dsel] distinct_card [of cs] dist unfolding r eq
    by (simp add: distinct_map)
  show "t = s\<lparr>deliveries := update_where (\<lambda>d. d \<in> set cs) (claim_row owner lease now) (deliveries s)\<rparr>"
    unfolding t upd ..
  show "distinct (map (\<lambda>c. dl_ID (cd_Delivery c)) res)"
    using key_unique_filter [OF ku, of ?by_id] by (simp add: r key_unique_def comp_def)
  show "db_ok t"
    unfolding t by (rule update_rows_ok [OF ok]) (use ok in \<open>auto simp: db_ok_def row_ok_claim_row\<close>)
qed

lemma ClaimDeliveries_cases:
  assumes "ClaimDeliveries flt now locked owner lease limit s = (r, t)"
  obtains (refused) e where "r = Inl e" "t = s"
  | (claimed) cs res where "0 \<le> limit"
      "cs = order_limit (\<lambda>d. (claim_order d, dl_CreatedAt d)) (nat limit)
         (filter (\<lambda>d. claimable (timestamptz now) d \<and> dl_ID d \<notin> locked) (deliveries s))"
      "claim_candidates cs owner lease (timestamptz now) s = (res, t)"
      "r = Inr res \<or> (\<exists>e. r = Inl e)"
  using assms
  by (auto simp: ClaimDeliveries_def claim_result_def exec_def Let_def prod_eq_iff
      split: option.splits if_splits)

lemma ClaimEventDeliveries_cases:
  assumes "ClaimEventDeliveries flt now locked ids owner lease limit s = (r, t)"
  obtains (nothing) "r = Inr [] \<or> (\<exists>e. r = Inl e)" "t = s"
  | (claimed) cs res where "0 < limit"
      "cs = order_limit (\<lambda>d. (dl_EventID d, claim_order d, dl_CreatedAt d)) (nat limit)
         (filter (\<lambda>d. dl_EventID d \<in> set ids \<and> claimable (timestamptz now) d \<and> dl_ID d \<notin> locked)
           (deliveries s))"
      "claim_candidates cs owner lease (timestamptz now) s = (res, t)"
      "r = Inr res \<or> (\<exists>e. r = Inl e)"
  using assms
  by (auto simp: ClaimEventDeliveries_def claim_result_def exec_def Let_def prod_eq_iff
      split: option.splits if_splits)

lemma ClaimDeliveries_ok [keeps]:
  assumes "db_ok s" "ClaimDeliveries flt now locked owner lease limit s = (r, t)"
  shows "db_ok t"
  using assms(2)
proof (cases rule: ClaimDeliveries_cases)
  case (claimed cs res)
  from claim_candidates_spec(5) [OF assms(1) claimed(2,3)] show ?thesis .
qed (use assms(1) in simp)

lemma ClaimEventDeliveries_ok [keeps]:
  assumes "db_ok s" "ClaimEventDeliveries flt now locked ids owner lease limit s = (r, t)"
  shows "db_ok t"
  using assms(2)
proof (cases rule: ClaimEventDeliveries_cases)
  case (claimed cs res)
  from claim_candidates_spec(5) [OF assms(1) claimed(2,3)] show ?thesis .
qed (use assms(1) in simp)


subsection \<open>Lemmas: persisting an outcome\<close>

lemma normalize_simps [simp]:
  "dl_ID (fst (normalizeDeliveryAttempt d a)) = dl_ID d"
  "dl_EventID (fst (normalizeDeliveryAttempt d a)) = dl_EventID d"
  "at_AttemptNumber (snd (normalizeDeliveryAttempt d a)) = at_AttemptNumber a"
  by (simp_all add: normalizeDeliveryAttempt_def Let_def)

text \<open>The rows the loop over the attempts adds.\<close>

fun attempt_rows :: "time \<Rightarrow> Delivery \<Rightarrow> int \<Rightarrow> DeliveryAttempt list \<Rightarrow> DeliveryAttempt list" where
  "attempt_rows now d q [] = []"
| "attempt_rows now d q (a # as) =
     (snd (normalizeDeliveryAttempt d a))\<lparr>at_ID := q, at_CreatedAt := timestamptz now\<rparr>
     # attempt_rows now (fst (normalizeDeliveryAttempt d a)) (q + 1) as"

lemma length_attempt_rows [simp]: "length (attempt_rows now d q as) = length as"
  by (induction as arbitrary: d q) auto

lemma attempt_rows_observed:
  "map (\<lambda>a. (at_AttemptNumber a, at_StatusCode a, at_ResponseBody a, at_Error a, at_DurationMs a)) (attempt_rows now d q as)
   = map (\<lambda>a. (at_AttemptNumber a, at_StatusCode a, at_ResponseBody a, at_Error a, at_DurationMs a)) as"
  by (induction as arbitrary: d q) (simp_all add: normalizeDeliveryAttempt_def Let_def)

lemma insert_attempts_Cons:
  "insert_attempts flt now i d (a # as) s =
     (case exec (flt (InsertAttempt i)) (insert_attempt now (snd (normalizeDeliveryAttempt d a)) s) of
        Inl e \<Rightarrow> (Inl (ErrWrap (''insert claimed delivery attempt '' @ dl_ID d) e), s)
      | Inr s' \<Rightarrow> insert_attempts flt now (Suc i) (fst (normalizeDeliveryAttempt d a)) as s')"
  by (cases "normalizeDeliveryAttempt d a")
     (use normalize_simps(1) [of d a] in \<open>auto split: sum.split\<close>)

declare insert_attempts.simps(2) [simp del] insert_attempts_Cons [simp]

lemma insert_attempts_Inr:
  assumes "insert_attempts flt now i d as s = (Inr d', s')"
  shows "s' = s\<lparr>delivery_attempts := delivery_attempts s @ attempt_rows now d (attempts_seq s) as,
                 attempts_seq := attempts_seq s + int (length as)\<rparr>"
    and "dl_EventID d' = dl_EventID d"
  using assms
proof (induction as arbitrary: i d s)
  case (Cons a as)
  {
    case 1
    then show ?case using Cons.IH
      by (fastforce simp: insert_attempt_def split: sum.splits if_splits)
  next
    case 2
    then show ?case using Cons.IH by (fastforce split: sum.splits)
  }
qed simp_all

lemma insert_attempts_seq:
  "insert_attempts flt now i d as s = (r, s') \<Longrightarrow> attempts_seq s \<le> attempts_seq s'"
proof (induction as arbitrary: i d s)
  case (Cons a as)
  then show ?case using insert_seq(3) by (fastforce split: sum.splits)
qed simp

lemma insert_attempts_ok [keeps]:
  "insert_attempts flt now i d as s = (r, s') \<Longrightarrow> db_ok s \<Longrightarrow> db_ok s'"
proof (induction as arbitrary: i d s)
  case (Cons a as)
  then show ?case using insert_attempt_ok by (fastforce split: sum.splits)
qed simp

lemma updateEventProjection_Inr:
  assumes "updateEventProjection flt gonow now i s = Inr t"
  shows "t = s\<lparr>events := update_where (\<lambda>e. ev_ID e = i)
     (project_event now (ProjectEventFromDeliveries gonow (map Some (deliveries_of i s)))) (events s)\<rparr>"
  using assms
  by (auto simp: updateEventProjection_def Let_def split: sum.splits option.splits if_splits)

lemma project_event_ID [simp]: "ev_ID (project_event now p e) = ev_ID e"
  by (simp add: project_event_def)

lemma update_events_ok:
  assumes "db_ok s" "\<And>e. ev_ID (f e) = ev_ID e"
  shows "db_ok (s\<lparr>events := update_where P f (events s)\<rparr>)"
  using assms
  by (auto simp: db_ok_def keys_ok_def refs_ok_def has_row_update_where intro!: key_unique_update_where)

lemma filter_other_events:
  "filter (\<lambda>e. ev_ID e \<noteq> i) (update_where (\<lambda>e. ev_ID e = i) (project_event now p) es) = filter (\<lambda>e. ev_ID e \<noteq> i) es"
  by (induction es) auto

text \<open>The effect of a committed outcome on the tables.\<close>

definition outcome_written ::
  "time \<Rightarrow> time \<Rightarrow> Delivery \<Rightarrow> string \<Rightarrow> time \<Rightarrow> DeliveryAttempt list \<Rightarrow> db \<Rightarrow> db \<Rightarrow> bool" where
  "outcome_written gonow now d owner deadline as s t \<longleftrightarrow>
     deliveries t = update_where (holds_claim (dl_ID d) owner deadline) (write_outcome d) (deliveries s)
     \<and> delivery_attempts t = delivery_attempts s @ attempt_rows now d (attempts_seq s) as
     \<and> events t = update_where (\<lambda>e. ev_ID e = dl_EventID d)
         (project_event now (ProjectEventFromDeliveries gonow
            (map Some (deliveries_of (dl_EventID d) t)))) (events s)
     \<and> subscriptions t = subscriptions s
     \<and> attempts_seq t = attempts_seq s + int (length as)"

text \<open>The results a handler may write: an outcome with the fields it needs.\<close>

definition outcome_ok :: "Delivery \<Rightarrow> bool" where
  "outcome_ok d \<longleftrightarrow>
     dl_Status d \<notin> {DeliveryStatusPending, DeliveryStatusProcessing}
     \<and> (dl_Status d \<in> {DeliveryStatusRetrying, DeliveryStatusThrottled} \<longleftrightarrow> dl_NextAttemptAt d \<noteq> None)
     \<and> (dl_Status d = DeliveryStatusDelivered \<longrightarrow> dl_DeliveredAt d \<noteq> None)"

lemma row_ok_write_outcome: "outcome_ok d \<Longrightarrow> row_ok r \<Longrightarrow> row_ok (write_outcome d r)"
  by (cases "dl_Status d") (auto simp: outcome_ok_def row_ok_def write_outcome_def)

lemma write_outcome_simps [simp]:
  "dl_ID (write_outcome d r) = dl_ID r" "dl_EventID (write_outcome d r) = dl_EventID r"
  "dl_SubscriptionID (write_outcome d r) = dl_SubscriptionID r"
  "dl_Status (write_outcome d r) = dl_Status d" "dl_Attempts (write_outcome d r) = dl_Attempts d"
  "dl_Generation (write_outcome d r) = dl_Generation r"
  "dl_MaxAttempts (write_outcome d r) = dl_MaxAttempts r"
  "dl_ProcessingOwner (write_outcome d r) = None" "dl_ProcessingDeadline (write_outcome d r) = None"
  by (simp_all add: write_outcome_def)

text \<open>The transaction before its commit: the fenced update, the attempts, the projection.\<close>

lemma outcome_steps:
  assumes at: "insert_attempts flt now 0 d as (s\<lparr>deliveries :=
       update_where (holds_claim (dl_ID d) owner deadline) (write_outcome d) (deliveries s)\<rparr>) = (Inr d', s2)"
    and pr: "updateEventProjection flt gonow now (dl_EventID d') s2 = Inr s3"
  shows "outcome_written gonow now d owner deadline as s s3"
    and "attempts_seq s3 = attempts_seq s2"
    and "db_ok s \<Longrightarrow> outcome_ok d \<Longrightarrow> db_ok s3"
proof -
  note s3 = updateEventProjection_Inr [OF pr]
  have "deliveries_of i s3 = deliveries_of i s2" for i
    using s3 by (simp add: deliveries_of_def)
  then show "outcome_written gonow now d owner deadline as s s3"
    using s3 insert_attempts_Inr [OF at] by (simp add: outcome_written_def)
  show "attempts_seq s3 = attempts_seq s2" using s3 by simp
  assume ok: "db_ok s" and d: "outcome_ok d"
  have "db_ok (s\<lparr>deliveries := update_where (holds_claim (dl_ID d) owner deadline)
                  (write_outcome d) (deliveries s)\<rparr>)"
    by (rule update_rows_ok [OF ok]) (use ok d in \<open>auto simp: db_ok_def row_ok_write_outcome\<close>)
  then have "db_ok s2" by (rule insert_attempts_ok [OF at])
  then show "db_ok s3" unfolding s3 by (rule update_events_ok) simp
qed

lemma Persist_cases:
  assumes "PersistClaimedDeliveryOutcome flt gonow now (Some d) as s = (r, t)"
  obtains (kept) e s' where "r = Inl e" "t = rollback s s'" "attempts_seq s \<le> attempts_seq s'"
  | (written) owner deadline where
      "dl_ProcessingOwner d = Some owner" "dl_ProcessingDeadline d = Some deadline"
      "RowsAffected (holds_claim (dl_ID d) owner deadline) (deliveries s) = 1"
      "outcome_written gonow now d owner deadline as s t"
      "db_ok s \<Longrightarrow> outcome_ok d \<Longrightarrow> db_ok t"
      "r = Inr () \<or> (\<exists>e. r = Inl e) \<and> flt CommitAck \<noteq> None"
proof (cases "dl_ProcessingOwner d = None \<or> dl_ProcessingDeadline d = None
    \<or> flt Begin \<noteq> None \<or> flt UpdateDelivery \<noteq> None
    \<or> RowsAffected (holds_claim (dl_ID d) (the (dl_ProcessingOwner d)) (the (dl_ProcessingDeadline d)))
        (deliveries s) \<noteq> 1")
  case True
  then have "(\<exists>e. r = Inl e) \<and> t = rollback s s"
    using assms(1)
    by (auto simp: PersistClaimedDeliveryOutcome_def split: option.splits prod.splits if_splits)
  then show ?thesis using kept [of _ s] by auto
next
  case False
  then obtain owner deadline where od: "dl_ProcessingOwner d = Some owner"
      "dl_ProcessingDeadline d = Some deadline" "flt Begin = None" "flt UpdateDelivery = None"
      "RowsAffected (holds_claim (dl_ID d) owner deadline) (deliveries s) = 1" by auto
  let ?s1 = "s\<lparr>deliveries := update_where (holds_claim (dl_ID d) owner deadline)
                   (write_outcome d) (deliveries s)\<rparr>"
  obtain q s2 where ia: "insert_attempts flt now 0 d as ?s1 = (q, s2)" by fastforce
  have seq: "attempts_seq s \<le> attempts_seq s2" using insert_attempts_seq [OF ia] by simp
  consider (lost) e where "r = Inl e" "t = rollback s s2"
    | (finished) d' s3 where "q = Inr d'" "updateEventProjection flt gonow now (dl_EventID d') s2 = Inr s3"
        "commit flt ''commit claimed delivery outcome transaction'' s s3 () = (r, t)"
    using ia od assms(1)
    by (cases q; cases "updateEventProjection flt gonow now (dl_EventID (projr q)) s2")
       (auto simp: PersistClaimedDeliveryOutcome_def Let_def)
  then show ?thesis
  proof cases
    case lost
    then show ?thesis using kept seq by blast
  next
    case finished
    note st = outcome_steps [OF ia [unfolded finished(1)] finished(2)]
    from finished(3) show ?thesis
      by (cases rule: commit_cases)
         (use st seq kept written [OF od(1,2,5)] in auto)
  qed
qed

lemma Persist_ok [keeps]:
  assumes ok: "db_ok s" and d: "outcome_ok d"
    and p: "PersistClaimedDeliveryOutcome flt gonow now (Some d) as s = (r, t)"
  shows "db_ok t"
  using p
proof (cases rule: Persist_cases)
  case (kept e s')
  then show ?thesis using ok db_ok_rollback by simp
next
  case (written owner deadline)
  then show ?thesis using ok d by simp
qed

subsection \<open>Lemmas: replay\<close>

lemma find_key:
  assumes "key_unique k rs"
  shows "List.find (\<lambda>r. k r = i) rs = Some r \<longleftrightarrow> r \<in> set rs \<and> k r = i"
  using assms
proof (induction rs)
  case (Cons q rs)
  have "k r = k q \<Longrightarrow> r \<notin> set rs" using Cons.prems imageI [of r "set rs" k] by (auto simp: key_unique_def)
  with Cons show ?case by (auto simp: key_unique_def)
qed simp

lemma find_key_None: "List.find (\<lambda>r. k r = i) rs = None \<longleftrightarrow> \<not> has_row (\<lambda>r. k r = i) rs"
  by (induction rs) auto

text \<open>The delivery row a replay leaves behind.\<close>

definition replayed :: "time \<Rightarrow> Delivery \<Rightarrow> Delivery" where
  "replayed scheduledAt r =
     r\<lparr>dl_Generation := dl_Generation r + 1, dl_Status := DeliveryStatusRetrying, dl_Attempts := 0,
       dl_NextAttemptAt := Some (timestamptz scheduledAt), dl_LastError := None,
       dl_ProcessingOwner := None, dl_ProcessingDeadline := None, dl_DeliveredAt := None,
       dl_UpdatedAt := timestamptz scheduledAt\<rparr>"

definition replay_written :: "time \<Rightarrow> time \<Rightarrow> string \<Rightarrow> time \<Rightarrow> Delivery \<Rightarrow> db \<Rightarrow> db \<Rightarrow> bool" where
  "replay_written gonow now i scheduledAt row s t \<longleftrightarrow>
     deliveries t = update_where (\<lambda>r. dl_ID r = i) (replayed scheduledAt) (deliveries s)
     \<and> events t = update_where (\<lambda>e. ev_ID e = dl_EventID row)
         (project_event now (ProjectEventFromDeliveries gonow
            (map Some (deliveries_of (dl_EventID row) t)))) (events s)
     \<and> delivery_attempts t = delivery_attempts s \<and> subscriptions t = subscriptions s
     \<and> attempts_seq t = attempts_seq s"

lemma replay_update:
  assumes ku: "key_unique dl_ID ds" and row: "row \<in> set ds" "dl_ID row = i"
    and sr: "ScheduleReplay t row = Inr d"
  shows "update_where (\<lambda>r. dl_ID r = i \<and> dl_Status r = DeliveryStatusFailed) (write_replay d) ds
       = update_where (\<lambda>r. dl_ID r = i) (replayed t) ds"
proof -
  have "(if dl_ID r = i \<and> dl_Status r = DeliveryStatusFailed then write_replay d r else r)
      = (if dl_ID r = i then replayed t r else r)" if "r \<in> set ds" for r
    using sr key_unique_eq [OF ku that row(1)] row(2)
    by (auto simp: ScheduleReplay_def write_replay_def replayed_def split: if_splits)
  then show ?thesis unfolding update_where_def by simp
qed

lemma Replay_cases:
  assumes ok: "db_ok s" and rp: "ReplayFailedDelivery flt gonow now i scheduledAt s = (r, t)"
  obtains (refused) e where "r = Inl e" "t = s"
  | (written) row where "row \<in> set (deliveries s)" "dl_ID row = i"
      "dl_Status row = DeliveryStatusFailed" "replay_written gonow now i scheduledAt row s t"
      "r = ScheduleReplay scheduledAt row \<or> (\<exists>e. r = Inl e)"
proof -
  let ?P = "\<lambda>r. dl_ID r = i \<and> dl_Status r = DeliveryStatusFailed"
  have ku: "key_unique dl_ID (deliveries s)" using ok by (simp add: db_ok_def keys_ok_def)
  consider (no) "(\<exists>e. r = Inl e) \<and> t = s"
    | (yes) row d s2 where "List.find (\<lambda>d. dl_ID d = i) (deliveries s) = Some row"
      "ScheduleReplay scheduledAt row = Inr d"
      "updateEventProjection flt gonow now (dl_EventID d)
         (s\<lparr>deliveries := update_where ?P (write_replay d) (deliveries s)\<rparr>) = Inr s2"
      "commit flt ''commit replay transaction'' s s2 d = (r, t)"
    using rp unfolding ReplayFailedDelivery_def Let_def
    by (auto split: option.splits sum.splits if_splits dest: sym)
  then show ?thesis
  proof cases
    case no
    then show ?thesis using refused by blast
  next
    case (yes row d s2)
    from yes(1) have row: "row \<in> set (deliveries s)" "dl_ID row = i" using find_key [OF ku] by auto
    have d: "dl_EventID d = dl_EventID row" "dl_Status row = DeliveryStatusFailed"
      using yes(2) by (auto simp: ScheduleReplay_def split: if_splits)
    note s2 = updateEventProjection_Inr [OF yes(3), unfolded replay_update [OF ku row yes(2)] d]
    have w: "replay_written gonow now i scheduledAt row s s2"
      unfolding s2 replay_written_def by (simp add: deliveries_of_def)
    have seq: "rollback s s2 = s" using s2 by (simp add: rollback_def)
    from yes(4) show ?thesis
      by (cases rule: commit_cases) (use refused written [OF row d(2)] w seq yes(2) in auto)
  qed
qed

lemma row_ok_replayed: "row_ok r \<Longrightarrow> row_ok (replayed t r)"
  by (simp add: row_ok_def replayed_def)

lemma replayed_simps [simp]:
  "dl_ID (replayed t r) = dl_ID r" "dl_EventID (replayed t r) = dl_EventID r"
  "dl_SubscriptionID (replayed t r) = dl_SubscriptionID r"
  "dl_Generation (replayed t r) = dl_Generation r + 1" "dl_Attempts (replayed t r) = 0"
  "dl_MaxAttempts (replayed t r) = dl_MaxAttempts r"
  "dl_Status (replayed t r) = DeliveryStatusRetrying"
  "dl_ProcessingDeadline (replayed t r) = None"
  by (simp_all add: replayed_def)

lemma replay_written_ok:
  assumes ok: "db_ok s" and w: "replay_written gonow now i at' row s t"
  shows "db_ok t"
proof -
  let ?s1 = "s\<lparr>deliveries := update_where (\<lambda>r. dl_ID r = i) (replayed at') (deliveries s)\<rparr>"
  let ?p = "project_event now (ProjectEventFromDeliveries gonow
                (map Some (deliveries_of (dl_EventID row) t)))"
  have "db_ok ?s1"
    by (rule update_rows_ok [OF ok]) (use ok in \<open>auto simp: db_ok_def row_ok_replayed\<close>)
  then have "db_ok (?s1\<lparr>events := update_where (\<lambda>e. ev_ID e = dl_EventID row) ?p (events ?s1)\<rparr>)"
    by (rule update_events_ok) simp
  then show ?thesis
    using w by (simp add: replay_written_def db_ok_def keys_ok_def refs_ok_def)
qed

lemma ReplayFailedDelivery_ok [keeps]:
  assumes "db_ok s" "ReplayFailedDelivery flt gonow now i scheduledAt s = (r, t)"
  shows "db_ok t"
  by (rule Replay_cases [OF assms]) (use assms(1) replay_written_ok in auto)

subsection \<open>Properties\<close>

text \<open>C8 A successful claim takes, among the rows that are claimable now and not locked by another
  transaction, as many as the limit allows and the longest-waiting ones; it returns exactly
  those rows, each once, as it has written them, and changes no other row or table.\<close>

theorem claim_takes_oldest_claimable:
  assumes ok: "db_ok s"
    and cl: "ClaimDeliveries flt now locked owner lease limit s = (Inr res, t)"
  defines "free \<equiv> filter (\<lambda>d. claimable (timestamptz now) d \<and> dl_ID d \<notin> locked) (deliveries s)"
  shows "\<exists>cs. set cs \<subseteq> set free \<and> distinct (map (\<lambda>c. dl_ID (cd_Delivery c)) res)
     \<and> length cs = min (nat limit) (length free) \<and> length res = length cs
     \<and> (\<forall>d \<in> set cs. \<forall>q \<in> set free - set cs.
          (claim_order d, dl_CreatedAt d) \<le> (claim_order q, dl_CreatedAt q))
     \<and> set res = (\<lambda>d. \<lparr>cd_Delivery = claim_row owner lease (timestamptz now) d,
                        cd_Reclaimed = (dl_Status d = DeliveryStatusProcessing)\<rparr>) ` set cs
     \<and> t = s\<lparr>deliveries :=
              update_where (\<lambda>d. d \<in> set cs) (claim_row owner lease (timestamptz now)) (deliveries s)\<rparr>"
  using cl
proof (cases rule: ClaimDeliveries_cases)
  case (claimed cs res')
  then have [simp]: "res' = res" by auto
  note spec = claim_candidates_spec [OF ok claimed(2,3)]
  have cs: "cs = order_limit (\<lambda>d. (claim_order d, dl_CreatedAt d)) (nat limit) free"
    using claimed(2) by (simp add: free_def)
  show ?thesis
  proof (intro exI [of _ cs] conjI ballI)
    show "set cs \<subseteq> set free" unfolding cs by (rule set_order_limit)
    show "length cs = min (nat limit) (length free)" unfolding cs by (rule length_order_limit)
    fix d q assume "d \<in> set cs" "q \<in> set free - set cs"
    then show "(claim_order d, dl_CreatedAt d) \<le> (claim_order q, dl_CreatedAt q)"
      unfolding cs using order_limit_least
        [of d "\<lambda>d. (claim_order d, dl_CreatedAt d)" "nat limit" free q] by blast
  qed (use spec in simp_all)
qed simp

theorem claim_takes_oldest_claimable_witness:
  "\<exists>res t cs. ClaimDeliveries (\<lambda>_. None) 5000 {} ''worker-1'' Second 10 (sample_db [sample_row]) = (Inr res, t)
     \<and> set cs \<subseteq> {sample_row} \<and> length cs = 1 \<and> length res = 1
     \<and> t = (sample_db [sample_row])\<lparr>deliveries :=
         update_where (\<lambda>d. d \<in> set cs) (claim_row ''worker-1'' Second 5000) [sample_row]\<rparr>"
proof -
  have h: "ClaimDeliveries (\<lambda>_. None) 5000 {} ''worker-1'' Second 10 (sample_db [sample_row])
      = (Inr [\<lparr>cd_Delivery = claim_row ''worker-1'' Second 5000 sample_row, cd_Reclaimed = False\<rparr>],
         (sample_db [sample_row])\<lparr>deliveries := [claim_row ''worker-1'' Second 5000 sample_row]\<rparr>)"
    by (simp add: ClaimDeliveries_def claim_result_def claim_candidates_def order_limit_def
        claimable_def timestamptz_def sample_defs)
  have "claimable 5000 sample_row" by (simp add: sample_defs claimable_def)
  then show ?thesis
    using claim_takes_oldest_claimable [OF sample_db_ok(1) h] h
    by (auto simp: sample_db_def timestamptz_def)
qed

text \<open>C5 An outcome is fenced by its claim: when the row is no longer processed under the
  owner and deadline the delivery was claimed with, nothing is written and the error is
  \<open>ErrClaimLost\<close>.\<close>

theorem persist_without_claim:
  assumes "dl_ProcessingOwner d = Some owner" "dl_ProcessingDeadline d = Some deadline"
    and "\<not> has_row (\<lambda>r. dl_ID r = dl_ID d \<and> dl_Status r = DeliveryStatusProcessing
          \<and> dl_ProcessingOwner r = Some owner \<and> dl_ProcessingDeadline r = Some (timestamptz deadline)) (deliveries s)"
    and "flt Begin = None" "flt UpdateDelivery = None"
  shows "\<exists>e. PersistClaimedDeliveryOutcome flt gonow now (Some d) as s = (Inl e, s)
           \<and> errors_Is e ErrClaimLost"
proof -
  have "filter (holds_claim (dl_ID d) owner deadline) (deliveries s) = []"
    using assms(3) by (auto simp: has_row_def filter_empty_conv holds_claim_def)
  with assms show ?thesis by (simp add: PersistClaimedDeliveryOutcome_def RowsAffected_def)
qed

theorem persist_without_claim_witness:
  "\<exists>e. PersistClaimedDeliveryOutcome (\<lambda>_. None) 7000 7000
         (Some (MarkAsDelivered 6000 (sample_claimed\<lparr>dl_ProcessingOwner := Some ''worker-2''\<rparr>))) []
         (sample_db [sample_claimed]) = (Inl e, sample_db [sample_claimed])
       \<and> errors_Is e ErrClaimLost"
  by (rule persist_without_claim [where owner = "''worker-2''" and deadline = 9000])
     (simp_all add: sample_defs MarkAsDelivered_def holds_claim_def)

text \<open>C6 A successful persist found the row under the claim the delivery carries and has replaced it by
  one that has the status, attempts, next attempt, error and delivery time of the outcome and no
  owner and no deadline any more; all other deliveries are as they were.  The attempts have been
  appended with what was observed of them.  The event row has the status and the attempts of the
  projection of its deliveries, and all other events, and the subscriptions, are as they were.\<close>

theorem persist_success:
  assumes ok: "db_ok s"
    and p: "PersistClaimedDeliveryOutcome flt gonow now (Some d) as s = (Inr (), t)"
  shows "\<exists>owner deadline row row'. dl_ProcessingOwner d = Some owner \<and> dl_ProcessingDeadline d = Some deadline
     \<and> row \<in> set (deliveries s) \<and> dl_ID row = dl_ID d \<and> dl_Status row = DeliveryStatusProcessing
     \<and> dl_ProcessingOwner row = Some owner \<and> dl_ProcessingDeadline row = Some (timestamptz deadline)
     \<and> deliveries t = map (\<lambda>r. if dl_ID r = dl_ID d then row' else r) (deliveries s)
     \<and> row' = row\<lparr>dl_Status := dl_Status d, dl_Attempts := dl_Attempts d,
          dl_NextAttemptAt := map_option timestamptz (dl_NextAttemptAt d), dl_LastError := dl_LastError d,
          dl_ProcessingOwner := None, dl_ProcessingDeadline := None, dl_UpdatedAt := timestamptz (dl_UpdatedAt d),
          dl_DeliveredAt := map_option timestamptz (dl_DeliveredAt d)\<rparr>
     \<and> (\<exists>rows. delivery_attempts t = delivery_attempts s @ rows
          \<and> map (\<lambda>a. (at_AttemptNumber a, at_StatusCode a, at_ResponseBody a, at_Error a, at_DurationMs a)) rows
            = map (\<lambda>a. (at_AttemptNumber a, at_StatusCode a, at_ResponseBody a, at_Error a, at_DurationMs a)) as)
     \<and> (\<forall>e \<in> set (events t). ev_ID e = dl_EventID d \<and> deliveries_of (dl_EventID d) t \<noteq> [] \<longrightarrow>
          ev_Status e = event_status (projected_status (deliveries_of (dl_EventID d) t))
          \<and> ev_Attempts e = greatest_attempts (deliveries_of (dl_EventID d) t))
     \<and> filter (\<lambda>e. ev_ID e \<noteq> dl_EventID d) (events t) = filter (\<lambda>e. ev_ID e \<noteq> dl_EventID d) (events s)
     \<and> map ev_ID (events t) = map ev_ID (events s) \<and> subscriptions t = subscriptions s"
  using p
proof (cases rule: Persist_cases)
  case (written owner deadline)
  have ku: "key_unique dl_ID (deliveries s)" using ok by (simp add: db_ok_def keys_ok_def)
  have "filter (holds_claim (dl_ID d) owner deadline) (deliveries s) \<noteq> []"
    using written(3) by (auto simp: RowsAffected_def)
  then obtain row where row: "row \<in> set (deliveries s)" "holds_claim (dl_ID d) owner deadline row"
    by (auto simp: filter_empty_conv)
  have only: "holds_claim (dl_ID d) owner deadline r \<longleftrightarrow> r = row" "dl_ID r = dl_ID d \<longleftrightarrow> r = row" if "r \<in> set (deliveries s)" for r
    using key_unique_eq [OF ku that row(1)] row(2) by (auto simp: holds_claim_def)
  have "deliveries t = map (\<lambda>r. if dl_ID r = dl_ID d then write_outcome d row else r) (deliveries s)"
    using written(4) only by (auto simp: outcome_written_def update_where_def)
  moreover have "\<exists>rows. delivery_attempts t = delivery_attempts s @ rows
      \<and> map (\<lambda>a. (at_AttemptNumber a, at_StatusCode a, at_ResponseBody a, at_Error a, at_DurationMs a)) rows
        = map (\<lambda>a. (at_AttemptNumber a, at_StatusCode a, at_ResponseBody a, at_Error a, at_DurationMs a)) as"
    using written(4) attempt_rows_observed by (auto simp: outcome_written_def)
  moreover have "ev_Status e = event_status (projected_status (deliveries_of (dl_EventID d) t))
      \<and> ev_Attempts e = greatest_attempts (deliveries_of (dl_EventID d) t)"
    if "e \<in> set (events t)" "ev_ID e = dl_EventID d" "deliveries_of (dl_EventID d) t \<noteq> []" for e
    using that written(4)
    by (auto simp: outcome_written_def set_update_where project_event_def ProjectEventFromDeliveries_eq
        projection_of_def)
  moreover have "filter (\<lambda>e. ev_ID e \<noteq> dl_EventID d) (events t) = filter (\<lambda>e. ev_ID e \<noteq> dl_EventID d) (events s)"
    "map ev_ID (events t) = map ev_ID (events s)" "subscriptions t = subscriptions s"
    using written(4) filter_other_events map_update_where [of "events s" _ ev_ID] by (auto simp: outcome_written_def)
  ultimately show ?thesis using written(1,2) row
    by (intro exI [of _ owner] exI [of _ deadline] exI [of _ row] exI [of _ "write_outcome d row"])
      (auto simp: holds_claim_def write_outcome_def)
qed simp

text \<open>The delivery of the small database delivered under its claim.\<close>

lemma sample_persist:
  assumes "flt Begin = None" "flt UpdateDelivery = None" "flt SelectDeliveries = None"
    "flt UpdateEvent = None" "flt Commit = None"
  shows "PersistClaimedDeliveryOutcome flt 7000 7000 (Some (MarkAsDelivered 6000 sample_claimed)) []
      (sample_db [sample_claimed])
    = (case flt CommitAck of None \<Rightarrow> Inr ()
       | Some m \<Rightarrow> Inl (ErrWrap ''commit claimed delivery outcome transaction'' (ErrText m)),
       \<lparr>events = [sample_event\<lparr>ev_Status := EventStatusDelivered, ev_UpdatedAt := 7000,
                   ev_DeliveredAt := Some 6000\<rparr>],
        subscriptions = [sample_sub],
        deliveries = [sample_row\<lparr>dl_Status := DeliveryStatusDelivered, dl_UpdatedAt := 6000,
                        dl_DeliveredAt := Some 6000\<rparr>],
        delivery_attempts = [], attempts_seq = 1\<rparr>)"
  using assms
  by (simp add: PersistClaimedDeliveryOutcome_def RowsAffected_def holds_claim_def write_outcome_def
      updateEventProjection_def getDeliveriesByEventID_def deliveries_of_def project_event_def
      ProjectEventFromDeliveries_def project_one_def project_status_def sooner_def commit_def
      MarkAsDelivered_def timestamptz_def sample_defs Let_def split: option.split)

theorem persist_success_witness:
  "\<exists>t. PersistClaimedDeliveryOutcome (\<lambda>_. None) 7000 7000 (Some (MarkAsDelivered 6000 sample_claimed)) []
       (sample_db [sample_claimed]) = (Inr (), t)
     \<and> (\<exists>row'. deliveries t = [row'] \<and> dl_Status row' = DeliveryStatusDelivered \<and> dl_ProcessingOwner row' = None
          \<and> dl_ProcessingDeadline row' = None)"
proof -
  obtain t where p: "PersistClaimedDeliveryOutcome (\<lambda>_. None) 7000 7000 (Some (MarkAsDelivered 6000 sample_claimed)) []
      (sample_db [sample_claimed]) = (Inr (), t)"
    using sample_persist [of "\<lambda>_. None"] by simp
  from persist_success [OF sample_db_ok(2) p] p show ?thesis
    by (elim exE conjE) (simp add: MarkAsDelivered_def sample_db_def)
qed

text \<open>C7 A persist that reports an error has written nothing at all (but for used-up serial
  numbers), or has written the whole outcome and only the confirmation of the commit was
  lost.\<close>

theorem persist_error_atomic:
  assumes "PersistClaimedDeliveryOutcome flt gonow now (Some d) as s = (Inl e, t)"
  shows "events t = events s \<and> deliveries t = deliveries s
           \<and> delivery_attempts t = delivery_attempts s \<and> subscriptions t = subscriptions s
     \<or> flt CommitAck \<noteq> None
         \<and> (\<exists>owner deadline. outcome_written gonow now d owner deadline as s t)"
  using assms by (cases rule: Persist_cases) auto

theorem persist_error_atomic_witness:
  "\<exists>e t owner deadline. PersistClaimedDeliveryOutcome
        (\<lambda>st. if st = CommitAck then Some ''connection reset'' else None) 7000 7000
        (Some (MarkAsDelivered 6000 sample_claimed)) [] (sample_db [sample_claimed]) = (Inl e, t)
     \<and> outcome_written 7000 7000 (MarkAsDelivered 6000 sample_claimed) owner deadline []
         (sample_db [sample_claimed]) t"
proof -
  note p = sample_persist [of "\<lambda>st. if st = CommitAck then Some ''connection reset'' else None", simplified]
  from persist_error_atomic [OF p] p show ?thesis by (auto simp: sample_defs)
qed

text \<open>C9 Initializing an event's deliveries adds at most fresh pending rows, one per subscription
  given that has none yet, never touches an existing delivery, attempt or event row, and
  returns the deliveries of the event, which cover every subscription given.  This holds for an
  event that has been initialized before, too: a subscription that was created since gets a row
  and is delivered to, although the documentation says that the set of deliveries is frozen.\<close>

theorem initialize_covers:
  assumes "InitializeEventDeliveries flt nows (Some e) subs s = (Inr ds, t)"
  shows "ds = deliveries_of (ev_ID e) t \<and> covers (ev_ID e) subs ds
     \<and> (\<forall>sub. Some sub \<in> set subs
          \<and> \<not> has_row (\<lambda>r. dl_EventID r = ev_ID e \<and> dl_SubscriptionID r = sub_ID sub) (deliveries s) \<longrightarrow>
          (\<exists>r \<in> set (deliveries t) - set (deliveries s). dl_EventID r = ev_ID e \<and> dl_SubscriptionID r = sub_ID sub
             \<and> dl_Status r = DeliveryStatusPending \<and> dl_Attempts r = ev_Attempts e))
     \<and> (\<exists>new. deliveries t = deliveries s @ new
          \<and> set new \<subseteq> fresh_rows (prepare_event (nows 0) e) subs)
     \<and> (\<exists>new. events t = events s @ new \<and> length new \<le> 1)
     \<and> has_row (\<lambda>r. ev_ID r = ev_ID e) (events t)
     \<and> delivery_attempts t = delivery_attempts s \<and> subscriptions t = subscriptions s"
  using assms
proof (cases rule: Initialize_cases)
  case (applied s1 s2)
  obtain new where new: "s2 = s1\<lparr>deliveries := deliveries s1 @ new\<rparr>"
      "set new \<subseteq> fresh_rows (prepare_event (nows 0) e) subs" "covers (ev_ID e) subs (deliveries s2)"
    using insert_deliveries_rows [OF applied(2)] by auto
  from applied(1) have "s1 = s \<and> has_row (\<lambda>r. ev_ID r = ev_ID e) (events s)
      \<or> (\<exists>r. s1 = s\<lparr>events := events s @ [r]\<rparr> \<and> ev_ID r = ev_ID e)"
    by (auto simp: insert_event_def split: if_splits)
  moreover have "covers (ev_ID e) subs (deliveries_of (ev_ID e) s2)"
    using new(3) by (auto simp: covers_def has_row_def)
  moreover have "\<exists>r \<in> set (deliveries s2) - set (deliveries s). dl_EventID r = ev_ID e \<and> dl_SubscriptionID r = sub_ID sub
      \<and> dl_Status r = DeliveryStatusPending \<and> dl_Attempts r = ev_Attempts e"
    if sub: "Some sub \<in> set subs" "\<not> has_row (\<lambda>r. dl_EventID r = ev_ID e \<and> dl_SubscriptionID r = sub_ID sub) (deliveries s)" for sub
  proof -
    have same: "deliveries s1 = deliveries s" using calculation(1) by auto
    obtain r where r: "r \<in> set (deliveries s2)" "dl_EventID r = ev_ID e" "dl_SubscriptionID r = sub_ID sub"
      using new(3) sub(1) unfolding covers_def has_row_def by blast
    moreover have "r \<notin> set (deliveries s)" using sub(2) r by (auto simp: has_row_def)
    ultimately have "r \<in> fresh_rows (prepare_event (nows 0) e) subs" using new(1,2) same by auto
    then show ?thesis using r \<open>r \<notin> set (deliveries s)\<close> fresh_rows_pending by fastforce
  qed
  ultimately show ?thesis using new applied(3,4) by auto
qed simp

text \<open>Initializing the small database's event.\<close>

lemma sample_initialize:
  "InitializeEventDeliveries (\<lambda>_. None) (\<lambda>_. 3000) (Some sample_event) [Some sample_sub] (sample_db [])
    = (Inr [sample_row], sample_db [sample_row])"
  by (simp add: InitializeEventDeliveries_def prepare_event_def IsZero_def initial_event_def
      insert_event_def insert_delivery_def getDeliveriesByEventID_def deliveries_of_def commit_def
      delivery_columns_def timestamptz_def delivery_texts_def delivery_ints_def pg_int_def text_column_def sample_defs Let_def)

theorem initialize_covers_witness:
  "\<exists>r. InitializeEventDeliveries (\<lambda>_. None) (\<lambda>_. 3000) (Some sample_event) [Some sample_sub] (sample_db [])
       = (Inr [sample_row], sample_db [sample_row])
     \<and> r \<in> set (deliveries (sample_db [sample_row])) \<and> dl_SubscriptionID r = ''sub_1''
     \<and> dl_Status r = DeliveryStatusPending"
  using initialize_covers [OF sample_initialize] sample_initialize
  by (auto simp: sample_db_def has_row_def) (simp add: sample_sub_def)

text \<open>A subscription that already has its delivery adds nothing.\<close>

lemma insert_deliveries_encodable:
  "insert_deliveries flt nows i e subs s = Inr t \<Longrightarrow> Some sub \<in> set subs \<Longrightarrow>
     delivery_texts (NewDelivery now e sub) \<and> delivery_ints (NewDelivery now e sub)"
proof (induction flt nows i e subs s rule: insert_deliveries.induct)
  case (3 flt nows i event sub' subs s)
  have "delivery_texts (NewDelivery (nows (Suc i)) event sub') \<and> delivery_ints (NewDelivery (nows (Suc i)) event sub')"
    using "3.prems"(1) by (auto simp: insert_delivery_def Let_def split: sum.splits if_splits option.splits)
  then have "delivery_texts (NewDelivery now event sub') \<and> delivery_ints (NewDelivery now event sub')"
    by (simp add: delivery_texts_def delivery_ints_def NewDelivery_def)
  with 3 show ?case by (auto simp: Let_def split: sum.splits)
qed simp_all

lemma insert_deliveries_covered:
  assumes "covers (ev_ID e) subs (deliveries s)" "ev_Data e \<noteq> []" "\<And>i. flt (InsertDelivery i) = None"
    and "\<And>now sub. Some sub \<in> set subs \<Longrightarrow> delivery_texts (NewDelivery now e sub) \<and> delivery_ints (NewDelivery now e sub)"
  shows "insert_deliveries flt nows i e subs s = Inr s"
  using assms
proof (induction flt nows i e subs s rule: insert_deliveries.induct)
  case (3 flt nows i event sub subs s)
  then have "insert_delivery (NewDelivery (nows (Suc i)) event sub) s = Inr s"
    using "3.prems"(4) [of sub "nows (Suc i)"] by (auto simp: insert_delivery_def NewDelivery_def covers_def has_row_def)
  with 3 show ?case by (simp add: covers_def)
qed (simp_all add: covers_def)

text \<open>C10 Initialization is idempotent: repeating it for the same event and subscriptions, as a
  redelivered message does, succeeds with the same deliveries and leaves the database as it
  is, whatever has happened to the clock.\<close>

theorem initialize_idempotent:
  assumes "InitializeEventDeliveries flt nows (Some e) subs s = (Inr ds, t)"
  shows "InitializeEventDeliveries (\<lambda>_. None) nows' (Some e) subs t = (Inr ds, t)"
  using assms
proof (cases rule: Initialize_cases)
  case (applied s1 s2)
  have data: "ev_Data e \<noteq> []" "pg_text (ev_ID e)" "pg_text (ev_Type e)" "pg_text (ev_Source e)"
    "text_column (ev_LastError e)" "pg_int (ev_Attempts e)" "pg_int (ev_MaxAttempts e)"
    using applied(1) by (auto simp: insert_event_def split: if_splits)
  obtain new where new: "s2 = s1\<lparr>deliveries := deliveries s1 @ new\<rparr>" "covers (ev_ID e) subs (deliveries s2)"
    using insert_deliveries_rows [OF applied(2)] by auto
  have "has_row (\<lambda>r. ev_ID r = ev_ID e) (events s1)"
    using applied(1) by (auto simp: insert_event_def split: if_splits)
  then have "insert_event (initial_event (nows' 0) (prepare_event (nows' 0) e) subs) s2 = Inr s2"
    using new(1) data by (simp add: insert_event_def)
  moreover have "insert_deliveries (\<lambda>_. None) nows' 0 (prepare_event (nows' 0) e) subs s2 = Inr s2"
  proof (rule insert_deliveries_covered)
    fix now sub assume "Some sub \<in> set subs"
    from insert_deliveries_encodable [OF applied(2) this]
    show "delivery_texts (NewDelivery now (prepare_event (nows' 0) e) sub)
        \<and> delivery_ints (NewDelivery now (prepare_event (nows' 0) e) sub)"
      by (simp add: delivery_texts_def delivery_ints_def NewDelivery_def)
  qed (use new(2) data in simp_all)
  ultimately show ?thesis
    using applied(3,4)
    by (auto simp: InitializeEventDeliveries_def getDeliveriesByEventID_def commit_def Let_def)
qed simp

theorem initialize_idempotent_witness:
  "InitializeEventDeliveries (\<lambda>_. None) (\<lambda>_. 777000) (Some sample_event) [Some sample_sub]
     (sample_db [sample_row]) = (Inr [sample_row], sample_db [sample_row])"
  by (rule initialize_idempotent [OF sample_initialize])

text \<open>C11 Replay on every branch when the database answers: an unknown delivery is
  \<open>ErrNotFound\<close>, one that has not failed is \<open>ErrReplayNotEligible\<close>, both without a write; a
  failed one starts the next generation with no attempts used, scheduled at the given time,
  its history kept and its event projected again.\<close>

theorem replay_branches:
  assumes ok: "db_ok s"
  shows "(\<not> has_row (\<lambda>d. dl_ID d = i) (deliveries s) \<longrightarrow>
       ReplayFailedDelivery (\<lambda>_. None) gonow now i scheduledAt s = (Inl ErrNotFound, s))
   \<and> (\<forall>row \<in> set (deliveries s). dl_ID row = i \<longrightarrow> dl_Status row \<noteq> DeliveryStatusFailed \<longrightarrow>
       ReplayFailedDelivery (\<lambda>_. None) gonow now i scheduledAt s = (Inl ErrReplayNotEligible, s))
   \<and> (\<forall>row \<in> set (deliveries s). dl_ID row = i \<longrightarrow> dl_Status row = DeliveryStatusFailed \<longrightarrow>
       (\<exists>t. ReplayFailedDelivery (\<lambda>_. None) gonow now i scheduledAt s = (ScheduleReplay scheduledAt row, t)
          \<and> replay_written gonow now i scheduledAt row s t))"
proof (intro conjI impI ballI)
  have ku: "key_unique dl_ID (deliveries s)" using ok by (simp add: db_ok_def keys_ok_def)
  show "ReplayFailedDelivery (\<lambda>_. None) gonow now i scheduledAt s = (Inl ErrNotFound, s)"
    if "\<not> has_row (\<lambda>d. dl_ID d = i) (deliveries s)"
    using that by (simp add: ReplayFailedDelivery_def find_key_None [symmetric])
  fix row assume row: "row \<in> set (deliveries s)" "dl_ID row = i"
  then have find: "List.find (\<lambda>d. dl_ID d = i) (deliveries s) = Some row"
    using find_key [OF ku] by blast
  show "ReplayFailedDelivery (\<lambda>_. None) gonow now i scheduledAt s = (Inl ErrReplayNotEligible, s)"
    if "dl_Status row \<noteq> DeliveryStatusFailed"
    using that find by (simp add: ReplayFailedDelivery_def ScheduleReplay_def)
  assume failed: "dl_Status row = DeliveryStatusFailed"
  obtain r t where rt: "ReplayFailedDelivery (\<lambda>_. None) gonow now i scheduledAt s = (r, t)" by fastforce
  obtain e where e: "e \<in> set (events s)" "ev_ID e = dl_EventID row"
    using ok row by (auto simp: db_ok_def refs_ok_def has_row_def)
  have one: "RowsAffected (\<lambda>r. dl_ID r = i \<and> dl_Status r = DeliveryStatusFailed) (deliveries s) = 1"
    "RowsAffected (\<lambda>e. ev_ID e = dl_EventID row) (events s) = 1"
    using RowsAffected_key [OF ku, of i "\<lambda>r. dl_Status r = DeliveryStatusFailed"] row failed
      RowsAffected_key [of ev_ID "events s" "dl_EventID row" "\<lambda>_. True"] ok e
    by (auto simp: has_row_def db_ok_def keys_ok_def)
  obtain d where d: "ScheduleReplay scheduledAt row = Inr d" "dl_EventID d = dl_EventID row"
    using failed by (auto simp: ScheduleReplay_def)
  have "r = Inr d"
    using rt find failed one d
    by (simp add: ReplayFailedDelivery_def updateEventProjection_def getDeliveriesByEventID_def
        Let_def commit_def)
  then show "\<exists>t. ReplayFailedDelivery (\<lambda>_. None) gonow now i scheduledAt s = (ScheduleReplay scheduledAt row, t)
          \<and> replay_written gonow now i scheduledAt row s t"
    using Replay_cases [OF ok rt] rt d row key_unique_eq [OF ku] by (metis Inl_Inr_False)
qed

theorem replay_branches_witness:
  "\<exists>t. ReplayFailedDelivery (\<lambda>_. None) 9000 9000 ''evt_1:sub_1'' 9000 (sample_db [sample_failed])
         = (ScheduleReplay 9000 sample_failed, t)
     \<and> replay_written 9000 9000 ''evt_1:sub_1'' 9000 sample_failed (sample_db [sample_failed]) t"
  using replay_branches [OF sample_db_ok(3), of "''evt_1:sub_1''" 9000 9000 9000]
  by (simp add: sample_defs)

end
