(* ===== verification/Subscription_Repository.thy ===== *)
theory Subscription_Repository
  imports Pg_Schema
begin

text \<open>
  \<^verbatim>\<open>internal/repository/postgres/subscription.go\<close>: the subscription repository.  The lemmas
  show that every method keeps \<open>db_ok\<close>, which subscriptions an event type is resolved to, and
  that deactivating a subscription keeps its row and all deliveries that refer to it.

  A nil slice of event types, which the \<open>NOT NULL\<close> column refuses, is one of the driver errors
  \<open>flt\<close>; an empty one is stored.
\<close>

definition subscription_columns :: "Subscription \<Rightarrow> Subscription" where
  "subscription_columns u = u\<lparr>sub_CreatedAt := timestamptz (sub_CreatedAt u)\<rparr>"

definition Create :: "faults \<Rightarrow> Subscription \<Rightarrow> db \<Rightarrow> (error + unit) \<times> db" where
  "Create flt u s =
     (case flt Query of
        Some m \<Rightarrow> (Inl (ErrText m), s)
      | None \<Rightarrow>
          if \<not> (pg_text (sub_ID u) \<and> pg_text (sub_URL u) \<and> list_all pg_text (sub_EventTypes u) \<and> text_column (sub_Secret u))
          then (Inl (ErrText ''invalid byte sequence for encoding UTF8''), s)
          else if \<not> pg_int (sub_MaxDeliveryRate u) then (Inl (ErrText ''integer out of range''), s)
          else if sub_MaxDeliveryRate u \<le> 0
          then (Inl (ErrText ''subscriptions_max_delivery_rate_positive''), s)
          else if has_row (\<lambda>r. sub_ID r = sub_ID u) (subscriptions s)
          then (Inl (ErrText ''subscriptions_pkey''), s)
          else (Inr (), s\<lparr>subscriptions := subscriptions s @ [subscription_columns u]\<rparr>))"

definition GetActive :: "faults \<Rightarrow> db \<Rightarrow> error + Subscription list" where
  "GetActive flt s =
     exec (flt Query) (exec (flt Scan) (Inr (sort_key sub_CreatedAt (filter sub_Active (subscriptions s)))))"

text \<open>The two nested loops that fill the result map.\<close>

fun match_types :: "Subscription \<Rightarrow> string list \<Rightarrow> (string \<rightharpoonup> Subscription list) \<Rightarrow> (string \<rightharpoonup> Subscription list)" where
  "match_types sub [] result = result"
| "match_types sub (et # ets) result =
     match_types sub ets
       (if MatchesEventType sub et
        then result(et \<mapsto> (case result et of None \<Rightarrow> [] | Some xs \<Rightarrow> xs) @ [sub])
        else result)"

definition GetByEventTypes ::
  "faults \<Rightarrow> string list \<Rightarrow> db \<Rightarrow> error + (string \<rightharpoonup> Subscription list)" where
  "GetByEventTypes flt eventTypes s =
     (if length eventTypes = 0 then Inr Map.empty
      else
        (case flt Query of
           Some m \<Rightarrow> Inl (ErrText m)
         | None \<Rightarrow>
             (let result = fold (\<lambda>et m. m(et \<mapsto> [])) eventTypes Map.empty;
                  allSubs = filter sub_Active (subscriptions s)
              in case flt Scan of
                   Some m \<Rightarrow> Inl (ErrText m)
                 | None \<Rightarrow> Inr (fold (\<lambda>sub m. match_types sub eventTypes m) allSubs result))))"

definition Delete :: "faults \<Rightarrow> string \<Rightarrow> db \<Rightarrow> (error + unit) \<times> db" where
  "Delete flt i s =
     (case flt Query of
        Some m \<Rightarrow> (Inl (ErrText m), s)
      | None \<Rightarrow>
          if RowsAffected (\<lambda>u. sub_ID u = i) (subscriptions s) = 0 then (Inl ErrNotFound, s)
          else (Inr (), s\<lparr>subscriptions :=
                  update_where (\<lambda>u. sub_ID u = i) (sub_Active_update (\<lambda>_. False)) (subscriptions s)\<rparr>))"

definition UpdateSecret :: "faults \<Rightarrow> string \<Rightarrow> string \<Rightarrow> db \<Rightarrow> (error + unit) \<times> db" where
  "UpdateSecret flt i secret s =
     (case flt Query of
        Some m \<Rightarrow> (Inl (ErrText m), s)
      | None \<Rightarrow>
          if \<not> pg_text i \<or> \<not> pg_text secret
          then (Inl (ErrText ''invalid byte sequence for encoding UTF8''), s)
          else if RowsAffected (\<lambda>u. sub_ID u = i \<and> sub_Active u) (subscriptions s) = 0
          then (Inl ErrNotFound, s)
          else (Inr (), s\<lparr>subscriptions :=
                  update_where (\<lambda>u. sub_ID u = i \<and> sub_Active u)
                    (sub_Secret_update (\<lambda>_. Some secret)) (subscriptions s)\<rparr>))"

subsection \<open>Every method keeps the invariant\<close>

lemma update_subscriptions_ok:
  assumes "db_ok s" "\<And>u. sub_ID (f u) = sub_ID u"
  shows "db_ok (s\<lparr>subscriptions := update_where P f (subscriptions s)\<rparr>)"
  using assms
  by (auto simp: db_ok_def keys_ok_def refs_ok_def has_row_update_where intro!: key_unique_update_where)

lemma Create_ok [keeps]: "db_ok s \<Longrightarrow> Create flt u s = (r, t) \<Longrightarrow> db_ok t"
  by (auto simp: Create_def subscription_columns_def db_ok_def keys_ok_def refs_ok_def key_unique_snoc
      split: option.splits if_splits)

lemma Delete_ok [keeps]: "db_ok s \<Longrightarrow> Delete flt i s = (r, t) \<Longrightarrow> db_ok t"
  by (auto simp: Delete_def intro!: update_subscriptions_ok split: option.splits if_splits)

lemma UpdateSecret_ok [keeps]: "db_ok s \<Longrightarrow> UpdateSecret flt i x s = (r, t) \<Longrightarrow> db_ok t"
  by (auto simp: UpdateSecret_def intro!: update_subscriptions_ok split: option.splits if_splits)

subsection \<open>Resolving event types\<close>

lemma match_types_other: "et \<notin> set ets \<Longrightarrow> match_types u ets m et = m et"
  by (induction ets arbitrary: m) auto

lemma match_types_in:
  assumes "distinct ets" "et \<in> set ets" "m et = Some xs"
  shows "match_types u ets m et = Some (xs @ (if MatchesEventType u et then [u] else []))"
  using assms
proof (induction ets arbitrary: m)
  case (Cons e ets)
  then show ?case by (cases "e = et") (auto simp: match_types_other)
qed simp

lemma fold_match_types:
  assumes "distinct ets" "m et = (if et \<in> set ets then Some xs else None)"
  shows "fold (\<lambda>u m. match_types u ets m) us m et =
     (if et \<in> set ets then Some (xs @ filter (\<lambda>u. MatchesEventType u et) us) else None)"
  using assms(2)
proof (induction us arbitrary: m xs)
  case (Cons u us)
  show ?case
    using Cons.IH [of "match_types u ets m" "xs @ (if MatchesEventType u et then [u] else [])"]
      Cons.prems match_types_in [OF assms(1)] match_types_other
    by auto
qed simp

lemma fold_empty_lists: "fold (\<lambda>et m. m(et \<mapsto> [])) ets m et = (if et \<in> set ets then Some [] else m et)"
  by (induction ets arbitrary: m) auto

lemma GetByEventTypes_Inr:
  assumes "distinct ets" "GetByEventTypes flt ets s = Inr m"
  shows "m et = (if et \<in> set ets
                 then Some (filter (\<lambda>u. sub_Active u \<and> MatchesEventType u et) (subscriptions s)) else None)"
proof (cases "ets = []")
  case True
  then show ?thesis using assms by (auto simp: GetByEventTypes_def)
next
  case False
  then show ?thesis
    using assms(2) fold_match_types [OF assms(1), of "fold (\<lambda>et m. m(et \<mapsto> [])) ets Map.empty" et "[]"]
    by (auto simp: GetByEventTypes_def fold_empty_lists Let_def conj_commute split: option.splits)
qed

subsection \<open>Properties\<close>

text \<open>C21 Looking up distinct event types answers for every type, and only for those, with exactly
  the active subscriptions whose filters match the type.\<close>

theorem subscriptions_by_event_types:
  assumes "distinct ets" "GetByEventTypes flt ets s = Inr m"
  shows "dom m = set ets \<and> (\<forall>et \<in> set ets. \<exists>us. m et = Some us
           \<and> set us = {u \<in> set (subscriptions s). sub_Active u \<and> MatchesEventType u et})"
  using GetByEventTypes_Inr [OF assms] by (auto simp: dom_def split: if_splits)

theorem subscriptions_by_event_types_witness:
  "\<exists>m us. GetByEventTypes (\<lambda>_. None) [''order.created'', ''user.x''] (sample_db []) = Inr m
     \<and> m ''order.created'' = Some us \<and> set us = {sample_sub}"
proof -
  obtain m where m: "GetByEventTypes (\<lambda>_. None) [''order.created'', ''user.x''] (sample_db []) = Inr m"
    by (simp add: GetByEventTypes_def Let_def)
  have "{u \<in> set (subscriptions (sample_db [])). sub_Active u \<and> MatchesEventType u ''order.created''} = {sample_sub}"
    by (auto simp: sample_db_def sample_sub_def MatchesEventType_def matchWildcard_def Let_def)
  with subscriptions_by_event_types [OF _ m] m show ?thesis by auto
qed

text \<open>Deleting a subscription only deactivates it: from then on no event type resolves to it,
  and no delivery, attempt or event changes, so that deliveries created before go on with
  their snapshot of URL and secret.\<close>

lemma delete_is_soft:
  assumes "Delete flt i s = (Inr (), t)" "GetByEventTypes flt' ets t = Inr m" "distinct ets"
  shows "(\<forall>et us. m et = Some us \<longrightarrow> i \<notin> sub_ID ` set us)
     \<and> map sub_ID (subscriptions t) = map sub_ID (subscriptions s)
     \<and> deliveries t = deliveries s \<and> events t = events s \<and> delivery_attempts t = delivery_attempts s"
proof -
  from assms(1) have t: "t = s\<lparr>subscriptions :=
      update_where (\<lambda>u. sub_ID u = i) (sub_Active_update (\<lambda>_. False)) (subscriptions s)\<rparr>"
    by (auto simp: Delete_def split: option.splits if_splits)
  have "\<not> sub_Active u" if "u \<in> set (subscriptions t)" "sub_ID u = i" for u
  proof -
    from that(1) obtain r where "u = (if sub_ID r = i then r\<lparr>sub_Active := False\<rparr> else r)"
      unfolding t update_where_def by fastforce
    then show ?thesis using that(2) by (simp split: if_splits)
  qed
  then have "i \<notin> sub_ID ` set us" if "m et = Some us" for et us
    using GetByEventTypes_Inr [OF assms(3,2), of et] that by (auto split: if_splits)
  moreover have "map sub_ID (subscriptions t) = map sub_ID (subscriptions s)"
    unfolding t by (simp add: map_update_where)
  ultimately show ?thesis using t by simp
qed

end
