(* ===== verification/Retention_Repository.thy ===== *)
theory Retention_Repository
  imports Pg_Schema
begin

text \<open>
  \<^verbatim>\<open>internal/repository/postgres/retention.go\<close>: redacting old response bodies and deleting old
  terminal events, each a single bounded statement that skips locked rows.

  The lemmas show that both keep \<open>db_ok\<close>, that nothing live is ever removed or changed, and
  that the number of rows is bounded by the limit.
\<close>

definition redactable :: "time \<Rightarrow> DeliveryAttempt \<Rightarrow> bool" where
  "redactable before a \<longleftrightarrow> at_ResponseBody a \<noteq> None \<and> at_CreatedAt a < before"

text \<open>\<open>locked\<close> are the rows other transactions have locked.\<close>

definition RedactAttemptBodies ::
  "faults \<Rightarrow> int set \<Rightarrow> time \<Rightarrow> int \<Rightarrow> db \<Rightarrow> (error + nat) \<times> db" where
  "RedactAttemptBodies flt locked before limit s =
     (case flt Query of
        Some m \<Rightarrow> (Inl (ErrWrap ''redact attempt bodies'' (ErrText m)), s)
      | None \<Rightarrow>
          if limit < 0
          then (Inl (ErrWrap ''redact attempt bodies'' (ErrText ''LIMIT must not be negative'')), s)
          else
            (let candidates = order_limit (\<lambda>a. (at_CreatedAt a, at_ID a)) (nat limit)
                   (filter (\<lambda>a. redactable (timestamptz before) a \<and> at_ID a \<notin> locked)
                      (delivery_attempts s));
                 chosen = (\<lambda>a. at_ID a \<in> set (map at_ID candidates))
             in (Inr (RowsAffected chosen (delivery_attempts s)),
                 s\<lparr>delivery_attempts := update_where chosen (at_ResponseBody_update (\<lambda>_. None))
                      (delivery_attempts s)\<rparr>)))"

definition live :: "Delivery \<Rightarrow> bool" where
  "live d \<longleftrightarrow> dl_Status d \<notin> {DeliveryStatusDelivered, DeliveryStatusFailed}"

definition deletable :: "time \<Rightarrow> db \<Rightarrow> Event \<Rightarrow> bool" where
  "deletable before s e \<longleftrightarrow>
     ev_UpdatedAt e < before
     \<and> ev_Status e \<in> {EventStatusDelivered, EventStatusFailed}
     \<and> \<not> has_row (\<lambda>d. dl_EventID d = ev_ID e \<and> live d) (deliveries s)"

text \<open>\<open>DELETE\<close> with the two \<open>ON DELETE CASCADE\<close> references: an event takes its deliveries with it,
  a delivery its attempts.\<close>

definition delete_events :: "string set \<Rightarrow> db \<Rightarrow> db" where
  "delete_events ids s =
     (let gone = (\<lambda>d. dl_EventID d \<in> ids)
      in s\<lparr>events := filter (\<lambda>e. ev_ID e \<notin> ids) (events s),
           deliveries := filter (\<lambda>d. \<not> gone d) (deliveries s),
           delivery_attempts :=
             filter (\<lambda>a. \<not> has_row (\<lambda>d. gone d \<and> attempt_of a d) (deliveries s)) (delivery_attempts s)\<rparr>)"

definition DeleteTerminalEvents ::
  "faults \<Rightarrow> string set \<Rightarrow> time \<Rightarrow> int \<Rightarrow> db \<Rightarrow> (error + nat) \<times> db" where
  "DeleteTerminalEvents flt locked before limit s =
     (case flt Query of
        Some m \<Rightarrow> (Inl (ErrWrap ''delete terminal events'' (ErrText m)), s)
      | None \<Rightarrow>
          if limit < 0
          then (Inl (ErrWrap ''delete terminal events'' (ErrText ''LIMIT must not be negative'')), s)
          else
            (let candidates = order_limit (\<lambda>e. (ev_UpdatedAt e, ev_ID e)) (nat limit)
                   (filter (\<lambda>e. deletable (timestamptz before) s e \<and> ev_ID e \<notin> locked) (events s));
                 ids = set (map ev_ID candidates)
             in (Inr (RowsAffected (\<lambda>e. ev_ID e \<in> ids) (events s)), delete_events ids s)))"

subsection \<open>Lemmas\<close>

lemma rows_by_candidates:
  assumes "key_unique k rs"
  shows "filter (\<lambda>r. k r \<in> set (map k (order_limit key n (filter P rs)))) rs
       = filter (\<lambda>r. r \<in> set (order_limit key n (filter P rs))) rs"
    and "RowsAffected (\<lambda>r. k r \<in> set (map k (order_limit key n (filter P rs)))) rs \<le> n"
proof -
  let ?cs = "order_limit key n (filter P rs)"
  have sub: "set ?cs \<subseteq> set rs" using set_order_limit [of key n "filter P rs"] by auto
  show eq: "filter (\<lambda>r. k r \<in> set (map k ?cs)) rs = filter (\<lambda>r. r \<in> set ?cs) rs"
    by (rule filter_cong) (use assms sub in \<open>auto dest: key_unique_eq\<close>)
  have "distinct (filter (\<lambda>r. r \<in> set ?cs) rs)" using assms by (simp add: key_unique_def distinct_map)
  then have "length (filter (\<lambda>r. r \<in> set ?cs) rs) = card (set rs \<inter> set ?cs)"
    by (metis distinct_card set_filter Int_def mem_Collect_eq)
  also have "\<dots> \<le> card (set ?cs)" by (intro card_mono) auto
  also have "\<dots> \<le> length ?cs" by (rule card_length)
  also have "\<dots> \<le> n" by (simp add: length_order_limit)
  finally show "RowsAffected (\<lambda>r. k r \<in> set (map k ?cs)) rs \<le> n"
    unfolding RowsAffected_def eq .
qed

lemma Redact_cases:
  assumes "RedactAttemptBodies flt locked before limit s = (r, t)"
  obtains (failed) e where "r = Inl e" "t = s"
  | (redacted) P n where "r = Inr n"
      "t = s\<lparr>delivery_attempts := update_where P (at_ResponseBody_update (\<lambda>_. None)) (delivery_attempts s)\<rparr>"
      "n = RowsAffected P (delivery_attempts s)" "0 \<le> limit"
      "db_ok s \<Longrightarrow> int n \<le> limit"
      "\<And>a. db_ok s \<Longrightarrow> a \<in> set (delivery_attempts s) \<Longrightarrow> P a \<Longrightarrow> redactable (timestamptz before) a"
proof (cases "flt Query = None \<and> 0 \<le> limit")
  case False
  then show ?thesis using assms failed
    by (auto simp: RedactAttemptBodies_def split: option.splits if_splits)
next
  case True
  let ?Q = "\<lambda>a. redactable (timestamptz before) a \<and> at_ID a \<notin> locked"
  let ?key = "\<lambda>a. (at_CreatedAt a, at_ID a)"
  let ?cs = "order_limit ?key (nat limit) (filter ?Q (delivery_attempts s))"
  let ?P = "\<lambda>a. at_ID a \<in> set (map at_ID ?cs)"
  note ku = db_ok_keys(4) [of s]
  have r: "r = Inr (RowsAffected ?P (delivery_attempts s))"
    and t: "t = s\<lparr>delivery_attempts :=
        update_where ?P (at_ResponseBody_update (\<lambda>_. None)) (delivery_attempts s)\<rparr>"
    using assms True by (simp_all add: RedactAttemptBodies_def Let_def)
  have "redactable (timestamptz before) a" if "db_ok s" "a \<in> set (delivery_attempts s)" "?P a" for a
  proof -
    have "a \<in> set (filter ?P (delivery_attempts s))" using that by simp
    then have "a \<in> set ?cs" unfolding rows_by_candidates(1) [OF ku [OF that(1)]] by simp
    then show ?thesis using set_order_limit [of ?key "nat limit" "filter ?Q (delivery_attempts s)"] by auto
  qed
  moreover have "db_ok s \<Longrightarrow> int (RowsAffected ?P (delivery_attempts s)) \<le> limit"
    using rows_by_candidates(2) [OF ku, of ?key "nat limit" ?Q] True by linarith
  ultimately show ?thesis
    by (intro redacted [OF r t refl]) (use True in blast)+
qed

lemma DeleteTerminal_cases:
  assumes "DeleteTerminalEvents flt locked before limit s = (r, t)"
  obtains (failed) e where "r = Inl e" "t = s"
  | (deleted) ids n where "r = Inr n" "t = delete_events ids s"
      "n = RowsAffected (\<lambda>e. ev_ID e \<in> ids) (events s)" "0 \<le> limit"
      "db_ok s \<Longrightarrow> int n \<le> limit"
      "\<And>e. db_ok s \<Longrightarrow> e \<in> set (events s) \<Longrightarrow> ev_ID e \<in> ids \<Longrightarrow> deletable (timestamptz before) s e"
proof (cases "flt Query = None \<and> 0 \<le> limit")
  case False
  then show ?thesis using assms failed
    by (auto simp: DeleteTerminalEvents_def split: option.splits if_splits)
next
  case True
  let ?Q = "\<lambda>e. deletable (timestamptz before) s e \<and> ev_ID e \<notin> locked"
  let ?key = "\<lambda>e. (ev_UpdatedAt e, ev_ID e)"
  let ?cs = "order_limit ?key (nat limit) (filter ?Q (events s))"
  let ?ids = "set (map ev_ID ?cs)"
  note ku = db_ok_keys(1) [of s]
  have r: "r = Inr (RowsAffected (\<lambda>e. ev_ID e \<in> ?ids) (events s))" and t: "t = delete_events ?ids s"
    using assms True by (simp_all add: DeleteTerminalEvents_def Let_def)
  have "deletable (timestamptz before) s e" if "db_ok s" "e \<in> set (events s)" "ev_ID e \<in> ?ids" for e
  proof -
    have "e \<in> set (filter (\<lambda>e. ev_ID e \<in> ?ids) (events s))" using that by simp
    then have "e \<in> set ?cs" unfolding rows_by_candidates(1) [OF ku [OF that(1)]] by simp
    then show ?thesis using set_order_limit [of ?key "nat limit" "filter ?Q (events s)"] by auto
  qed
  moreover have "db_ok s \<Longrightarrow> int (RowsAffected (\<lambda>e. ev_ID e \<in> ?ids) (events s)) \<le> limit"
    using rows_by_candidates(2) [OF ku, of ?key "nat limit" ?Q] True by linarith
  ultimately show ?thesis
    by (intro deleted [OF r t refl]) (use True in blast)+
qed

lemma delete_events_ok:
  assumes ok: "db_ok s" shows "db_ok (delete_events ids s)"
proof -
  have "has_row (attempt_of a) (filter (\<lambda>d. dl_EventID d \<notin> ids) (deliveries s))"
    if "a \<in> set (delivery_attempts s)"
      "\<not> has_row (\<lambda>d. dl_EventID d \<in> ids \<and> attempt_of a d) (deliveries s)" for a
    by (rule db_ok_delivery_of [OF ok that(1)]) (use that(2) in \<open>auto simp: has_row_def\<close>)
  moreover have "has_row (\<lambda>e. ev_ID e = dl_EventID d) (filter (\<lambda>e. ev_ID e \<notin> ids) (events s))"
    if "d \<in> set (deliveries s)" "dl_EventID d \<notin> ids" for d
    by (rule db_ok_event_of [OF ok that(1)]) (use that(2) in \<open>auto simp: has_row_def\<close>)
  ultimately show ?thesis
    using ok by (auto simp: delete_events_def db_ok_def keys_ok_def refs_ok_def Let_def key_unique_filter)
qed

lemma Redact_ok [keeps]:
  assumes "db_ok s" "RedactAttemptBodies flt locked before limit s = (r, t)"
  shows "db_ok t"
  using assms(2)
proof (cases rule: Redact_cases)
  case (redacted P n)
  have "attempt_of (at_ResponseBody_update (\<lambda>_. None) a) = attempt_of a" for a
    by (rule ext) (simp add: attempt_of_def)
  then show ?thesis
    using assms(1) unfolding redacted(2)
    by (auto simp: db_ok_def keys_ok_def refs_ok_def set_update_where intro!: key_unique_update_where)
qed (use assms(1) in simp)

lemma DeleteTerminal_ok [keeps]:
  assumes "db_ok s" "DeleteTerminalEvents flt locked before limit s = (r, t)"
  shows "db_ok t"
  using assms(2) by (cases rule: DeleteTerminal_cases) (use assms(1) delete_events_ok in auto)

text \<open>Cleanup that harms nothing alive: deliveries and events disappear only when terminal and old,
  attempts lose at most their body.\<close>

definition body_dropped :: "DeliveryAttempt \<Rightarrow> DeliveryAttempt \<Rightarrow> bool" where
  "body_dropped a b \<longleftrightarrow> a\<lparr>at_ResponseBody := None\<rparr> = b\<lparr>at_ResponseBody := None\<rparr>
     \<and> (at_ResponseBody b = None \<or> b = a)"

definition cleanup_safe :: "db \<Rightarrow> db \<Rightarrow> bool" where
  "cleanup_safe s t \<longleftrightarrow>
     set (deliveries t) \<subseteq> set (deliveries s) \<and> set (events t) \<subseteq> set (events s)
     \<and> subscriptions t = subscriptions s
     \<and> {d \<in> set (deliveries s). live d} \<subseteq> set (deliveries t)
     \<and> {e \<in> set (events s). ev_Status e \<notin> {EventStatusDelivered, EventStatusFailed}} \<subseteq> set (events t)
     \<and> (\<forall>a \<in> set (delivery_attempts t). \<exists>b \<in> set (delivery_attempts s). body_dropped b a)"

lemma body_dropped_refl [simp]: "body_dropped a a"
  by (simp add: body_dropped_def)

lemma body_dropped_trans: "body_dropped a b \<Longrightarrow> body_dropped b c \<Longrightarrow> body_dropped a c"
  unfolding body_dropped_def by fastforce

lemma cleanup_safe_refl [simp]: "cleanup_safe s s"
  unfolding cleanup_safe_def using body_dropped_refl by blast

lemma cleanup_safe_trans:
  assumes "cleanup_safe s t" "cleanup_safe t u" shows "cleanup_safe s u"
proof -
  have "\<exists>b \<in> set (delivery_attempts s). body_dropped b a" if "a \<in> set (delivery_attempts u)" for a
    using assms that body_dropped_trans unfolding cleanup_safe_def by meson
  moreover have "set (deliveries u) \<subseteq> set (deliveries s)" "set (events u) \<subseteq> set (events s)"
    "subscriptions u = subscriptions s" using assms unfolding cleanup_safe_def by (blast, blast, simp)
  moreover have "{d \<in> set (deliveries s). live d} \<subseteq> set (deliveries u)"
    "{e \<in> set (events s). ev_Status e \<notin> {EventStatusDelivered, EventStatusFailed}} \<subseteq> set (events u)"
    using assms unfolding cleanup_safe_def by blast+
  ultimately show ?thesis unfolding cleanup_safe_def by blast
qed

lemma Redact_safe:
  assumes "RedactAttemptBodies flt locked before limit s = (r, t)"
  shows "cleanup_safe s t"
  using assms
proof (cases rule: Redact_cases)
  case (redacted P n)
  have "body_dropped a (a\<lparr>at_ResponseBody := None\<rparr>)" for a by (simp add: body_dropped_def)
  then show ?thesis
    unfolding redacted(2) by (auto simp: cleanup_safe_def set_update_where intro: body_dropped_refl)
qed simp

lemma DeleteTerminal_safe:
  assumes ok: "db_ok s" and del: "DeleteTerminalEvents flt locked before limit s = (r, t)"
  shows "cleanup_safe s t"
  using del
proof (cases rule: DeleteTerminal_cases)
  case (deleted ids n)
  note can = deleted(6) [OF ok]
  have "dl_EventID d \<notin> ids" if "d \<in> set (deliveries s)" "live d" for d
    by (rule db_ok_event_of [OF ok that(1)])
       (use can that in \<open>auto simp: deletable_def has_row_def\<close>)
  then show ?thesis
    using can unfolding deleted(2) cleanup_safe_def delete_events_def Let_def
    by (intro conjI) (auto simp: deletable_def intro: body_dropped_refl)
qed simp

end
