(* ===== verification/Pg_World.thy ===== *)
theory Pg_World
  imports Event_Repository Subscription_Repository Retention_Repository
begin

text \<open>
  The repositories as the rest of the program calls them: operations on a world that holds the
  database, and for every call what the environment contributes to it.  \<open>ce_others\<close> is what
  other processes have done to the database since the call before, \<open>ce_flt\<close> the driver errors,
  \<open>ce_nows\<close> and \<open>ce_now\<close> the clock readings of the Go code and of the database, \<open>ce_locked\<close>,
  \<open>ce_lockedAttempts\<close> and \<open>ce_lockedEvents\<close> the rows locked by other transactions.

  \<open>pw_ok\<close> is the invariant of the database together with what is relied on of the other
  processes: that they keep it too, and that they keep the rows of events.  (The only
  operation that deletes event rows is the retention cleaner, 30 days after the event has
  become terminal.)
\<close>

record call_env =
  ce_others :: "db \<Rightarrow> db"
  ce_flt :: faults
  ce_nows :: "nat \<Rightarrow> time"
  ce_now :: time
  ce_locked :: "string set"
  ce_lockedAttempts :: "int set"
  ce_lockedEvents :: "string set"

record pg_world =
  pw_db :: db
  pw_env :: "nat \<Rightarrow> call_env"
  pw_calls :: nat

definition call :: "(call_env \<Rightarrow> db \<Rightarrow> 'a \<times> db) \<Rightarrow> 'm pg_world_scheme \<Rightarrow> 'a \<times> 'm pg_world_scheme" where
  "call f w =
     (let c = pw_env w (pw_calls w);
          (r, s) = f c (ce_others c (pw_db w))
      in (r, w\<lparr>pw_db := s, pw_calls := Suc (pw_calls w)\<rparr>))"

definition read :: "(call_env \<Rightarrow> db \<Rightarrow> 'a) \<Rightarrow> 'm pg_world_scheme \<Rightarrow> 'a \<times> 'm pg_world_scheme" where
  "read f = call (\<lambda>c s. (f c s, s))"

definition pg_Initialize ::
  "Event \<Rightarrow> Subscription option list \<Rightarrow> 'm pg_world_scheme \<Rightarrow> (error + Delivery list) \<times> 'm pg_world_scheme" where
  "pg_Initialize e subs =
     call (\<lambda>c. InitializeEventDeliveries (ce_flt c) (ce_nows c) (Some e) subs)"

definition pg_GetDeliveries ::
  "string \<Rightarrow> 'm pg_world_scheme \<Rightarrow> (error + Delivery list) \<times> 'm pg_world_scheme" where
  "pg_GetDeliveries i = read (\<lambda>c. GetDeliveriesByEventID (ce_flt c) i)"

definition pg_ClaimEvent ::
  "string list \<Rightarrow> string \<Rightarrow> Duration \<Rightarrow> int \<Rightarrow> 'm pg_world_scheme
     \<Rightarrow> (error + ClaimedDelivery list) \<times> 'm pg_world_scheme" where
  "pg_ClaimEvent ids owner lease limit =
     call (\<lambda>c. ClaimEventDeliveries (ce_flt c) (ce_now c) (ce_locked c) ids owner lease limit)"

definition pg_Claim ::
  "string \<Rightarrow> Duration \<Rightarrow> int \<Rightarrow> 'm pg_world_scheme
     \<Rightarrow> (error + ClaimedDelivery list) \<times> 'm pg_world_scheme" where
  "pg_Claim owner lease limit =
     call (\<lambda>c. ClaimDeliveries (ce_flt c) (ce_now c) (ce_locked c) owner lease limit)"

definition pg_Persist ::
  "Delivery \<Rightarrow> DeliveryAttempt list \<Rightarrow> 'm pg_world_scheme \<Rightarrow> (error + unit) \<times> 'm pg_world_scheme" where
  "pg_Persist d as =
     call (\<lambda>c. PersistClaimedDeliveryOutcome (ce_flt c) (ce_nows c 0) (ce_now c) (Some d) as)"

definition pg_GetByEventTypes ::
  "string list \<Rightarrow> 'm pg_world_scheme \<Rightarrow> (error + (string \<rightharpoonup> Subscription list)) \<times> 'm pg_world_scheme" where
  "pg_GetByEventTypes types = read (\<lambda>c. GetByEventTypes (ce_flt c) types)"

definition pg_Redact :: "time \<Rightarrow> int \<Rightarrow> 'm pg_world_scheme \<Rightarrow> (error + nat) \<times> 'm pg_world_scheme" where
  "pg_Redact before limit = call (\<lambda>c. RedactAttemptBodies (ce_flt c) (ce_lockedAttempts c) before limit)"

definition pg_DeleteTerminal :: "time \<Rightarrow> int \<Rightarrow> 'm pg_world_scheme \<Rightarrow> (error + nat) \<times> 'm pg_world_scheme" where
  "pg_DeleteTerminal before limit = call (\<lambda>c. DeleteTerminalEvents (ce_flt c) (ce_lockedEvents c) before limit)"

definition pg_Backlog :: "'m pg_world_scheme \<Rightarrow> (error + RetryBacklogStats) \<times> 'm pg_world_scheme" where
  "pg_Backlog = read (\<lambda>c. GetRetryBacklogStats (ce_flt c) (ce_now c))"

text \<open>A world in which every call succeeds and nobody interferes.\<close>

definition sample_world :: "db \<Rightarrow> pg_world" where
  "sample_world s = \<lparr>pw_db = s,
     pw_env = (\<lambda>_. \<lparr>ce_others = id, ce_flt = (\<lambda>_. None), ce_nows = (\<lambda>_. 5000), ce_now = 5000,
                    ce_locked = {}, ce_lockedAttempts = {}, ce_lockedEvents = {}\<rparr>),
     pw_calls = 0\<rparr>"

subsection \<open>The invariant and what is relied on of other processes\<close>

definition event_ids :: "db \<Rightarrow> string set" where
  "event_ids s = ev_ID ` set (events s)"

definition others_ok :: "(db \<Rightarrow> db) \<Rightarrow> bool" where
  "others_ok f \<longleftrightarrow> (\<forall>s. db_ok s \<longrightarrow> db_ok (f s) \<and> event_ids s \<subseteq> event_ids (f s))"

definition pw_ok :: "'m pg_world_scheme \<Rightarrow> bool" where
  "pw_ok w \<longleftrightarrow> db_ok (pw_db w) \<and> (\<forall>n. others_ok (ce_others (pw_env w n)))"

definition pw_has_event :: "string \<Rightarrow> 'm pg_world_scheme \<Rightarrow> bool" where
  "pw_has_event i w \<longleftrightarrow> i \<in> event_ids (pw_db w)"

text \<open>The deliveries, by event and subscription, for when the other processes keep them, too.\<close>

definition delivery_keys :: "db \<Rightarrow> (string \<times> string) set" where
  "delivery_keys s = (\<lambda>d. (dl_EventID d, dl_SubscriptionID d)) ` set (deliveries s)"

definition pw_keeps :: "'m pg_world_scheme \<Rightarrow> bool" where
  "pw_keeps w \<longleftrightarrow> pw_ok w
     \<and> (\<forall>n s. db_ok s \<longrightarrow> delivery_keys s \<subseteq> delivery_keys (ce_others (pw_env w n) s))"

definition pw_has_delivery :: "string \<Rightarrow> string \<Rightarrow> 'm pg_world_scheme \<Rightarrow> bool" where
  "pw_has_delivery i j w \<longleftrightarrow> (i, j) \<in> delivery_keys (pw_db w)"

text \<open>An operation that keeps the invariant of the database keeps the world's.\<close>

lemma call_ok:
  assumes "pw_ok w" "call f w = (r, w')"
    and "\<And>c s t. db_ok s \<Longrightarrow> f c s = (r, t) \<Longrightarrow> db_ok t \<and> event_ids s \<subseteq> event_ids t"
  shows "pw_ok w'" "pw_has_event i w \<Longrightarrow> pw_has_event i w'"
proof -
  let ?c = "pw_env w (pw_calls w)"
  obtain r' t where f: "f ?c (ce_others ?c (pw_db w)) = (r', t)" by fastforce
  with assms(2) have r: "r' = r" and w': "w' = w\<lparr>pw_db := t, pw_calls := Suc (pw_calls w)\<rparr>"
    by (simp_all add: call_def Let_def)
  have o: "db_ok (ce_others ?c (pw_db w))" "event_ids (pw_db w) \<subseteq> event_ids (ce_others ?c (pw_db w))"
    using assms(1) by (auto simp: pw_ok_def others_ok_def)
  from assms(3) [OF o(1)] f r have t: "db_ok t" "event_ids (ce_others ?c (pw_db w)) \<subseteq> event_ids t" by auto
  show "pw_ok w'" using assms(1) t(1) by (simp add: w' pw_ok_def)
  show "pw_has_event i w \<Longrightarrow> pw_has_event i w'" using o(2) t(2) by (auto simp: w' pw_has_event_def)
qed

lemma call_keeps:
  assumes "pw_keeps w" "call f w = (r, w')"
    and "\<And>c s t. db_ok s \<Longrightarrow> f c s = (r, t)
      \<Longrightarrow> db_ok t \<and> event_ids s \<subseteq> event_ids t \<and> delivery_keys s \<subseteq> delivery_keys t"
  shows "pw_keeps w'" "pw_has_event i w \<Longrightarrow> pw_has_event i w'" "pw_has_delivery j k w \<Longrightarrow> pw_has_delivery j k w'"
proof -
  let ?c = "pw_env w (pw_calls w)"
  have ok: "pw_ok w" using assms(1) by (simp add: pw_keeps_def)
  note world = call_ok [OF ok assms(2)]
  obtain t where f: "f ?c (ce_others ?c (pw_db w)) = (r, t)" and w': "w' = w\<lparr>pw_db := t, pw_calls := Suc (pw_calls w)\<rparr>"
    using assms(2) by (auto simp: call_def Let_def split: prod.splits)
  have db: "db_ok (ce_others ?c (pw_db w))" using ok by (auto simp: pw_ok_def others_ok_def)
  show "pw_keeps w'" using world(1) assms(1,3) by (auto simp: pw_keeps_def w')
  show "pw_has_event i w \<Longrightarrow> pw_has_event i w'" using world(2) assms(3) by blast
  have "db_ok (pw_db w)" using ok by (simp add: pw_ok_def)
  then have "delivery_keys (pw_db w) \<subseteq> delivery_keys t"
    using assms(1) assms(3) [OF db f] unfolding pw_keeps_def by blast
  then show "pw_has_delivery j k w \<Longrightarrow> pw_has_delivery j k w'" by (auto simp: pw_has_delivery_def w')
qed

lemma read_ok:
  assumes "pw_ok w" "read f w = (r, w')"
  shows "pw_ok w'" "pw_has_event i w \<Longrightarrow> pw_has_event i w'"
  using call_ok [OF assms(1) assms(2) [unfolded read_def]] by auto

text \<open>The operations keep the rows of events.\<close>

lemma Initialize_event_ids:
  assumes "InitializeEventDeliveries flt nows (Some e) subs s = (r, t)"
  shows "event_ids s \<subseteq> event_ids t" "r = Inr ds \<Longrightarrow> ev_ID e \<in> event_ids t"
proof -
  have "event_ids s \<subseteq> event_ids t \<and> (\<forall>ds. r = Inr ds \<longrightarrow> ev_ID e \<in> event_ids t)"
    using assms
  proof (cases rule: Initialize_cases)
    case (applied s1 s2)
    have "events s2 = events s1" using insert_deliveries_rows [OF applied(2)] by auto
    moreover have "event_ids s \<subseteq> event_ids s1 \<and> ev_ID e \<in> event_ids s1"
      using applied(1) by (auto simp: insert_event_def event_ids_def has_row_def image_iff split: if_splits) metis
    ultimately show ?thesis using applied(3) by (simp add: event_ids_def)
  qed simp
  then show "event_ids s \<subseteq> event_ids t" "r = Inr ds \<Longrightarrow> ev_ID e \<in> event_ids t" by auto
qed

lemma ClaimEvent_event_ids:
  "db_ok s \<Longrightarrow> ClaimEventDeliveries flt now lk ids ow l n s = (r, t) \<Longrightarrow> event_ids t = event_ids s"
  by (erule ClaimEventDeliveries_cases) (auto dest!: claim_candidates_spec(3) simp: event_ids_def)

lemma Claim_event_ids:
  "db_ok s \<Longrightarrow> ClaimDeliveries flt now lk ow l n s = (r, t) \<Longrightarrow> event_ids t = event_ids s"
  by (erule ClaimDeliveries_cases) (auto dest!: claim_candidates_spec(3) simp: event_ids_def)

lemma image_update_where:
  "(\<And>e. ev_ID (f e) = ev_ID e) \<Longrightarrow> ev_ID ` set (update_where P f es) = ev_ID ` set es"
  unfolding set_map [symmetric] by (simp only: map_update_where)

lemma Persist_event_ids:
  assumes "PersistClaimedDeliveryOutcome flt gonow now (Some d) as s = (r, t)"
  shows "event_ids t = event_ids s"
  using assms
  by (cases rule: Persist_cases) (auto simp: event_ids_def outcome_written_def image_update_where)

text \<open>They keep the deliveries, too, and initializing an event adds those of the given subscriptions.\<close>

lemma Initialize_delivery_keys:
  assumes "InitializeEventDeliveries flt nows (Some e) subs s = (r, t)"
  shows "delivery_keys s \<subseteq> delivery_keys t"
    "r = Inr ds \<Longrightarrow> Some u \<in> set subs \<Longrightarrow> (ev_ID e, sub_ID u) \<in> delivery_keys t"
proof -
  have "delivery_keys s \<subseteq> delivery_keys t
      \<and> (\<forall>ds u. r = Inr ds \<longrightarrow> Some u \<in> set subs \<longrightarrow> (ev_ID e, sub_ID u) \<in> delivery_keys t)"
    using assms
  proof (cases rule: Initialize_cases)
    case (applied s1 s2)
    have "deliveries s1 = deliveries s" using applied(1) by (auto simp: insert_event_def split: if_splits)
    moreover obtain new where "s2 = s1\<lparr>deliveries := deliveries s1 @ new\<rparr>" "covers (ev_ID e) subs (deliveries s2)"
      using insert_deliveries_rows [OF applied(2)] by auto
    ultimately show ?thesis
      using applied(3) by (force simp: delivery_keys_def covers_def has_row_def)
  qed simp
  then show "delivery_keys s \<subseteq> delivery_keys t"
    "r = Inr ds \<Longrightarrow> Some u \<in> set subs \<Longrightarrow> (ev_ID e, sub_ID u) \<in> delivery_keys t" by blast+
qed

lemma delivery_keys_update_where:
  assumes "\<And>d. dl_EventID (f d) = dl_EventID d \<and> dl_SubscriptionID (f d) = dl_SubscriptionID d"
    and "deliveries t = update_where P f (deliveries s)"
  shows "delivery_keys t = delivery_keys s"
  unfolding delivery_keys_def assms(2) set_map [symmetric]
  by (simp only: map_update_where [where g = "\<lambda>d. (dl_EventID d, dl_SubscriptionID d)"] assms(1))

lemma ClaimEvent_delivery_keys:
  assumes "db_ok s" "ClaimEventDeliveries flt now lk ids ow l n s = (r, t)"
  shows "delivery_keys t = delivery_keys s"
  using assms(2)
proof (cases rule: ClaimEventDeliveries_cases)
  case (claimed cs res)
  then show ?thesis
    by (intro delivery_keys_update_where [where f = "claim_row ow l (timestamptz now)"])
      (simp_all add: claim_candidates_spec(3) [OF assms(1) claimed(2,3)])
qed (simp add: delivery_keys_def)

lemma Persist_delivery_keys:
  assumes "PersistClaimedDeliveryOutcome flt gonow now (Some d) as s = (r, t)"
  shows "delivery_keys t = delivery_keys s"
  using assms
proof (cases rule: Persist_cases)
  case (written owner deadline)
  then show ?thesis
    by (intro delivery_keys_update_where [where f = "write_outcome d"]) (simp_all add: outcome_written_def)
qed (simp add: delivery_keys_def)

text \<open>The lookup of a batch finds every active subscription that matches, in the database as the
  other processes have left it.\<close>

lemma pg_subscriptions_found:
  assumes "pg_GetByEventTypes types w = (Inr subsMap, w')" "distinct types" "ty \<in> set types"
    and "u \<in> set (subscriptions (ce_others (pw_env w (pw_calls w)) (pw_db w)))"
    and "sub_Active u" "MatchesEventType u ty"
  shows "\<exists>us. subsMap ty = Some us \<and> u \<in> set us"
proof -
  have "GetByEventTypes (ce_flt (pw_env w (pw_calls w))) types (ce_others (pw_env w (pw_calls w)) (pw_db w)) = Inr subsMap"
    using assms(1) by (simp add: pg_GetByEventTypes_def read_def call_def Let_def)
  from GetByEventTypes_Inr [OF assms(2) this, of ty] assms(3-6) show ?thesis
    by (auto simp: filter_empty_conv)
qed

lemmas pg_call_defs = pg_Initialize_def pg_GetDeliveries_def pg_ClaimEvent_def pg_Claim_def pg_Persist_def
  pg_GetByEventTypes_def pg_Redact_def pg_DeleteTerminal_def pg_Backlog_def

text \<open>A world in which the other processes pause, so that the databases before and after compare
  one's own work.\<close>

definition pg_quiet :: "'m pg_world_scheme \<Rightarrow> bool" where
  "pg_quiet w \<longleftrightarrow> db_ok (pw_db w) \<and> (\<forall>n. ce_others (pw_env w n) = id)"

lemma call_quiet:
  assumes "pg_quiet w" "call f w = (r, w')"
  obtains t where "f (pw_env w (pw_calls w)) (pw_db w) = (r, t)"
    "w' = w\<lparr>pw_db := t, pw_calls := Suc (pw_calls w)\<rparr>"
  using assms by (auto simp: call_def pg_quiet_def Let_def split: prod.splits)

end
