(* ===== verification/Delivery_Handler.thy ===== *)
theory Delivery_Handler
  imports Webhook Local_Rate_Limiter Pg_World
begin

text \<open>
  \<^verbatim>\<open>internal/kafka/handler.go\<close>, \<^verbatim>\<open>delivery.go\<close> and the effectful part of \<^verbatim>\<open>webhook.go\<close>: one delivery
  attempt, its outcome, and the processing of a batch of messages.

  The handler is a record of its dependencies, each an operation on a world \<open>'w\<close>: the two
  repositories, the HTTP client, the rate limiter, the clock, the random numbers and the
  observer.  Whether a URL can be requested at all (\<open>http.NewRequest\<close>) is \<open>h_URLError\<close>.

  The locale \<open>delivery_runtime\<close> is the contract between the handler and its repository: what
  the repository keeps and promises on the one side, and on the other what the handler owes
  to it, that it only writes well-formed outcomes.
\<close>

subsection \<open>Dependencies\<close>

datatype delivery_observation =
    ObsDelivered
  | ObsFailed
  | ObsRetrying
  | ObsThrottled
  | ObsAttemptStarted
  | ObsAttemptDuration Duration
  | ObsRateLimited string

record 'w DeliveryHandler =
  h_InstanceID :: string
  h_LeaseDuration :: Duration
  h_retryPolicy :: Policy
  h_Initialize :: "Event \<Rightarrow> Subscription option list \<Rightarrow> 'w \<Rightarrow> (error + Delivery list) \<times> 'w"
  h_GetDeliveries :: "string \<Rightarrow> 'w \<Rightarrow> (error + Delivery list) \<times> 'w"
  h_ClaimEvent :: "string list \<Rightarrow> string \<Rightarrow> Duration \<Rightarrow> int \<Rightarrow> 'w \<Rightarrow> (error + ClaimedDelivery list) \<times> 'w"
  h_Persist :: "Delivery \<Rightarrow> DeliveryAttempt list \<Rightarrow> 'w \<Rightarrow> (error + unit) \<times> 'w"
  h_GetByEventTypes :: "string list \<Rightarrow> 'w \<Rightarrow> (error + (string \<rightharpoonup> Subscription list)) \<times> 'w"
  h_URLError :: "string \<Rightarrow> error option"
  h_Do :: "Request \<Rightarrow> 'w \<Rightarrow> (error + Response) \<times> 'w"
  h_rateLimiter :: "(string \<Rightarrow> RatePolicy \<Rightarrow> 'w \<Rightarrow> (RateLimitDecision \<times> error option) \<times> 'w) option"
  h_Now :: "'w \<Rightarrow> time \<times> 'w"
  h_Float64 :: "'w \<Rightarrow> real \<times> 'w"
  h_observe :: "delivery_observation \<Rightarrow> 'w \<Rightarrow> 'w"

text \<open>\<open>WithClaimIdentity\<close>; the other options are in \<^verbatim>\<open>Handler_Options\<close>.\<close>

definition WithClaimIdentity ::
  "string \<Rightarrow> Duration \<Rightarrow> ('w, 'm) DeliveryHandler_scheme \<Rightarrow> ('w, 'm) DeliveryHandler_scheme" where
  "WithClaimIdentity instanceID leaseDuration h =
     (let h = (if instanceID \<noteq> [] then h\<lparr>h_InstanceID := instanceID\<rparr> else h)
      in if leaseDuration > 0 then h\<lparr>h_LeaseDuration := leaseDuration\<rparr> else h)"

subsection \<open>One attempt\<close>

definition deliverWebhook ::
  "'w DeliveryHandler \<Rightarrow> string \<Rightarrow> Subscription \<Rightarrow> EventMessage \<Rightarrow> 'w
     \<Rightarrow> (int option \<times> string \<times> error option) \<times> 'w" where
  "deliverWebhook h traceID sub event w =
     (case marshal_payload event of
        Inl err \<Rightarrow> ((None, [], Some (ErrWrap ''marshal payload'' err)), w)
      | Inr payload \<Rightarrow>
          (case h_URLError h (sub_URL sub) of
             Some err \<Rightarrow> ((None, [], Some (ErrWrap ''create request'' err)), w)
           | None \<Rightarrow>
               (let (now, w) = (if has_secret sub then h_Now h w else (0, w));
                    (r, w) = h_Do h (webhook_request traceID now sub event payload) w
                in case r of
                     Inl err \<Rightarrow> ((None, [], Some (ErrWrap ''http request'' err)), w)
                   | Inr resp \<Rightarrow> (webhook_answer resp, w))))"

datatype deliveryOutcome = outcomeSuccess | outcomeThrottled | outcomeRetry | outcomeFailure

record subDeliveryResult =
  sr_outcome :: deliveryOutcome
  sr_attempt :: "DeliveryAttempt option"
  sr_lastError :: string
  sr_deliveredAt :: "time option"
  sr_retryAfter :: Duration

text \<open>The attempt row and the verdict on an answer.\<close>

definition new_attempt ::
  "EventMessage \<Rightarrow> Duration \<Rightarrow> time \<Rightarrow> int option \<Rightarrow> string \<Rightarrow> error option \<Rightarrow> DeliveryAttempt" where
  "new_attempt event duration createdAt statusCode respBody err =
     \<lparr>at_ID = 0, at_EventID = em_ID event, at_DeliveryID = [], at_SubscriptionID = [],
      at_AttemptNumber = em_Attempt event + 1, at_Generation = 0, at_StatusCode = statusCode,
      at_ResponseBody = (if respBody \<noteq> [] then Some respBody else None),
      at_Error = map_option Error err, at_DurationMs = Milliseconds duration,
      at_CreatedAt = createdAt\<rparr>"

definition failure_outcome :: "Policy \<Rightarrow> EventMessage \<Rightarrow> int option \<Rightarrow> deliveryOutcome" where
  "failure_outcome policy event statusCode =
     (if (case statusCode of Some c \<Rightarrow> isPermanentFailure c | None \<Rightarrow> False) then outcomeFailure
      else
        (let maxAttempts = em_MaxAttempts event;
             maxAttempts = (if maxAttempts = 0 then MaxAttempts policy else maxAttempts);
             canRetry = em_Attempt event + 1 < maxAttempts;
             canRetry = (case statusCode of Some c \<Rightarrow> canRetry \<and> isRetryableFailure c | None \<Rightarrow> canRetry)
         in if canRetry then outcomeRetry else outcomeFailure))"

text \<open>The \<open>record...\<close> methods hand one observation to the observer.\<close>

abbreviation recordDelivered :: "'w DeliveryHandler \<Rightarrow> 'w \<Rightarrow> 'w" where
  "recordDelivered h \<equiv> h_observe h ObsDelivered"

abbreviation recordFailed :: "'w DeliveryHandler \<Rightarrow> 'w \<Rightarrow> 'w" where
  "recordFailed h \<equiv> h_observe h ObsFailed"

abbreviation recordRetrying :: "'w DeliveryHandler \<Rightarrow> 'w \<Rightarrow> 'w" where
  "recordRetrying h \<equiv> h_observe h ObsRetrying"

abbreviation recordThrottled :: "'w DeliveryHandler \<Rightarrow> 'w \<Rightarrow> 'w" where
  "recordThrottled h \<equiv> h_observe h ObsThrottled"

abbreviation recordAttemptDuration :: "'w DeliveryHandler \<Rightarrow> Duration \<Rightarrow> 'w \<Rightarrow> 'w" where
  "recordAttemptDuration h duration \<equiv> h_observe h (ObsAttemptDuration duration)"

abbreviation recordRateLimited :: "'w DeliveryHandler \<Rightarrow> string \<Rightarrow> 'w \<Rightarrow> 'w" where
  "recordRateLimited h subID \<equiv> h_observe h (ObsRateLimited subID)"

abbreviation recordAttempt :: "'w DeliveryHandler \<Rightarrow> 'w \<Rightarrow> 'w" where
  "recordAttempt h \<equiv> h_observe h ObsAttemptStarted"

definition deliverToSubscription ::
  "'w DeliveryHandler \<Rightarrow> string \<Rightarrow> EventMessage \<Rightarrow> Subscription \<Rightarrow> 'w \<Rightarrow> subDeliveryResult \<times> 'w" where
  "deliverToSubscription h traceID event sub w =
     (let (decision, w) =
            (case h_rateLimiter h of
               None \<Rightarrow> (\<lparr>Allowed = True, RetryAfter = 0\<rparr>, w)
             | Some allow \<Rightarrow>
                 (let ((decision, err), w) = allow (sub_ID sub) (EffectiveRatePolicy sub) w
                  in (decision, w)))
      in if \<not> Allowed decision then
           (\<lparr>sr_outcome = outcomeThrottled, sr_attempt = None, sr_lastError = Error ErrRateLimited,
             sr_deliveredAt = None, sr_retryAfter = RetryAfter decision\<rparr>,
            recordRateLimited h (sub_ID sub) (recordThrottled h w))
         else
           (let w = recordAttempt h w;
                (start, w) = h_Now h w;
                ((statusCode, respBody, err), w) = deliverWebhook h traceID sub event w;
                (finish, w) = h_Now h w;
                duration = finish - start;
                w = recordAttemptDuration h duration w;
                (createdAt, w) = h_Now h w;
                attempt = new_attempt event duration createdAt statusCode respBody err
            in case err of
                 Some e \<Rightarrow>
                   (\<lparr>sr_outcome = failure_outcome (h_retryPolicy h) event statusCode,
                     sr_attempt = Some attempt, sr_lastError = Error e, sr_deliveredAt = None,
                     sr_retryAfter = 0\<rparr>, w)
               | None \<Rightarrow>
                   (let (now, w) = h_Now h w
                    in (\<lparr>sr_outcome = outcomeSuccess, sr_attempt = Some attempt, sr_lastError = [],
                         sr_deliveredAt = Some now, sr_retryAfter = 0\<rparr>, w))))"

record deliveryResult =
  dr_outcome :: deliveryOutcome
  dr_attempts :: "DeliveryAttempt list"
  dr_lastError :: string
  dr_deliveredAt :: "time option"
  dr_retryAfter :: Duration

definition subscriptionFromDelivery :: "Delivery \<Rightarrow> Subscription" where
  "subscriptionFromDelivery d =
     \<lparr>sub_ID = dl_SubscriptionID d, sub_URL = dl_SubscriptionURL d,
      sub_EventTypes = [dl_EventType d], sub_Secret = dl_SubscriptionSecret d,
      sub_MaxDeliveryRate = dl_MaxDeliveryRate d, sub_CreatedAt = 0, sub_Active = True\<rparr>"

definition eventFromDelivery :: "Delivery \<Rightarrow> EventMessage" where
  "eventFromDelivery d =
     \<lparr>em_ID = dl_EventID d, em_Type = dl_EventType d, em_Source = dl_Source d, em_Data = dl_Data d,
      em_MaxAttempts = dl_MaxAttempts d, em_Attempt = dl_Attempts d, em_LastError = [],
      em_NextAttemptAt = None, em_TraceID = []\<rparr>"

definition deliverDelivery ::
  "'w DeliveryHandler \<Rightarrow> string \<Rightarrow> Delivery \<Rightarrow> 'w \<Rightarrow> deliveryResult \<times> 'w" where
  "deliverDelivery h traceID d w =
     (let (result, w) = deliverToSubscription h traceID (eventFromDelivery d)
                          (subscriptionFromDelivery d) w
      in case sr_attempt result of
           None \<Rightarrow>
             (\<lparr>dr_outcome = sr_outcome result, dr_attempts = [], dr_lastError = sr_lastError result,
               dr_deliveredAt = None, dr_retryAfter = sr_retryAfter result\<rparr>, w)
         | Some a \<Rightarrow>
             (\<lparr>dr_outcome = sr_outcome result,
               dr_attempts = [a\<lparr>at_DeliveryID := dl_ID d, at_SubscriptionID := dl_SubscriptionID d,
                                at_Generation := dl_Generation d\<rparr>],
               dr_lastError = sr_lastError result, dr_deliveredAt = sr_deliveredAt result,
               dr_retryAfter = sr_retryAfter result\<rparr>, w))"

subsection \<open>Applying an outcome\<close>

definition retryDelay :: "'w DeliveryHandler \<Rightarrow> deliveryResult \<Rightarrow> int \<Rightarrow> 'w \<Rightarrow> Duration \<times> 'w" where
  "retryDelay h r attempt w =
     (if dr_retryAfter r > 0 then (dr_retryAfter r, w)
      else if Jitter (h_retryPolicy h) > 0 then
        (let (x, w) = h_Float64 h w in (CalculateDelay (h_retryPolicy h) attempt x, w))
      else (CalculateDelay (h_retryPolicy h) attempt 0, w))"

definition count_attempt :: "deliveryResult \<Rightarrow> Delivery \<Rightarrow> Delivery" where
  "count_attempt r d = (if length (dr_attempts r) > 0 then d\<lparr>dl_Attempts := dl_Attempts d + 1\<rparr> else d)"

definition applyDeliveryResult :: "'w DeliveryHandler \<Rightarrow> Delivery \<Rightarrow> deliveryResult \<Rightarrow> 'w \<Rightarrow> Delivery \<times> 'w" where
  "applyDeliveryResult h d r w =
     (case dr_outcome r of
        outcomeSuccess \<Rightarrow>
          (let w = recordDelivered h w;
               d = count_attempt r d;
               (now, w) = h_Now h w;
               deliveredAt = (case dr_deliveredAt r of Some t \<Rightarrow> t | None \<Rightarrow> now)
           in (MarkAsDelivered deliveredAt d, w))
      | outcomeRetry \<Rightarrow>
          (let w = recordRetrying h w;
               (now, w) = h_Now h w;
               (delay, w) = retryDelay h r (dl_Attempts d + 1) w;
               (updated, w) = h_Now h w
           in (MarkAsRetrying updated (now + delay) (dr_lastError r) d, w))
      | outcomeThrottled \<Rightarrow>
          (let (now, w) = h_Now h w;
               (delay, w) = retryDelay h r (dl_Attempts d + 1) w;
               (updated, w) = h_Now h w
           in (MarkAsThrottled updated (now + delay) (dr_lastError r) d, w))
      | outcomeFailure \<Rightarrow>
          (let w = recordFailed h w;
               d = count_attempt r d;
               (updated, w) = h_Now h w
           in (MarkAsFailed updated (dr_lastError r) d, w)))"

subsection \<open>Processing deliveries\<close>

record processed =
  ps_delivered :: "Delivery list"
  ps_retrying :: "Delivery list"
  ps_failed :: "Delivery list"

definition file_delivery :: "Delivery \<Rightarrow> processed \<Rightarrow> processed" where
  "file_delivery d p =
     (case dl_Status d of
        DeliveryStatusDelivered \<Rightarrow> p\<lparr>ps_delivered := ps_delivered p @ [d]\<rparr>
      | DeliveryStatusRetrying \<Rightarrow> p\<lparr>ps_retrying := ps_retrying p @ [d]\<rparr>
      | DeliveryStatusThrottled \<Rightarrow> p\<lparr>ps_retrying := ps_retrying p @ [d]\<rparr>
      | DeliveryStatusFailed \<Rightarrow> p\<lparr>ps_failed := ps_failed p @ [d]\<rparr>
      | _ \<Rightarrow> p)"

text \<open>\<open>ctx\<close> is the trace identifier of the context, empty when there is none.\<close>

definition delivery_trace :: "string \<Rightarrow> (string \<rightharpoonup> string) \<Rightarrow> Delivery \<Rightarrow> string" where
  "delivery_trace ctx traceByEventID d =
     (case traceByEventID (dl_EventID d) of
        Some traceID \<Rightarrow> if traceID \<noteq> [] then traceID else ctx
      | None \<Rightarrow> ctx)"

fun process_loop ::
  "'w DeliveryHandler \<Rightarrow> string \<Rightarrow> (string \<rightharpoonup> string) \<Rightarrow> Delivery option list \<Rightarrow> processed \<Rightarrow> 'w
     \<Rightarrow> (processed \<times> error option) \<times> 'w" where
  "process_loop h ctx traces [] p w = ((p, None), w)"
| "process_loop h ctx traces (None # ds) p w = process_loop h ctx traces ds p w"
| "process_loop h ctx traces (Some d # ds) p w =
     (let (result, w) = deliverDelivery h (delivery_trace ctx traces d) d w;
          (d', w) = applyDeliveryResult h d result w;
          p = file_delivery d' p;
          (r, w) = h_Persist h d' (dr_attempts result) w
      in case r of
           Inl err \<Rightarrow> ((p, Some (ErrWrap (''persist delivery outcome '' @ dl_ID d') err)), w)
         | Inr _ \<Rightarrow> process_loop h ctx traces ds p w)"

definition processDeliveries ::
  "'w DeliveryHandler \<Rightarrow> string \<Rightarrow> (string \<rightharpoonup> string) \<Rightarrow> Delivery option list \<Rightarrow> 'w
     \<Rightarrow> (processed \<times> error option) \<times> 'w" where
  "processDeliveries h ctx traces ds w =
     process_loop h ctx traces ds \<lparr>ps_delivered = [], ps_retrying = [], ps_failed = []\<rparr> w"

definition ProcessDeliveries ::
  "'w DeliveryHandler \<Rightarrow> string \<Rightarrow> Delivery option list \<Rightarrow> 'w \<Rightarrow> (processed \<times> error option) \<times> 'w" where
  "ProcessDeliveries h ctx ds w = processDeliveries h ctx Map.empty ds w"

subsection \<open>Processing a batch of messages\<close>

definition eventFromMessage :: "time \<Rightarrow> EventMessage \<Rightarrow> Event" where
  "eventFromMessage now msg =
     \<lparr>ev_ID = em_ID msg, ev_Type = em_Type msg, ev_Source = em_Source msg, ev_Data = em_Data msg,
      ev_Status = EventStatusPending, ev_Attempts = em_Attempt msg, ev_MaxAttempts = em_MaxAttempts msg,
      ev_NextAttemptAt = None, ev_LastError = None, ev_CreatedAt = now, ev_UpdatedAt = now,
      ev_DeliveredAt = None\<rparr>"

definition default_attempts :: "'w DeliveryHandler \<Rightarrow> EventMessage \<Rightarrow> EventMessage" where
  "default_attempts h msg =
     (if em_MaxAttempts msg = 0 then msg\<lparr>em_MaxAttempts := MaxAttempts (h_retryPolicy h)\<rparr> else msg)"

definition message_index :: "EventMessage list \<Rightarrow> (string \<rightharpoonup> EventMessage)" where
  "message_index msgs = fold (\<lambda>msg m. m(em_ID msg \<mapsto> msg)) msgs Map.empty"

definition trace_index :: "EventMessage list \<Rightarrow> (string \<rightharpoonup> string)" where
  "trace_index msgs =
     fold (\<lambda>msg m. if em_TraceID msg \<noteq> [] then m(em_ID msg \<mapsto> em_TraceID msg) else m) msgs Map.empty"

text \<open>The types are the keys of a Go map; its iteration order is arbitrary, and one order is taken.\<close>

definition subscriptionsForMessages ::
  "'w DeliveryHandler \<Rightarrow> EventMessage list \<Rightarrow> 'w \<Rightarrow> (error + (string \<rightharpoonup> Subscription list)) \<times> 'w" where
  "subscriptionsForMessages h msgs w = h_GetByEventTypes h (remdups (map em_Type msgs)) w"

fun initialize_messages ::
  "'w DeliveryHandler \<Rightarrow> (string \<rightharpoonup> Subscription list) \<Rightarrow> EventMessage list \<Rightarrow> int \<Rightarrow> 'w
     \<Rightarrow> (error + int) \<times> 'w" where
  "initialize_messages h subsMap [] n w = (Inr n, w)"
| "initialize_messages h subsMap (msg # msgs) n w =
     (let (now, w) = h_Now h w;
          subs = (case subsMap (em_Type msg) of Some us \<Rightarrow> map Some us | None \<Rightarrow> []);
          (r, w) = h_Initialize h (eventFromMessage now msg) subs w
      in case r of
           Inl err \<Rightarrow> (Inl (ErrWrap (''initialize deliveries for event '' @ em_ID msg) err), w)
         | Inr ds \<Rightarrow> initialize_messages h subsMap msgs (n + int (length ds)) w)"

record categorized =
  ct_successes :: "EventMessage list"
  ct_retries :: "EventMessage list"
  ct_failures :: "EventMessage list"

text \<open>The projection never has the empty status, which the \<open>switch\<close> would skip.\<close>

definition file_message :: "EventStatus \<Rightarrow> EventMessage \<Rightarrow> categorized \<Rightarrow> categorized" where
  "file_message status msg c =
     (case status of
        EventStatusDelivered \<Rightarrow> c\<lparr>ct_successes := ct_successes c @ [msg]\<rparr>
      | EventStatusRetrying \<Rightarrow> c\<lparr>ct_retries := ct_retries c @ [msg]\<rparr>
      | EventStatusThrottled \<Rightarrow> c\<lparr>ct_retries := ct_retries c @ [msg]\<rparr>
      | EventStatusPending \<Rightarrow> c\<lparr>ct_retries := ct_retries c @ [msg]\<rparr>
      | EventStatusProcessing \<Rightarrow> c\<lparr>ct_retries := ct_retries c @ [msg]\<rparr>
      | EventStatusFailed \<Rightarrow> c\<lparr>ct_failures := ct_failures c @ [msg]\<rparr>
      | EventStatusEmpty \<Rightarrow> c)"

fun categorizeMessagesFromDeliveries ::
  "'w DeliveryHandler \<Rightarrow> EventMessage list \<Rightarrow> (string \<rightharpoonup> EventMessage) \<Rightarrow> categorized \<Rightarrow> 'w
     \<Rightarrow> (error + categorized) \<times> 'w" where
  "categorizeMessagesFromDeliveries h [] byID c w = (Inr c, w)"
| "categorizeMessagesFromDeliveries h (msg # msgs) byID c w =
     (let (r, w) = h_GetDeliveries h (em_ID msg) w
      in case r of
           Inl err \<Rightarrow> (Inl (ErrWrap (''load deliveries for event '' @ em_ID msg) err), w)
         | Inr ds \<Rightarrow>
             (let (now, w) = (if ds = [] then h_Now h w else (0, w));
                  projection = ProjectEventFromDeliveries now (map Some ds);
                  event = (case byID (em_ID msg) of Some e \<Rightarrow> e | None \<Rightarrow> msg)
              in categorizeMessagesFromDeliveries h msgs byID
                   (file_message (pj_Status projection) event c) w))"

text \<open>Claiming and processing the deliveries of the batch; without deliveries nothing is claimed.\<close>

definition claim_and_process ::
  "'w DeliveryHandler \<Rightarrow> string \<Rightarrow> EventMessage list \<Rightarrow> int \<Rightarrow> 'w \<Rightarrow> error option \<times> 'w" where
  "claim_and_process h ctx msgs n w =
     (if n > 0 then
        (let (r, w) = h_ClaimEvent h (map em_ID msgs) (h_InstanceID h) (h_LeaseDuration h) n w
         in case r of
              Inl e \<Rightarrow> (Some (ErrWrap ''claim kafka deliveries'' e), w)
            | Inr claimed \<Rightarrow>
                (let ((_, e), w) = processDeliveries h ctx (trace_index msgs)
                                     (map (Some \<circ> cd_Delivery) claimed) w
                 in (map_option (ErrWrap ''process kafka deliveries'') e, w)))
      else (None, w))"

definition no_messages :: categorized where
  "no_messages = \<lparr>ct_successes = [], ct_retries = [], ct_failures = []\<rparr>"

definition ProcessBatch ::
  "'w DeliveryHandler \<Rightarrow> string \<Rightarrow> EventMessage list \<Rightarrow> 'w \<Rightarrow> (error + categorized) \<times> 'w" where
  "ProcessBatch h ctx msgs w =
     (if length msgs = 0 then (Inr no_messages, w)
      else
        (let msgs = map (default_attempts h) msgs;
             (subs, w) = subscriptionsForMessages h msgs w
         in case subs of
              Inl err \<Rightarrow> (Inl (ErrWrap ''load subscriptions for kafka events'' err), w)
            | Inr subsMap \<Rightarrow>
                (let (r, w) = initialize_messages h subsMap msgs 0 w
                 in case r of
                      Inl err \<Rightarrow> (Inl err, w)
                    | Inr totalDeliveries \<Rightarrow>
                        (let (err, w) = claim_and_process h ctx msgs totalDeliveries w
                         in case err of
                              Some e \<Rightarrow> (Inl e, w)
                            | None \<Rightarrow>
                                categorizeMessagesFromDeliveries h msgs (message_index msgs)
                                  no_messages w))))"

subsection \<open>Outcomes\<close>

lemma deliverDelivery_cases:
  assumes "deliverDelivery h tr d w = (r, w')"
  obtains (throttled) "dr_outcome r = outcomeThrottled" "dr_attempts r = []"
  | (attempted) a where "dr_outcome r \<noteq> outcomeThrottled" "dr_attempts r = [a]"
      "at_DeliveryID a = dl_ID d" "at_EventID a = dl_EventID d" "at_SubscriptionID a = dl_SubscriptionID d"
      "at_Generation a = dl_Generation d" "at_AttemptNumber a = dl_Attempts d + 1"
      "dr_retryAfter r = 0"
      "dr_outcome r = outcomeRetry \<Longrightarrow>
         dl_Attempts d + 1 < (if dl_MaxAttempts d = 0 then MaxAttempts (h_retryPolicy h) else dl_MaxAttempts d)"
proof -
  obtain q u where q: "deliverToSubscription h tr (eventFromDelivery d) (subscriptionFromDelivery d) w = (q, u)"
    by fastforce
  have fo: "failure_outcome p e c = outcomeRetry \<Longrightarrow> em_Attempt e + 1 < (if em_MaxAttempts e = 0 then MaxAttempts p else em_MaxAttempts e)"
    "failure_outcome p e c \<noteq> outcomeThrottled" for p e c
    by (auto simp: failure_outcome_def Let_def split: option.splits if_splits)
  from q have "sr_outcome q = outcomeThrottled \<and> sr_attempt q = None
     \<or> (\<exists>a. sr_outcome q \<noteq> outcomeThrottled \<and> sr_attempt q = Some a \<and> at_EventID a = dl_EventID d
          \<and> at_AttemptNumber a = dl_Attempts d + 1 \<and> sr_retryAfter q = 0
          \<and> (sr_outcome q = outcomeRetry \<longrightarrow> dl_Attempts d + 1 <
               (if dl_MaxAttempts d = 0 then MaxAttempts (h_retryPolicy h) else dl_MaxAttempts d)))"
    using fo [of "h_retryPolicy h" "eventFromDelivery d"]
    by (auto simp: deliverToSubscription_def Let_def new_attempt_def eventFromDelivery_def
        split: prod.splits option.splits if_splits)
  then show ?thesis
    using assms q throttled attempted
    by (auto simp: deliverDelivery_def)
qed

text \<open>What applying an outcome does to the delivery: only the fields of an outcome change, and the
  result is well-formed.\<close>

lemma applyDeliveryResult_ok:
  assumes "applyDeliveryResult h d r w = (d', w')"
  shows "outcome_ok d'" "dl_ID d' = dl_ID d" "dl_EventID d' = dl_EventID d"
    "dl_SubscriptionID d' = dl_SubscriptionID d" "dl_Generation d' = dl_Generation d"
    "dl_MaxAttempts d' = dl_MaxAttempts d"
    "dl_ProcessingOwner d' = dl_ProcessingOwner d" "dl_ProcessingDeadline d' = dl_ProcessingDeadline d"
  using assms
  by (auto simp: applyDeliveryResult_def outcome_ok_def count_attempt_def MarkAsDelivered_def
      MarkAsRetrying_def MarkAsThrottled_def MarkAsFailed_def Let_def
      split: deliveryOutcome.splits prod.splits)

lemma applyDeliveryResult_status:
  assumes "applyDeliveryResult h d r w = (d', w')"
  shows "dl_Status d' = (case dr_outcome r of outcomeSuccess \<Rightarrow> DeliveryStatusDelivered
           | outcomeRetry \<Rightarrow> DeliveryStatusRetrying | outcomeThrottled \<Rightarrow> DeliveryStatusThrottled
           | outcomeFailure \<Rightarrow> DeliveryStatusFailed)"
    and "dl_Attempts d' = dl_Attempts d + (case dr_outcome r of outcomeRetry \<Rightarrow> 1 | outcomeThrottled \<Rightarrow> 0
           | _ \<Rightarrow> if dr_attempts r = [] then 0 else 1)"
  using assms
  by (auto simp: applyDeliveryResult_def count_attempt_def MarkAsDelivered_def
      MarkAsRetrying_def MarkAsThrottled_def MarkAsFailed_def Let_def
      split: deliveryOutcome.splits prod.splits)

subsection \<open>What the handler relies on\<close>

text \<open>\<open>pres w w'\<close>: going from \<open>w\<close> to \<open>w'\<close> keeps what is to be kept.\<close>

locale preserved =
  fixes pres :: "'w \<Rightarrow> 'w \<Rightarrow> bool"
  assumes pres_refl: "pres w w"
    and pres_trans: "pres u v \<Longrightarrow> pres v w \<Longrightarrow> pres u w"

locale handler_environment = preserved pres
  for pres :: "'w \<Rightarrow> 'w \<Rightarrow> bool" +
  fixes h :: "'w DeliveryHandler"
  assumes Now: "pres w (snd (h_Now h w))"
    and Float64: "pres w (snd (h_Float64 h w))"
    and Do: "pres w (snd (h_Do h rq w))"
    and observe: "pres w (h_observe h x w)"
    and limiter: "h_rateLimiter h = Some allow \<Longrightarrow> pres w (snd (allow i p w))"
begin

lemma pres_chain: "pres u v \<Longrightarrow> v' = v \<Longrightarrow> pres v' w \<Longrightarrow> pres u w"
  using pres_trans by blast

lemma Now_pres: "h_Now h w = (t, w') \<Longrightarrow> pres w w'"
  using Now [of w] by simp

lemma deliverWebhook_pres:
  assumes "deliverWebhook h tr sub e w = (r, w')"
  shows "pres w w'"
proof (cases "\<exists>p. marshal_payload e = Inr p \<and> h_URLError h (sub_URL sub) = None")
  case False
  then have "w' = w" using assms by (auto simp: deliverWebhook_def split: sum.splits option.splits)
  then show ?thesis by (simp add: pres_refl)
next
  case True
  then obtain p where p: "marshal_payload e = Inr p" "h_URLError h (sub_URL sub) = None" by blast
  obtain t w1 where 1: "(if has_secret sub then h_Now h w else (0, w)) = (t, w1)" by fastforce
  obtain q w2 where 2: "h_Do h (webhook_request tr t sub e p) w1 = (q, w2)" by fastforce
  have "pres w w1" using 1 Now_pres pres_refl by (auto split: if_splits)
  moreover have "pres w1 w2" using Do [of w1 "webhook_request tr t sub e p"] 2 by simp
  moreover have "w' = w2"
    using assms p 1 2 by (simp add: deliverWebhook_def Let_def split: sum.splits)
  ultimately show ?thesis using pres_trans by blast
qed

lemma deliverToSubscription_pres:
  assumes "deliverToSubscription h tr e sub w = (r, w')"
  shows "pres w w'"
proof -
  obtain dec w0 where d: "(case h_rateLimiter h of None \<Rightarrow> (\<lparr>Allowed = True, RetryAfter = 0\<rparr>, w)
      | Some allow \<Rightarrow> (let ((decision, err), w) = allow (sub_ID sub) (EffectiveRatePolicy sub) w
                       in (decision, w))) = (dec, w0)" by fastforce
  have w0: "pres w w0"
    using d limiter [of _ w "sub_ID sub" "EffectiveRatePolicy sub"] pres_refl
    by (auto split: option.splits prod.splits)
  show ?thesis
  proof (cases "Allowed dec")
    case False
    then have "w' = h_observe h (ObsRateLimited (sub_ID sub)) (h_observe h ObsThrottled w0)"
      using assms d unfolding deliverToSubscription_def Let_def by simp
    then show ?thesis using w0 observe pres_trans by metis
  next
    case True
    let ?w1 = "h_observe h ObsAttemptStarted w0"
    obtain t1 w2 where 2: "h_Now h ?w1 = (t1, w2)" by fastforce
    obtain c b err w3 where 3: "deliverWebhook h tr sub e w2 = ((c, b, err), w3)" by (metis prod_cases3 surj_pair)
    obtain t2 w4 where 4: "h_Now h w3 = (t2, w4)" by fastforce
    let ?w5 = "h_observe h (ObsAttemptDuration (t2 - t1)) w4"
    obtain t3 w6 where 6: "h_Now h ?w5 = (t3, w6)" by fastforce
    have "pres w w6"
      using w0 observe Now_pres [OF 2] deliverWebhook_pres [OF 3] Now_pres [OF 4] Now_pres [OF 6]
      by (metis pres_trans)
    moreover have "w' = w6 \<or> w' = snd (h_Now h w6)"
      using assms d True 2 3 4 6 unfolding deliverToSubscription_def Let_def
      by (auto split: option.splits prod.splits)
    ultimately show ?thesis using Now pres_trans by blast
  qed
qed

lemma deliverDelivery_pres:
  assumes "deliverDelivery h tr d w = (r, w')"
  shows "pres w w'"
proof -
  obtain q u where q: "deliverToSubscription h tr (eventFromDelivery d) (subscriptionFromDelivery d) w = (q, u)"
    by fastforce
  moreover have "u = w'" using assms q by (auto simp: deliverDelivery_def split: option.splits)
  ultimately show ?thesis using deliverToSubscription_pres by blast
qed

lemma retryDelay_pres: "retryDelay h r n w = (x, w') \<Longrightarrow> pres w w'"
  using Float64 [of w] by (auto simp: retryDelay_def pres_refl split: if_splits prod.splits)

lemma applyDeliveryResult_pres:
  assumes "applyDeliveryResult h d r w = (d', w')"
  shows "pres w w'"
proof (cases "dr_outcome r")
  case outcomeSuccess
  then have "w' = snd (h_Now h (h_observe h ObsDelivered w))"
    using assms by (auto simp: applyDeliveryResult_def Let_def split: prod.splits)
  then show ?thesis using observe Now pres_trans by metis
next
  case outcomeFailure
  then have "w' = snd (h_Now h (h_observe h ObsFailed w))"
    using assms by (auto simp: applyDeliveryResult_def Let_def split: prod.splits)
  then show ?thesis using observe Now pres_trans by metis
next
  case outcomeRetry
  obtain t1 w1 where 1: "h_Now h (h_observe h ObsRetrying w) = (t1, w1)" by fastforce
  obtain x w2 where 2: "retryDelay h r (dl_Attempts d + 1) w1 = (x, w2)" by fastforce
  have "w' = snd (h_Now h w2)"
    using assms outcomeRetry 1 2 by (auto simp: applyDeliveryResult_def Let_def split: prod.splits)
  then show ?thesis using observe Now Now_pres [OF 1] retryDelay_pres [OF 2] pres_trans by metis
next
  case outcomeThrottled
  obtain t1 w1 where 1: "h_Now h w = (t1, w1)" by fastforce
  obtain x w2 where 2: "retryDelay h r (dl_Attempts d + 1) w1 = (x, w2)" by fastforce
  have "w' = snd (h_Now h w2)"
    using assms outcomeThrottled 1 2 by (auto simp: applyDeliveryResult_def Let_def split: prod.splits)
  then show ?thesis using Now Now_pres [OF 1] retryDelay_pres [OF 2] pres_trans by metis
qed

end

text \<open>
  The repository keeps its invariant \<open>inv\<close>, provided that what is persisted is a well-formed
  outcome, and once an event has been initialized it stays known.
\<close>

locale delivery_runtime = handler_environment pres h
  for pres :: "'w \<Rightarrow> 'w \<Rightarrow> bool" and h :: "'w DeliveryHandler" +
  fixes inv :: "'w \<Rightarrow> bool" and has_event :: "string \<Rightarrow> 'w \<Rightarrow> bool"
  assumes init: "pres w (snd (h_Initialize h e subs w))"
    and init_has: "inv w \<Longrightarrow> h_Initialize h e subs w = (Inr ds, w') \<Longrightarrow> has_event (ev_ID e) w'"
    and get: "pres w (snd (h_GetDeliveries h i w))"
    and claim: "pres w (snd (h_ClaimEvent h ids owner lease n w))"
    and persist: "outcome_ok d \<Longrightarrow> pres w (snd (h_Persist h d as w))"
    and subs: "pres w (snd (h_GetByEventTypes h types w))"
    and pres_inv: "pres w w' \<Longrightarrow> inv w \<Longrightarrow> inv w'"
    and pres_has: "pres w w' \<Longrightarrow> inv w \<Longrightarrow> has_event i w \<Longrightarrow> has_event i w'"
begin

lemma process_loop_pres: "process_loop h ctx traces ds p w = (r, w') \<Longrightarrow> pres w w'"
proof (induction ds arbitrary: p w)
  case (Cons x ds)
  show ?case
  proof (cases x)
    case None
    with Cons show ?thesis by simp
  next
    case (Some d)
    obtain res w1 where 1: "deliverDelivery h (delivery_trace ctx traces d) d w = (res, w1)" by fastforce
    obtain d' w2 where 2: "applyDeliveryResult h d res w1 = (d', w2)" by fastforce
    obtain q w3 where 3: "h_Persist h d' (dr_attempts res) w2 = (q, w3)" by fastforce
    have w3: "pres w w3"
      using deliverDelivery_pres [OF 1] applyDeliveryResult_pres [OF 2]
        persist [OF applyDeliveryResult_ok(1) [OF 2], of w2 "dr_attempts res"] 3 pres_trans by simp
    show ?thesis
    proof (cases q)
      case (Inl e)
      then have "w' = w3" using Cons.prems Some 1 2 3 by simp
      then show ?thesis using w3 by simp
    next
      case (Inr u)
      then have "process_loop h ctx traces ds (file_delivery d' p) w3 = (r, w')"
        using Cons.prems Some 1 2 3 by simp
      then show ?thesis using Cons.IH w3 pres_trans by blast
    qed
  qed
qed (simp add: pres_refl)

lemma initialize_messages_pres:
  "initialize_messages h subsMap msgs n w = (r, w') \<Longrightarrow> pres w w'"
proof (induction msgs arbitrary: n w)
  case (Cons m msgs)
  let ?subs = "case subsMap (em_Type m) of Some us \<Rightarrow> map Some us | None \<Rightarrow> []"
  obtain t w1 where 1: "h_Now h w = (t, w1)" by fastforce
  obtain q w2 where 2: "h_Initialize h (eventFromMessage t m) ?subs w1 = (q, w2)" by fastforce
  have w2: "pres w w2" using Now_pres [OF 1] init [of w1 "eventFromMessage t m" ?subs] 2 pres_trans by simp
  show ?case
  proof (cases q)
    case (Inl e)
    then show ?thesis using Cons.prems 1 2 w2 by simp
  next
    case (Inr ds)
    then show ?thesis using Cons.prems Cons.IH [of "n + int (length ds)" w2] 1 2 w2 pres_trans by simp
  qed
qed (simp add: pres_refl)

lemma initialize_messages_has:
  assumes "initialize_messages h subsMap msgs n w = (Inr k, w')" "inv w" "m \<in> set msgs"
  shows "has_event (em_ID m) w'"
  using assms
proof (induction msgs arbitrary: n w)
  case (Cons m1 msgs)
  let ?subs = "case subsMap (em_Type m1) of Some us \<Rightarrow> map Some us | None \<Rightarrow> []"
  obtain t w1 where 1: "h_Now h w = (t, w1)" by fastforce
  obtain q w2 where 2: "h_Initialize h (eventFromMessage t m1) ?subs w1 = (q, w2)" by fastforce
  obtain ds where q: "q = Inr ds" and rest: "initialize_messages h subsMap msgs (n + int (length ds)) w2 = (Inr k, w')"
    using Cons.prems(1) 1 2 by (cases q) auto
  have w1: "inv w1" using pres_inv [OF Now_pres [OF 1] Cons.prems(2)] .
  have w2: "inv w2" using pres_inv [OF init w1, of "eventFromMessage t m1" ?subs] 2 by simp
  have "has_event (em_ID m1) w2" using init_has [OF w1 2 [unfolded q]] by (simp add: eventFromMessage_def)
  then have "has_event (em_ID m1) w'" using pres_has [OF initialize_messages_pres [OF rest] w2] by blast
  then show ?case using Cons.IH [OF rest w2] Cons.prems(3) by auto
qed simp

lemma categorize_pres:
  "categorizeMessagesFromDeliveries h msgs byID c w = (r, w') \<Longrightarrow> pres w w'"
proof (induction msgs arbitrary: c w)
  case (Cons m msgs)
  obtain q w1 where 1: "h_GetDeliveries h (em_ID m) w = (q, w1)" by fastforce
  have w1: "pres w w1" using get [of w "em_ID m"] 1 by simp
  show ?case
  proof (cases q)
    case (Inl e)
    then show ?thesis using Cons.prems 1 w1 by simp
  next
    case (Inr ds)
    obtain t w2 where 2: "(if ds = [] then h_Now h w1 else (0, w1)) = (t, w2)" by fastforce
    have "pres w1 w2" using 2 Now_pres pres_refl by (auto split: if_splits)
    then show ?thesis using Cons.prems Cons.IH 1 2 Inr w1 pres_trans by (simp add: Let_def)
  qed
qed (simp add: pres_refl)

end

text \<open>The stages of a batch that is not empty.\<close>

lemma ProcessBatch_cases:
  assumes "ProcessBatch h ctx msgs w = (r, w')" "msgs \<noteq> []" "ms = map (default_attempts h) msgs"
  obtains (no_subs) e where "r = Inl e" "w' = snd (subscriptionsForMessages h ms w)"
  | (no_init) subsMap w1 e where "subscriptionsForMessages h ms w = (Inr subsMap, w1)"
      "initialize_messages h subsMap ms 0 w1 = (Inl e, w')" "r = Inl e"
  | (no_claim) subsMap w1 n w2 e where "subscriptionsForMessages h ms w = (Inr subsMap, w1)"
      "initialize_messages h subsMap ms 0 w1 = (Inr n, w2)"
      "claim_and_process h ctx ms n w2 = (Some e, w')" "r = Inl e"
  | (processed) subsMap w1 n w2 w3 where "subscriptionsForMessages h ms w = (Inr subsMap, w1)"
      "initialize_messages h subsMap ms 0 w1 = (Inr n, w2)" "claim_and_process h ctx ms n w2 = (None, w3)"
      "categorizeMessagesFromDeliveries h ms (message_index ms) no_messages w3 = (r, w')"
proof -
  obtain q w1 where 1: "subscriptionsForMessages h ms w = (q, w1)" by fastforce
  show ?thesis
  proof (cases q)
    case (Inl e)
    then show ?thesis using no_subs assms 1 by (auto simp: ProcessBatch_def)
  next
    case subs: (Inr subsMap)
    obtain i w2 where 2: "initialize_messages h subsMap ms 0 w1 = (i, w2)" by fastforce
    show ?thesis
    proof (cases i)
      case (Inl e)
      then show ?thesis using no_init assms 1 2 subs by (auto simp: ProcessBatch_def)
    next
      case n: (Inr n)
      obtain err w3 where 3: "claim_and_process h ctx ms n w2 = (err, w3)" by fastforce
      show ?thesis
      proof (cases err)
        case None
        then show ?thesis using processed assms 1 2 3 subs n by (auto simp: ProcessBatch_def Let_def)
      next
        case (Some e)
        then show ?thesis using no_claim assms 1 2 3 subs n by (auto simp: ProcessBatch_def)
      qed
    qed
  qed
qed

context delivery_runtime
begin

lemma claim_and_process_pres:
  assumes "claim_and_process h ctx ms n w = (err, w')"
  shows "pres w w'"
proof (cases "n > 0")
  case False
  then show ?thesis using assms pres_refl by (simp add: claim_and_process_def)
next
  case True
  obtain q w1 where 1: "h_ClaimEvent h (map em_ID ms) (h_InstanceID h) (h_LeaseDuration h) n w = (q, w1)"
    by fastforce
  have w1: "pres w w1" using claim [of w "map em_ID ms" "h_InstanceID h" "h_LeaseDuration h" n] 1 by simp
  show ?thesis
  proof (cases q)
    case (Inl e)
    then show ?thesis using assms True 1 w1 by (simp add: claim_and_process_def)
  next
    case (Inr cs)
    obtain p e w2 where 2: "processDeliveries h ctx (trace_index ms) (map (Some \<circ> cd_Delivery) cs) w1 = ((p, e), w2)"
      by (metis surj_pair)
    then have "pres w1 w2" unfolding processDeliveries_def by (rule process_loop_pres)
    moreover have "w' = w2" using assms True 1 2 Inr by (simp add: claim_and_process_def)
    ultimately show ?thesis using w1 pres_trans by blast
  qed
qed

lemma ProcessBatch_pres:
  assumes "ProcessBatch h ctx msgs w = (r, w')"
  shows "pres w w'"
proof (cases "msgs = []")
  case True
  then show ?thesis using assms pres_refl by (simp add: ProcessBatch_def)
next
  case False
  define ms where "ms = map (default_attempts h) msgs"
  have sub: "subscriptionsForMessages h ms w = (q, w1) \<Longrightarrow> pres w w1" for q w1
    using subs [of w "remdups (map em_Type ms)"] by (simp add: subscriptionsForMessages_def)
  from assms False ms_def show ?thesis
  proof (cases rule: ProcessBatch_cases)
    case (no_subs e)
    then show ?thesis using sub by (metis prod.collapse)
  next
    case (no_init subsMap w1 e)
    then show ?thesis using sub initialize_messages_pres pres_trans by blast
  next
    case (no_claim subsMap w1 n w2 e)
    show ?thesis
      using pres_trans [OF sub [OF no_claim(1)] pres_trans [OF initialize_messages_pres [OF no_claim(2)]
          claim_and_process_pres [OF no_claim(3)]]] .
  next
    case (processed subsMap w1 n w2 w3)
    show ?thesis
      using pres_trans [OF sub [OF processed(1)] pres_trans [OF initialize_messages_pres [OF processed(2)]
          pres_trans [OF claim_and_process_pres [OF processed(3)] categorize_pres [OF processed(4)]]]] .
  qed
qed

text \<open>A batch that succeeds has made every message's event known.\<close>

lemma ProcessBatch_durable:
  assumes "ProcessBatch h ctx msgs w = (Inr c, w')" "inv w" "m \<in> set msgs"
  shows "has_event (em_ID m) w'"
proof -
  have "msgs \<noteq> []" using assms(3) by auto
  define ms where "ms = map (default_attempts h) msgs"
  have m: "default_attempts h m \<in> set ms" "em_ID (default_attempts h m) = em_ID m"
    using assms(3) by (auto simp: ms_def default_attempts_def)
  from assms(1) \<open>msgs \<noteq> []\<close> ms_def show ?thesis
  proof (cases rule: ProcessBatch_cases)
    case (processed subsMap w1 n w2 w3)
    have "pres w w1"
      using subs [of w "remdups (map em_Type ms)"] processed(1) by (simp add: subscriptionsForMessages_def)
    then have w1: "inv w1" using pres_inv assms(2) by blast
    have "has_event (em_ID m) w2" using initialize_messages_has [OF processed(2) w1 m(1)] m(2) by simp
    moreover have "inv w2" using pres_inv [OF initialize_messages_pres [OF processed(2)] w1] .
    moreover have "pres w2 w'"
      using claim_and_process_pres [OF processed(3)] categorize_pres [OF processed(4)] pres_trans by blast
    ultimately show ?thesis using pres_has by blast
  qed auto
qed

end

text \<open>
  A repository that in addition keeps the deliveries it was asked for: after an event has been
  initialized each of the given subscriptions has a delivery, and it stays.
\<close>

locale delivery_coverage = delivery_runtime pres h inv has_event
  for pres :: "'w \<Rightarrow> 'w \<Rightarrow> bool" and h :: "'w DeliveryHandler" and inv :: "'w \<Rightarrow> bool"
    and has_event :: "string \<Rightarrow> 'w \<Rightarrow> bool" +
  fixes has_delivery :: "string \<Rightarrow> string \<Rightarrow> 'w \<Rightarrow> bool"
  assumes init_delivers: "inv w \<Longrightarrow> h_Initialize h e us w = (Inr ds, w') \<Longrightarrow> Some u \<in> set us
            \<Longrightarrow> has_delivery (ev_ID e) (sub_ID u) w'"
    and pres_delivers: "pres w w' \<Longrightarrow> inv w \<Longrightarrow> has_delivery i j w \<Longrightarrow> has_delivery i j w'"
begin

lemma initialize_messages_delivers:
  "initialize_messages h subsMap msgs n w = (Inr k, w') \<Longrightarrow> inv w \<Longrightarrow> m \<in> set msgs
     \<Longrightarrow> subsMap (em_Type m) = Some us \<Longrightarrow> u \<in> set us \<Longrightarrow> has_delivery (em_ID m) (sub_ID u) w'"
proof (induction msgs arbitrary: n w)
  case (Cons m1 msgs)
  let ?subs = "case subsMap (em_Type m1) of Some us \<Rightarrow> map Some us | None \<Rightarrow> []"
  obtain t w1 where 1: "h_Now h w = (t, w1)" by fastforce
  obtain q w2 where 2: "h_Initialize h (eventFromMessage t m1) ?subs w1 = (q, w2)" by fastforce
  obtain ds where q: "q = Inr ds"
    and rest: "initialize_messages h subsMap msgs (n + int (length ds)) w2 = (Inr k, w')"
    using Cons.prems(1) 1 2 by (cases q) auto
  have w1: "inv w1" using pres_inv [OF Now_pres [OF 1] Cons.prems(2)] .
  have w2: "inv w2" using pres_inv [OF init w1, of "eventFromMessage t m1" ?subs] 2 by simp
  show ?case
  proof (cases "m \<in> set msgs")
    case True
    then show ?thesis using Cons.IH [OF rest w2 _ Cons.prems(4,5)] by blast
  next
    case False
    with Cons.prems(3) have "m = m1" by simp
    with init_delivers [OF w1 2 [unfolded q], of u] Cons.prems(4,5)
    have "has_delivery (em_ID m) (sub_ID u) w2" by (simp add: eventFromMessage_def)
    then show ?thesis using pres_delivers [OF initialize_messages_pres [OF rest] w2] by blast
  qed
qed simp

lemma ProcessBatch_delivers:
  assumes "ProcessBatch h ctx msgs w = (Inr c, w')" "inv w" "msgs \<noteq> []"
  obtains subsMap w1 where "h_GetByEventTypes h (remdups (map em_Type msgs)) w = (Inr subsMap, w1)"
    and "\<And>m us u. m \<in> set msgs \<Longrightarrow> subsMap (em_Type m) = Some us \<Longrightarrow> u \<in> set us
           \<Longrightarrow> has_delivery (em_ID m) (sub_ID u) w'"
proof -
  define ms where "ms = map (default_attempts h) msgs"
  have same: "em_ID (default_attempts h m) = em_ID m" "em_Type (default_attempts h m) = em_Type m" for m
    by (simp_all add: default_attempts_def)
  have types: "map em_Type ms = map em_Type msgs" by (simp add: ms_def same)
  from assms(1,3) ms_def show ?thesis
  proof (cases rule: ProcessBatch_cases)
    case (processed subsMap w1 n w2 w3)
    have get: "h_GetByEventTypes h (remdups (map em_Type msgs)) w = (Inr subsMap, w1)"
      using processed(1) by (simp add: subscriptionsForMessages_def types)
    have w1: "inv w1" using pres_inv [OF subs, of w "remdups (map em_Type msgs)"] get assms(2) by simp
    have w2: "inv w2" using pres_inv [OF initialize_messages_pres [OF processed(2)] w1] .
    have "pres w2 w'"
      using claim_and_process_pres [OF processed(3)] categorize_pres [OF processed(4)] pres_trans by blast
    then have "has_delivery (em_ID m) (sub_ID u) w'"
      if "m \<in> set msgs" "subsMap (em_Type m) = Some us" "u \<in> set us" for m us u
      using initialize_messages_delivers [OF processed(2) w1, of "default_attempts h m" us u] that
        pres_delivers w2 by (auto simp: ms_def same)
    with get that show ?thesis by blast
  qed auto
qed

end

subsection \<open>Filing messages\<close>

definition filed_ids :: "categorized \<Rightarrow> string multiset" where
  "filed_ids c = mset (map em_ID (ct_successes c @ ct_retries c @ ct_failures c))"

lemma projection_status_not_empty [simp]: "pj_Status (ProjectEventFromDeliveries now xs) \<noteq> EventStatusEmpty"
proof -
  have "event_status s \<noteq> EventStatusEmpty" for s by (cases s) simp_all
  then show ?thesis by (simp add: ProjectEventFromDeliveries_eq projection_of_def)
qed

lemma file_message_ids:
  "status \<noteq> EventStatusEmpty \<Longrightarrow> filed_ids (file_message status m c) = add_mset (em_ID m) (filed_ids c)"
  by (cases status) (simp_all add: file_message_def filed_ids_def)

lemma message_index_ID:
  assumes "\<And>j e. f j = Some e \<Longrightarrow> em_ID e = j"
  shows "fold (\<lambda>msg m. m(em_ID msg \<mapsto> msg)) ms f i = Some e \<Longrightarrow> em_ID e = i"
  using assms
proof (induction ms arbitrary: f)
  case (Cons m ms)
  show ?case
  proof (rule Cons.IH)
    show "fold (\<lambda>msg m. m(em_ID msg \<mapsto> msg)) ms (f(em_ID m \<mapsto> m)) i = Some e"
      using Cons.prems(1) by (simp only: fold_simps)
    show "em_ID e = j" if "(f(em_ID m \<mapsto> m)) j = Some e" for j e
      using that Cons.prems(2) by (cases "j = em_ID m") auto
  qed
qed simp

lemma categorize_files_all:
  assumes "categorizeMessagesFromDeliveries h msgs byID c w = (Inr c', w')"
    and "\<And>i e. byID i = Some e \<Longrightarrow> em_ID e = i"
  shows "filed_ids c' = filed_ids c + mset (map em_ID msgs)"
  using assms(1)
proof (induction msgs arbitrary: c w)
  case (Cons m msgs)
  obtain q w1 where 1: "h_GetDeliveries h (em_ID m) w = (q, w1)" by fastforce
  obtain ds where q: "q = Inr ds" using Cons.prems 1 by (cases q) auto
  obtain t w2 where 2: "(if ds = [] then h_Now h w1 else (0, w1)) = (t, w2)" by fastforce
  let ?e = "case byID (em_ID m) of Some e \<Rightarrow> e | None \<Rightarrow> m"
  let ?c = "file_message (pj_Status (ProjectEventFromDeliveries t (map Some ds))) ?e c"
  have "em_ID ?e = em_ID m" using assms(2) by (auto split: option.split)
  then have "filed_ids ?c = add_mset (em_ID m) (filed_ids c)" by (simp add: file_message_ids)
  moreover have "categorizeMessagesFromDeliveries h msgs byID ?c w2 = (Inr c', w')"
    using Cons.prems 1 2 q by (simp add: Let_def)
  ultimately show ?case using Cons.IH by fastforce
qed simp

lemma ProcessBatch_files_all:
  assumes "ProcessBatch h ctx msgs w = (Inr c, w')"
  shows "filed_ids c = mset (map em_ID msgs)"
proof (cases "msgs = []")
  case True
  then show ?thesis using assms by (auto simp: ProcessBatch_def no_messages_def filed_ids_def)
next
  case False
  have ids: "map em_ID (map (default_attempts h) msgs) = map em_ID msgs"
    by (simp add: default_attempts_def)
  from assms False refl show ?thesis
  proof (cases rule: ProcessBatch_cases)
    case (processed subsMap w1 n w2 w3)
    have "filed_ids c = filed_ids no_messages + mset (map em_ID (map (default_attempts h) msgs))"
      by (rule categorize_files_all [OF processed(4)])
         (use message_index_ID [of Map.empty] in \<open>auto simp: message_index_def\<close>)
    then show ?thesis unfolding ids by (simp add: no_messages_def filed_ids_def)
  qed auto
qed

end
