(* ===== verification/Delivery_Runtime.thy ===== *)
theory Delivery_Runtime
  imports Delivery_Handler
begin

text \<open>
  The delivery handler on the PostgreSQL repositories.  The worker's world extends the
  repositories' by everything else the handler can meet, each as a sequence that is
  arbitrary: what the clock and the random numbers give, what the destination of each request
  answers, what the rate limiter decides; and it records the requests sent and the
  observations made.  A statement for all worlds is a statement for every behaviour of the
  environment.

  The handler's contract \<open>delivery_runtime\<close> is interpreted here, and the properties of the
  handler that involve the database are stated.
\<close>

record worker_world = pg_world +
  ww_clock :: "nat \<Rightarrow> time"
  ww_clocks :: nat
  ww_random :: "nat \<Rightarrow> real"
  ww_randoms :: nat
  ww_http :: "nat \<Rightarrow> error + Response"
  ww_requests :: "Request list"
  ww_limit :: "nat \<Rightarrow> RateLimitDecision \<times> error option"
  ww_limits :: nat
  ww_observed :: "delivery_observation list"

definition ww_Now :: "worker_world \<Rightarrow> time \<times> worker_world" where
  "ww_Now w = (ww_clock w (ww_clocks w), w\<lparr>ww_clocks := Suc (ww_clocks w)\<rparr>)"

definition ww_Float64 :: "worker_world \<Rightarrow> real \<times> worker_world" where
  "ww_Float64 w = (ww_random w (ww_randoms w), w\<lparr>ww_randoms := Suc (ww_randoms w)\<rparr>)"

definition ww_Do :: "Request \<Rightarrow> worker_world \<Rightarrow> (error + Response) \<times> worker_world" where
  "ww_Do rq w = (ww_http w (length (ww_requests w)), w\<lparr>ww_requests := ww_requests w @ [rq]\<rparr>)"

definition ww_Allow ::
  "string \<Rightarrow> RatePolicy \<Rightarrow> worker_world \<Rightarrow> (RateLimitDecision \<times> error option) \<times> worker_world" where
  "ww_Allow i p w = (ww_limit w (ww_limits w), w\<lparr>ww_limits := Suc (ww_limits w)\<rparr>)"

definition ww_observe :: "delivery_observation \<Rightarrow> worker_world \<Rightarrow> worker_world" where
  "ww_observe x w = w\<lparr>ww_observed := ww_observed w @ [x]\<rparr>"

text \<open>What a worker is configured with.\<close>

record worker_config =
  wc_InstanceID :: string
  wc_LeaseDuration :: Duration
  wc_retryPolicy :: Policy
  wc_URLError :: "string \<Rightarrow> error option"
  wc_limited :: bool

definition worker_handler :: "worker_config \<Rightarrow> worker_world DeliveryHandler" where
  "worker_handler c =
     \<lparr>h_InstanceID = wc_InstanceID c, h_LeaseDuration = wc_LeaseDuration c, h_retryPolicy = wc_retryPolicy c,
      h_Initialize = pg_Initialize, h_GetDeliveries = pg_GetDeliveries, h_ClaimEvent = pg_ClaimEvent,
      h_Persist = pg_Persist, h_GetByEventTypes = pg_GetByEventTypes, h_URLError = wc_URLError c,
      h_Do = ww_Do, h_rateLimiter = (if wc_limited c then Some ww_Allow else None), h_Now = ww_Now,
      h_Float64 = ww_Float64, h_observe = ww_observe\<rparr>"

lemma worker_handler_simps [simp]:
  "h_InstanceID (worker_handler c) = wc_InstanceID c" "h_LeaseDuration (worker_handler c) = wc_LeaseDuration c"
  "h_retryPolicy (worker_handler c) = wc_retryPolicy c"
  "h_Initialize (worker_handler c) = pg_Initialize" "h_GetDeliveries (worker_handler c) = pg_GetDeliveries"
  "h_ClaimEvent (worker_handler c) = pg_ClaimEvent" "h_Persist (worker_handler c) = pg_Persist"
  "h_GetByEventTypes (worker_handler c) = pg_GetByEventTypes" "h_URLError (worker_handler c) = wc_URLError c"
  "h_Do (worker_handler c) = ww_Do"
  "h_rateLimiter (worker_handler c) = (if wc_limited c then Some ww_Allow else None)"
  "h_Now (worker_handler c) = ww_Now" "h_Float64 (worker_handler c) = ww_Float64"
  "h_observe (worker_handler c) = ww_observe"
  by (simp_all add: worker_handler_def)

lemmas ww_defs = ww_Now_def ww_Float64_def ww_Do_def ww_Allow_def ww_observe_def

subsection \<open>PostgreSQL provides the repository\<close>

definition ww_pres :: "worker_world \<Rightarrow> worker_world \<Rightarrow> bool" where
  "ww_pres w w' \<longleftrightarrow> (pw_ok w \<longrightarrow> pw_ok w' \<and> (\<forall>i. pw_has_event i w \<longrightarrow> pw_has_event i w'))"

lemma ww_pres_call:
  assumes "\<And>c s r t. db_ok s \<Longrightarrow> f c s = (r, t) \<Longrightarrow> db_ok t \<and> event_ids s \<subseteq> event_ids t"
  shows "ww_pres w (snd (call f w))"
  using call_ok [of w f "fst (call f w)" "snd (call f w)"] assms by (auto simp: ww_pres_def)

lemma ww_pres_read: "ww_pres w (snd (read f w))"
  unfolding read_def by (rule ww_pres_call) auto

lemma ww_pres_env: "pw_db w' = pw_db w \<Longrightarrow> pw_env w' = pw_env w \<Longrightarrow> ww_pres w w'"
  by (simp add: ww_pres_def pw_ok_def pw_has_event_def)

lemma ww_env_pres:
  "ww_pres w (snd (ww_Now w))" "ww_pres w (snd (ww_Float64 w))" "ww_pres w (snd (ww_Do rq w))"
  "ww_pres w (ww_observe x w)" "ww_pres w (snd (ww_Allow i p w))"
  by (rule ww_pres_env; simp add: ww_defs)+

interpretation worker: delivery_runtime ww_pres "worker_handler c" pw_ok pw_has_event
proof
  show "ww_pres w (snd (h_Initialize (worker_handler c) e subs w))" for w e subs
    unfolding worker_handler_simps pg_Initialize_def
    by (rule ww_pres_call) (metis InitializeEventDeliveries_ok Initialize_event_ids(1))
  show "pw_has_event (ev_ID e) w'"
    if "pw_ok w" "h_Initialize (worker_handler c) e subs w = (Inr ds, w')" for w e subs ds w'
    using that Initialize_event_ids(2)
    by (fastforce simp: pg_Initialize_def call_def pw_has_event_def Let_def split: prod.splits)
  show "ww_pres w (snd (h_ClaimEvent (worker_handler c) ids owner lease n w))" for w ids owner lease n
    unfolding worker_handler_simps pg_ClaimEvent_def
    by (rule ww_pres_call) (metis ClaimEventDeliveries_ok ClaimEvent_event_ids order_refl)
  show "ww_pres w (snd (h_Persist (worker_handler c) d as w))" if "outcome_ok d" for d as w
    unfolding worker_handler_simps pg_Persist_def
    by (rule ww_pres_call) (metis Persist_ok Persist_event_ids order_refl that)
  show "ww_pres u w" if "ww_pres u v" "ww_pres v w" for u v w using that by (simp add: ww_pres_def)
  show "ww_pres w (snd (allow i p w))" if "h_rateLimiter (worker_handler c) = Some allow" for allow i p w
    using that by (auto simp: ww_env_pres split: if_splits)
qed (simp_all add: ww_env_pres ww_pres_read pg_GetDeliveries_def pg_GetByEventTypes_def, simp_all add: ww_pres_def)

text \<open>The same with the deliveries, when the other processes keep them too.\<close>

definition ww_keeps :: "worker_world \<Rightarrow> worker_world \<Rightarrow> bool" where
  "ww_keeps w w' \<longleftrightarrow> (pw_keeps w \<longrightarrow> pw_keeps w' \<and> (\<forall>i. pw_has_event i w \<longrightarrow> pw_has_event i w')
     \<and> (\<forall>i j. pw_has_delivery i j w \<longrightarrow> pw_has_delivery i j w'))"

lemma ww_keeps_call:
  assumes "\<And>c s r t. db_ok s \<Longrightarrow> f c s = (r, t)
      \<Longrightarrow> db_ok t \<and> event_ids s \<subseteq> event_ids t \<and> delivery_keys s \<subseteq> delivery_keys t"
  shows "ww_keeps w (snd (call f w))"
  using call_keeps [of w f "fst (call f w)" "snd (call f w)"] assms by (auto simp: ww_keeps_def)

lemma ww_keeps_read: "ww_keeps w (snd (read f w))"
  unfolding read_def by (rule ww_keeps_call) auto

lemma ww_keeps_env: "pw_db w' = pw_db w \<Longrightarrow> pw_env w' = pw_env w \<Longrightarrow> ww_keeps w w'"
  by (simp add: ww_keeps_def pw_keeps_def pw_ok_def pw_has_event_def pw_has_delivery_def)

lemma ww_env_keeps:
  "ww_keeps w (snd (ww_Now w))" "ww_keeps w (snd (ww_Float64 w))" "ww_keeps w (snd (ww_Do rq w))"
  "ww_keeps w (ww_observe x w)" "ww_keeps w (snd (ww_Allow i p w))"
  by (rule ww_keeps_env; simp add: ww_defs)+

interpretation worker_cover: delivery_coverage ww_keeps "worker_handler c" pw_keeps pw_has_event pw_has_delivery
proof
  show "ww_keeps w (snd (h_Initialize (worker_handler c) e subs w))" for w e subs
    unfolding worker_handler_simps pg_Initialize_def
    by (rule ww_keeps_call) (metis InitializeEventDeliveries_ok Initialize_event_ids(1) Initialize_delivery_keys(1))
  show "pw_has_event (ev_ID e) w'"
    if "pw_keeps w" "h_Initialize (worker_handler c) e subs w = (Inr ds, w')" for w e subs ds w'
    using that Initialize_event_ids(2)
    by (fastforce simp: pg_Initialize_def call_def pw_has_event_def Let_def split: prod.splits)
  show "pw_has_delivery (ev_ID e) (sub_ID u) w'"
    if "pw_keeps w" "h_Initialize (worker_handler c) e us w = (Inr ds, w')" "Some u \<in> set us" for w e us ds w' u
    using that Initialize_delivery_keys(2)
    by (fastforce simp: pg_Initialize_def call_def pw_has_delivery_def Let_def split: prod.splits)
  show "ww_keeps w (snd (h_ClaimEvent (worker_handler c) ids owner lease n w))" for w ids owner lease n
    unfolding worker_handler_simps pg_ClaimEvent_def
    by (rule ww_keeps_call) (metis ClaimEventDeliveries_ok ClaimEvent_event_ids ClaimEvent_delivery_keys order_refl)
  show "ww_keeps w (snd (h_Persist (worker_handler c) d as w))" if "outcome_ok d" for d as w
    unfolding worker_handler_simps pg_Persist_def
    by (rule ww_keeps_call) (metis Persist_ok Persist_event_ids Persist_delivery_keys order_refl that)
  show "ww_keeps u w" if "ww_keeps u v" "ww_keeps v w" for u v w using that by (simp add: ww_keeps_def)
  show "ww_keeps w (snd (allow i p w))" if "h_rateLimiter (worker_handler c) = Some allow" for allow i p w
    using that by (auto simp: ww_env_keeps split: if_splits)
qed (simp_all add: ww_env_keeps ww_keeps_read pg_GetDeliveries_def pg_GetByEventTypes_def, simp_all add: ww_keeps_def)

subsection \<open>A sample worker\<close>

text \<open>The small database with one answer for all requests and one decision of the limiter.\<close>

definition sample_config :: "bool \<Rightarrow> worker_config" where
  "sample_config limited = \<lparr>wc_InstanceID = ''worker-1'', wc_LeaseDuration = 30 * Second,
     wc_retryPolicy = DefaultPolicy, wc_URLError = (\<lambda>_. None), wc_limited = limited\<rparr>"

definition sample_worker :: "db \<Rightarrow> (error + Response) \<Rightarrow> RateLimitDecision \<Rightarrow> worker_world" where
  "sample_worker s answer decision = pg_world.extend (sample_world s)
     \<lparr>ww_clock = (\<lambda>_. 6000), ww_clocks = 0, ww_random = (\<lambda>_. 1 / 2), ww_randoms = 0,
      ww_http = (\<lambda>_. answer), ww_requests = [], ww_limit = (\<lambda>_. (decision, None)), ww_limits = 0,
      ww_observed = []\<rparr>"

definition sample_message :: EventMessage where
  "sample_message = \<lparr>em_ID = ''evt_2'', em_Type = ''user.created'', em_Source = ''crm'', em_Data = ''{}'',
     em_MaxAttempts = 0, em_Attempt = 0, em_LastError = [], em_NextAttemptAt = None, em_TraceID = []\<rparr>"

lemma sample_message_texts [simp]: "pg_text ''evt_2''" "pg_text ''user.created''" "pg_text ''crm''"
  by code_simp+

lemmas sample_worker_defs = sample_config_def sample_worker_def sample_world_def pg_world.extend_def

lemma sample_worker_simps [simp]:
  "pw_db (sample_worker s a x) = s" "ce_others (pw_env (sample_worker s a x) n) = id"
  "ww_requests (sample_worker s a x) = []" "ww_http (sample_worker s a x) n = a"
  "ww_limit (sample_worker s a x) n = (x, None)" "wc_limited (sample_config l) = l"
  "wc_URLError (sample_config l) u = None"
  by (simp_all add: sample_worker_defs)

lemma sample_worker_ok: "db_ok s \<Longrightarrow> pw_ok (sample_worker s a x)"
  by (simp add: pw_ok_def others_ok_def)

lemma sample_payload: "\<exists>p. marshal_payload (eventFromDelivery (sample_claimed)) = Inr p"
proof -
  have "json_valid ''{}''" by code_simp
  then show ?thesis
    by (simp add: marshal_payload_def marshal_raw_def eventFromDelivery_def sample_defs)
qed

subsection \<open>Properties of the handler\<close>

text \<open>C16 Whatever the environment does (failing statements and requests, refusals of the limiter,
  other workers acting in between), processing a batch keeps the invariant of the database.\<close>

theorem batch_keeps_database:
  assumes "pw_ok w" "ProcessBatch (worker_handler c) ctx msgs w = (r, w')"
  shows "pw_ok w'"
  using worker.ProcessBatch_pres [OF assms(2)] assms(1) by (simp add: ww_pres_def)

theorem batch_keeps_database_witness:
  "pw_ok (snd (ProcessBatch (worker_handler (sample_config True)) [] [sample_message]
     (sample_worker (sample_db [sample_row]) (Inl (ErrText ''timeout'')) \<lparr>Allowed = True, RetryAfter = 0\<rparr>)))"
  by (rule batch_keeps_database [OF sample_worker_ok [OF sample_db_ok(1)] prod.collapse [symmetric]])

text \<open>C15 A batch that is reported as processed is durable: the event of every message has a row, the
  event has a delivery row for every subscription that was active and matched its type when the
  batch looked the subscriptions up, and every message is filed under exactly one of the outcomes.
  Of the other processes it is assumed that they keep the invariant of the database and the rows
  of events and deliveries.\<close>

theorem batch_success_is_durable:
  assumes "pw_ok w" "\<forall>n s. db_ok s \<longrightarrow> delivery_keys s \<subseteq> delivery_keys (ce_others (pw_env w n) s)"
    and "ProcessBatch (worker_handler c) ctx msgs w = (Inr cat, w')"
  shows "(\<forall>m \<in> set msgs. has_row (\<lambda>e. ev_ID e = em_ID m) (events (pw_db w'))
       \<and> (\<forall>u \<in> set (subscriptions (ce_others (pw_env w (pw_calls w)) (pw_db w))).
            sub_Active u \<and> MatchesEventType u (em_Type m) \<longrightarrow>
            has_row (\<lambda>d. dl_EventID d = em_ID m \<and> dl_SubscriptionID d = sub_ID u) (deliveries (pw_db w'))))
     \<and> mset (map em_ID (ct_successes cat @ ct_retries cat @ ct_failures cat)) = mset (map em_ID msgs)"
proof (intro conjI)
  show "mset (map em_ID (ct_successes cat @ ct_retries cat @ ct_failures cat)) = mset (map em_ID msgs)"
    using ProcessBatch_files_all [OF assms(3)] by (simp add: filed_ids_def)
  have keeps: "pw_keeps w" using assms(1,2) by (simp add: pw_keeps_def)
  show "\<forall>m \<in> set msgs. has_row (\<lambda>e. ev_ID e = em_ID m) (events (pw_db w'))
     \<and> (\<forall>u \<in> set (subscriptions (ce_others (pw_env w (pw_calls w)) (pw_db w))).
          sub_Active u \<and> MatchesEventType u (em_Type m) \<longrightarrow>
          has_row (\<lambda>d. dl_EventID d = em_ID m \<and> dl_SubscriptionID d = sub_ID u) (deliveries (pw_db w')))"
  proof (intro ballI conjI impI)
    fix m assume m: "m \<in> set msgs"
    then show "has_row (\<lambda>e. ev_ID e = em_ID m) (events (pw_db w'))"
      using worker.ProcessBatch_durable [OF assms(3,1)] by (fastforce simp: pw_has_event_def event_ids_def has_row_def)
    fix u assume u: "u \<in> set (subscriptions (ce_others (pw_env w (pw_calls w)) (pw_db w)))"
      "sub_Active u \<and> MatchesEventType u (em_Type m)"
    have "msgs \<noteq> []" using m by auto
    with assms(3) keeps show "has_row (\<lambda>d. dl_EventID d = em_ID m \<and> dl_SubscriptionID d = sub_ID u) (deliveries (pw_db w'))"
    proof (rule worker_cover.ProcessBatch_delivers)
      fix subsMap w1
      assume get: "h_GetByEventTypes (worker_handler c) (remdups (map em_Type msgs)) w = (Inr subsMap, w1)"
        and rows: "\<And>m us u. m \<in> set msgs \<Longrightarrow> subsMap (em_Type m) = Some us \<Longrightarrow> u \<in> set us
          \<Longrightarrow> pw_has_delivery (em_ID m) (sub_ID u) w'"
      obtain us where "subsMap (em_Type m) = Some us" "u \<in> set us"
        using pg_subscriptions_found [OF get [unfolded worker_handler_simps], of "em_Type m" u] m u by auto
      from rows [OF m this] show ?thesis by (auto simp: pw_has_delivery_def delivery_keys_def has_row_def)
    qed
  qed
qed

text \<open>A message whose event the subscription of the small database matches: the delivery is stored,
  claimed and throttled.\<close>

definition sample_order :: EventMessage where
  "sample_order = \<lparr>em_ID = ''evt_1'', em_Type = ''order.created'', em_Source = ''billing'', em_Data = ''{}'',
     em_MaxAttempts = 0, em_Attempt = 0, em_LastError = [], em_NextAttemptAt = None, em_TraceID = []\<rparr>"

lemma sample_batch:
  "\<exists>c w'. ProcessBatch (worker_handler (sample_config True)) [] [sample_order]
     (sample_worker (sample_db []) (Inl (ErrText ''timeout'')) \<lparr>Allowed = False, RetryAfter = Second\<rparr>) = (Inr c, w')"
  by (simp add: ProcessBatch_def subscriptionsForMessages_def pg_GetByEventTypes_def read_def call_def
      GetByEventTypes_def MatchesEventType_def matchWildcard_def default_attempts_def eventFromMessage_def
      pg_Initialize_def InitializeEventDeliveries_def prepare_event_def initial_event_def IsZero_def
      insert_event_def insert_delivery_def delivery_texts_def delivery_ints_def delivery_columns_def
      getDeliveriesByEventID_def deliveries_of_def commit_def claim_and_process_def
      pg_ClaimEvent_def ClaimEventDeliveries_def claim_result_def claim_candidates_def order_limit_def claimable_def
      claim_row_def postgresInterval_def Microseconds_def
      processDeliveries_def deliverDelivery_def deliverToSubscription_def
      applyDeliveryResult_def retryDelay_def MarkAsThrottled_def pg_Persist_def
      PersistClaimedDeliveryOutcome_def RowsAffected_def holds_claim_def updateEventProjection_def
      pg_GetDeliveries_def GetDeliveriesByEventID_def ww_defs sample_worker_defs sample_order_def
      pg_int_def text_column_def DefaultPolicy_def timestamptz_def sample_defs Let_def)

text \<open>A message without a matching subscription.\<close>

lemma sample_unmatched:
  "\<exists>c w'. ProcessBatch (worker_handler (sample_config True)) [] [sample_message]
     (sample_worker (sample_db [sample_row]) (Inl (ErrText ''timeout'')) \<lparr>Allowed = True, RetryAfter = 0\<rparr>) = (Inr c, w')"
  by (simp add: ProcessBatch_def subscriptionsForMessages_def pg_GetByEventTypes_def read_def call_def
      GetByEventTypes_def MatchesEventType_def matchWildcard_def default_attempts_def eventFromMessage_def
      pg_Initialize_def InitializeEventDeliveries_def prepare_event_def initial_event_def IsZero_def
      insert_event_def getDeliveriesByEventID_def deliveries_of_def commit_def claim_and_process_def
      pg_GetDeliveries_def GetDeliveriesByEventID_def ww_Now_def sample_worker_defs sample_message_def
      pg_int_def text_column_def DefaultPolicy_def sample_defs Let_def)

theorem batch_success_is_durable_witness:
  "\<exists>cat w'. ProcessBatch (worker_handler (sample_config True)) [] [sample_order]
       (sample_worker (sample_db []) (Inl (ErrText ''timeout'')) \<lparr>Allowed = False, RetryAfter = Second\<rparr>) = (Inr cat, w')
     \<and> has_row (\<lambda>d. dl_EventID d = ''evt_1'' \<and> dl_SubscriptionID d = ''sub_1'') (deliveries (pw_db w'))"
proof -
  let ?w = "sample_worker (sample_db []) (Inl (ErrText ''timeout'')) \<lparr>Allowed = False, RetryAfter = Second\<rparr>"
  obtain cat w' where b: "ProcessBatch (worker_handler (sample_config True)) [] [sample_order] ?w = (Inr cat, w')"
    using sample_batch by blast
  have "sample_sub \<in> set (subscriptions (ce_others (pw_env ?w (pw_calls ?w)) (pw_db ?w)))"
    "sub_Active sample_sub \<and> MatchesEventType sample_sub (em_Type sample_order)"
    by (simp add: sample_db_def) (simp add: sample_sub_def sample_order_def MatchesEventType_def matchWildcard_def)
  moreover have "\<forall>n s. db_ok s \<longrightarrow> delivery_keys s \<subseteq> delivery_keys (ce_others (pw_env ?w n) s)" by simp
  ultimately have "has_row (\<lambda>d. dl_EventID d = em_ID sample_order \<and> dl_SubscriptionID d = sub_ID sample_sub)
      (deliveries (pw_db w'))"
    using batch_success_is_durable [OF sample_worker_ok [OF sample_db_ok(4)] _ b] by simp
  with b show ?thesis by (auto simp: sample_order_def sample_sub_def)
qed

subsection \<open>One delivery\<close>

text \<open>Everything but the repository leaves the database alone.\<close>

interpretation worker_db: handler_environment
  "\<lambda>w w'. pw_db w' = pw_db w \<and> pw_env w' = pw_env w" "worker_handler c"
  by unfold_locales (auto simp: ww_defs split: if_splits)

definition more_attempts :: "Policy \<Rightarrow> Delivery \<Rightarrow> bool" where
  "more_attempts p d \<longleftrightarrow>
     dl_Attempts d + 1 < (if dl_MaxAttempts d = 0 then MaxAttempts p else dl_MaxAttempts d)"

text \<open>The documented verdict on the answer of a destination.\<close>

definition verdict :: "Policy \<Rightarrow> Delivery \<Rightarrow> error + Response \<Rightarrow> deliveryOutcome" where
  "verdict p d answer =
     (case answer of
        Inl _ \<Rightarrow> if more_attempts p d then outcomeRetry else outcomeFailure
      | Inr resp \<Rightarrow>
          (let c = rs_StatusCode resp
           in if 200 \<le> c \<and> c < 300 then outcomeSuccess
              else if c \<in> {408, 429, 500, 502, 503, 504} \<and> more_attempts p d then outcomeRetry
              else outcomeFailure))"

lemma failure_outcome_verdict:
  "failure_outcome p (eventFromDelivery d) None = verdict p d (Inl e)"
  "\<not> (200 \<le> rs_StatusCode resp \<and> rs_StatusCode resp < 300) \<Longrightarrow>
     failure_outcome p (eventFromDelivery d) (Some (rs_StatusCode resp)) = verdict p d (Inr resp)"
  by (auto simp: failure_outcome_def verdict_def more_attempts_def eventFromDelivery_def Let_def
      isPermanentFailure_def isRetryableFailure_def)

text \<open>C18 An attempt that is allowed and can be built sends exactly one request, to the URL of the
  delivery's snapshot with the marshalled event as its body, records exactly one attempt, and
  its outcome is the documented verdict on the destination's answer.\<close>

theorem attempt_outcome:
  assumes p: "marshal_payload (eventFromDelivery d) = Inr p"
    and url: "wc_URLError c (dl_SubscriptionURL d) = None"
    and allowed: "\<not> wc_limited c \<or> Allowed (fst (ww_limit w (ww_limits w)))"
    and run: "deliverDelivery (worker_handler c) tr d w = (r, w')"
  shows "dr_outcome r = verdict (wc_retryPolicy c) d (ww_http w (length (ww_requests w)))
     \<and> (\<exists>now. ww_requests w' = ww_requests w @
          [webhook_request tr now (subscriptionFromDelivery d) (eventFromDelivery d) p])
     \<and> (\<exists>a. dr_attempts r = [a]) \<and> pw_db w' = pw_db w"
proof -
  have u: "sub_URL (subscriptionFromDelivery d) = dl_SubscriptionURL d"
    by (simp add: subscriptionFromDelivery_def)
  show ?thesis
  proof (cases "ww_http w (length (ww_requests w))")
    case (Inl e)
    then show ?thesis
      using run p url allowed u failure_outcome_verdict(1) [of "wc_retryPolicy c" d e]
      by (cases "wc_limited c"; cases "has_secret (subscriptionFromDelivery d)";
          cases "ww_limit w (ww_limits w)")
         (auto simp: deliverDelivery_def deliverToSubscription_def deliverWebhook_def ww_defs Let_def)
  next
    case (Inr resp)
    show ?thesis
    proof (cases "200 \<le> rs_StatusCode resp \<and> rs_StatusCode resp < 300")
      case True
      then show ?thesis
        using run p url allowed u Inr
        by (cases "wc_limited c"; cases "has_secret (subscriptionFromDelivery d)";
            cases "ww_limit w (ww_limits w)")
           (auto simp: deliverDelivery_def deliverToSubscription_def deliverWebhook_def ww_defs Let_def
             webhook_answer_def verdict_def)
    next
      case False
      then show ?thesis
        using run p url allowed u Inr failure_outcome_verdict(2) [OF False, of "wc_retryPolicy c" d]
        by (cases "wc_limited c"; cases "has_secret (subscriptionFromDelivery d)";
            cases "ww_limit w (ww_limits w)")
           (auto simp: deliverDelivery_def deliverToSubscription_def deliverWebhook_def ww_defs Let_def
             webhook_answer_def)
    qed
  qed
qed

theorem attempt_outcome_witness:
  "\<exists>r w'. deliverDelivery (worker_handler (sample_config False)) [] sample_claimed
       (sample_worker (sample_db [sample_claimed]) (Inr \<lparr>rs_StatusCode = 503, rs_Read = ''busy''\<rparr>)
          \<lparr>Allowed = True, RetryAfter = 0\<rparr>) = (r, w')
     \<and> dr_outcome r = outcomeRetry \<and> length (ww_requests w') = 1"
proof -
  let ?w = "sample_worker (sample_db [sample_claimed]) (Inr \<lparr>rs_StatusCode = 503, rs_Read = ''busy''\<rparr>)
          \<lparr>Allowed = True, RetryAfter = 0\<rparr>"
  obtain r w' where d: "deliverDelivery (worker_handler (sample_config False)) [] sample_claimed ?w = (r, w')"
    by fastforce
  obtain p where p: "marshal_payload (eventFromDelivery sample_claimed) = Inr p" using sample_payload by blast
  have "more_attempts DefaultPolicy sample_claimed" by (simp add: more_attempts_def sample_defs)
  then have "verdict (wc_retryPolicy (sample_config False)) sample_claimed (ww_http ?w 0) = outcomeRetry"
    by (simp add: verdict_def sample_config_def)
  with attempt_outcome [OF p _ _ d] d show ?thesis by auto
qed

text \<open>A delivery the rate limiter refuses sends no request, records no attempt and uses up none of
  its attempts; it is scheduled for the time the limiter asks for.\<close>

lemma throttled_uses_no_attempt:
  assumes "wc_limited c" "\<not> Allowed (fst (ww_limit w (ww_limits w)))"
    and "deliverDelivery (worker_handler c) tr d w = (r, w1)"
    and "applyDeliveryResult (worker_handler c) d r w1 = (d', w2)"
  shows "ww_requests w2 = ww_requests w \<and> dr_attempts r = []
     \<and> dl_Status d' = DeliveryStatusThrottled \<and> dl_Attempts d' = dl_Attempts d
     \<and> (0 < RetryAfter (fst (ww_limit w (ww_limits w))) \<longrightarrow>
          dl_NextAttemptAt d' = Some (ww_clock w (ww_clocks w) + RetryAfter (fst (ww_limit w (ww_limits w)))))"
  using assms
  by (cases "ww_limit w (ww_limits w)")
     (auto simp: deliverDelivery_def deliverToSubscription_def applyDeliveryResult_def retryDelay_def
       MarkAsThrottled_def ww_defs Let_def split: if_splits)

subsection \<open>Processing claimed deliveries\<close>

text \<open>Rows other than those of the given deliveries are untouched; those have been released.\<close>

definition released :: "string set \<Rightarrow> db \<Rightarrow> db \<Rightarrow> bool" where
  "released ids s t \<longleftrightarrow>
     filter (\<lambda>r. dl_ID r \<notin> ids) (deliveries t) = filter (\<lambda>r. dl_ID r \<notin> ids) (deliveries s)
     \<and> map dl_ID (deliveries t) = map dl_ID (deliveries s)
     \<and> (\<forall>r \<in> set (deliveries t). dl_ID r \<in> ids \<longrightarrow>
          dl_Status r \<notin> {DeliveryStatusPending, DeliveryStatusProcessing} \<and> dl_ProcessingOwner r = None)"

lemma released_empty [simp]: "released {} s s"
  by (simp add: released_def)

lemma filter_update_where:
  assumes "\<And>r. P r \<Longrightarrow> \<not> Q r \<and> \<not> Q (f r)"
  shows "filter Q (update_where P f rs) = filter Q rs"
  using assms by (induction rs) auto

lemma persist_releases:
  assumes ok: "db_ok s" and d: "outcome_ok d"
    and p: "PersistClaimedDeliveryOutcome flt gonow now (Some d) as s = (Inr (), t)"
  shows "released {dl_ID d} s t"
  using p
proof (cases rule: Persist_cases)
  case (written owner deadline)
  let ?P = "holds_claim (dl_ID d) owner deadline"
  have t: "deliveries t = update_where ?P (write_outcome d) (deliveries s)"
    using written(4) by (simp add: outcome_written_def)
  have id: "?P r \<Longrightarrow> dl_ID r = dl_ID d" for r by (simp add: holds_claim_def)
  have keep: "filter (\<lambda>r. dl_ID r \<notin> {dl_ID d}) (deliveries t) = filter (\<lambda>r. dl_ID r \<notin> {dl_ID d}) (deliveries s)"
    unfolding t by (rule filter_update_where) (auto dest: id)
  have ids: "map dl_ID (deliveries t) = map dl_ID (deliveries s)"
    unfolding t by (rule map_update_where) simp
  have "filter ?P (deliveries s) \<noteq> []" using written(3) by (auto simp: RowsAffected_def)
  then obtain row where row: "row \<in> set (deliveries s)" "?P row" by (auto simp: filter_empty_conv)
  have "?P r" if "r \<in> set (deliveries s)" "dl_ID r = dl_ID d" for r
    using key_unique_eq [OF db_ok_keys(3) [OF ok] that(1) row(1)] that(2) row(2) id by simp
  then have "dl_Status r = dl_Status d \<and> dl_ProcessingOwner r = None"
    if "r \<in> set (deliveries t)" "dl_ID r = dl_ID d" for r
    using that unfolding t by (auto simp: set_update_where)
  then show ?thesis using keep ids d by (auto simp: released_def outcome_ok_def)
qed simp

lemma released_trans:
  assumes "released A s t" "released B t u"
  shows "released (A \<union> B) s u"
proof -
  have "filter (\<lambda>r. dl_ID r \<notin> A \<union> B) xs = filter (\<lambda>r. dl_ID r \<notin> A) (filter (\<lambda>r. dl_ID r \<notin> B) xs)"
    "filter (\<lambda>r. dl_ID r \<notin> A \<union> B) xs = filter (\<lambda>r. dl_ID r \<notin> B) (filter (\<lambda>r. dl_ID r \<notin> A) xs)" for xs
    by (simp_all add: conj_commute)
  then have keep: "filter (\<lambda>r. dl_ID r \<notin> A \<union> B) (deliveries u) = filter (\<lambda>r. dl_ID r \<notin> A \<union> B) (deliveries s)"
    using assms unfolding released_def by metis
  have "r \<in> set (deliveries t)" if "r \<in> set (deliveries u)" "dl_ID r \<notin> B" for r
  proof -
    have "r \<in> set (filter (\<lambda>r. dl_ID r \<notin> B) (deliveries u))" using that by simp
    then have "r \<in> set (filter (\<lambda>r. dl_ID r \<notin> B) (deliveries t))" using assms(2) by (simp only: released_def)
    then show ?thesis by simp
  qed
  then have "dl_Status r \<notin> {DeliveryStatusPending, DeliveryStatusProcessing} \<and> dl_ProcessingOwner r = None"
    if "r \<in> set (deliveries u)" "dl_ID r \<in> A \<union> B" for r
    using that assms unfolding released_def by blast
  with keep assms show ?thesis unfolding released_def by simp
qed

lemma process_loop_releases:
  assumes "pg_quiet w" "process_loop (worker_handler c) ctx traces (map Some ds) p w = ((q, None), w')"
  shows "released (dl_ID ` set ds) (pw_db w) (pw_db w') \<and> pg_quiet w'"
  using assms
proof (induction ds arbitrary: p w)
  case (Cons d ds)
  let ?h = "worker_handler c"
  obtain res w1 where 1: "deliverDelivery ?h (delivery_trace ctx traces d) d w = (res, w1)" by fastforce
  obtain d' w2 where 2: "applyDeliveryResult ?h d res w1 = (d', w2)" by fastforce
  obtain r w3 where 3: "h_Persist ?h d' (dr_attempts res) w2 = (r, w3)" by fastforce
  have r: "r = Inr ()" and rest: "process_loop ?h ctx traces (map Some ds) (file_delivery d' p) w3 = ((q, None), w')"
    using Cons.prems(2) 1 2 3 by (cases r; simp)+
  have same: "pw_db w2 = pw_db w" "pw_env w2 = pw_env w"
    using worker_db.deliverDelivery_pres [OF 1] worker_db.applyDeliveryResult_pres [OF 2] by simp_all
  then have quiet: "pg_quiet w2" using Cons.prems(1) by (simp add: pg_quiet_def)
  have c: "call (\<lambda>c. PersistClaimedDeliveryOutcome (ce_flt c) (ce_nows c 0) (ce_now c) (Some d')
      (dr_attempts res)) w2 = (Inr (), w3)" using 3 r by (simp add: pg_Persist_def)
  note ok = applyDeliveryResult_ok [OF 2]
  have db: "db_ok (pw_db w2)" using quiet by (simp add: pg_quiet_def)
  have one: "released {dl_ID d} (pw_db w) (pw_db w3) \<and> pg_quiet w3"
    by (rule call_quiet [OF quiet c])
       (use persist_releases [OF db ok(1)] Persist_ok [OF db ok(1)] ok(2) same quiet in \<open>auto simp: pg_quiet_def\<close>)
  then show ?case
    using Cons.IH [OF conjunct2 [OF one] rest] released_trans [of "{dl_ID d}" "pw_db w" "pw_db w3" "dl_ID ` set ds" "pw_db w'"]
    by simp
qed simp

text \<open>C17 When processing claimed deliveries reports no error, every one of them has been released
  with an outcome (none is left pending or claimed) and no other delivery row has changed, while
  other processes pause.\<close>

theorem processed_deliveries_released:
  assumes "db_ok (pw_db w)" "\<forall>n. ce_others (pw_env w n) = id"
    and "ProcessDeliveries (worker_handler c) ctx (map Some ds) w = ((q, None), w')"
  shows "released (dl_ID ` set ds) (pw_db w) (pw_db w')"
  using process_loop_releases [of w c ctx Map.empty ds _ q w'] assms
  by (simp add: pg_quiet_def ProcessDeliveries_def processDeliveries_def)

text \<open>The claimed delivery of the small database is throttled.\<close>

lemma sample_process:
  "\<exists>q w'. ProcessDeliveries (worker_handler (sample_config True)) [] [Some sample_claimed]
     (sample_worker (sample_db [sample_claimed]) (Inl (ErrText ''timeout'')) \<lparr>Allowed = False, RetryAfter = Second\<rparr>)
     = ((q, None), w')"
  by (simp add: ProcessDeliveries_def processDeliveries_def deliverDelivery_def deliverToSubscription_def
      applyDeliveryResult_def retryDelay_def MarkAsThrottled_def pg_Persist_def call_def
      PersistClaimedDeliveryOutcome_def RowsAffected_def holds_claim_def
      updateEventProjection_def getDeliveriesByEventID_def deliveries_of_def commit_def
      ww_defs timestamptz_def sample_worker_defs sample_defs Let_def)

theorem processed_deliveries_released_witness:
  "\<exists>w'. released {''evt_1:sub_1''} (sample_db [sample_claimed]) (pw_db (w' :: worker_world))"
proof -
  let ?w = "sample_worker (sample_db [sample_claimed]) (Inl (ErrText ''timeout'')) \<lparr>Allowed = False, RetryAfter = Second\<rparr>"
  obtain q w' where p: "ProcessDeliveries (worker_handler (sample_config True)) [] (map Some [sample_claimed]) ?w = ((q, None), w')"
    using sample_process by auto
  have "dl_ID sample_claimed = ''evt_1:sub_1''" by (simp add: sample_defs)
  with processed_deliveries_released [OF _ _ p] show ?thesis by (auto simp: sample_db_ok)
qed

subsection \<open>An answer the database refuses\<close>

lemma persist_bad_text:
  assumes "\<not> text_column (at_ResponseBody a)"
    and "PersistClaimedDeliveryOutcome flt gonow now (Some d) [a] s = (r, t)"
  shows "(\<exists>e. r = Inl e) \<and> deliveries t = deliveries s \<and> delivery_attempts t = delivery_attempts s
     \<and> events t = events s"
proof -
  have "\<not> text_column (at_ResponseBody (snd (normalizeDeliveryAttempt d a)))"
    using assms(1) by (simp add: normalizeDeliveryAttempt_def Let_def)
  then have "\<exists>e. exec (flt (InsertAttempt 0)) (insert_attempt now (snd (normalizeDeliveryAttempt d a)) u) = Inl e" for u
    by (cases "flt (InsertAttempt 0)") (simp_all add: insert_attempt_def)
  then have "\<exists>e. insert_attempts flt now 0 d [a] u = (Inl e, u)" for u
    by (metis insert_attempts_Cons sum.simps(5))
  then show ?thesis
    using assms(2)
    by (auto simp: PersistClaimedDeliveryOutcome_def Let_def simp del: insert_attempts_Cons
        split: option.splits prod.splits sum.splits if_splits)
       (metis Pair_inject rollback_simps sum.distinct(1))+
qed

lemma attempt_body:
  assumes "marshal_payload (eventFromDelivery d) = Inr p" "wc_URLError c (dl_SubscriptionURL d) = None"
    and "wc_limited c \<longrightarrow> Allowed (fst (ww_limit w (ww_limits w)))"
    and "ww_http w (length (ww_requests w)) = Inr resp" "take 1024 (rs_Read resp) \<noteq> []"
    and "deliverDelivery (worker_handler c) tr d w = (r, w')"
  shows "\<exists>a. dr_attempts r = [a] \<and> at_ResponseBody a = Some (take 1024 (rs_Read resp))"
    and "length (ww_requests w') = Suc (length (ww_requests w))"
proof -
  have u: "sub_URL (subscriptionFromDelivery d) = dl_SubscriptionURL d"
    by (simp add: subscriptionFromDelivery_def)
  show "\<exists>a. dr_attempts r = [a] \<and> at_ResponseBody a = Some (take 1024 (rs_Read resp))"
    "length (ww_requests w') = Suc (length (ww_requests w))"
    using assms u
    by (cases "wc_limited c"; cases "has_secret (subscriptionFromDelivery d)"; cases "ww_limit w (ww_limits w)";
        auto simp: deliverDelivery_def deliverToSubscription_def deliverWebhook_def ww_defs Let_def
          webhook_answer_def new_attempt_def split: if_splits)+
qed

lemma apply_keeps_requests:
  "applyDeliveryResult (worker_handler c) d r w = (d', w') \<Longrightarrow> ww_requests w' = ww_requests w"
  by (auto simp: applyDeliveryResult_def retryDelay_def ww_defs Let_def
      split: deliveryOutcome.splits if_splits)

lemma call_keeps_requests: "call f w = (r, w') \<Longrightarrow> ww_requests w' = ww_requests (w :: worker_world)"
  by (auto simp: call_def Let_def split: prod.splits)

text \<open>C20 An answer whose first 1024 bytes are not valid text, for instance because the cut falls
  inside a character, makes the outcome impossible to store.  When the rate limiter allows the
  request and other processes pause, it is sent, but processing fails, the delivery rows stay as
  they were, so that the row stays claimed until the lease has run out, and no attempt is recorded
  or counted.\<close>

theorem unstorable_answer_is_lost:
  assumes "db_ok (pw_db w)" "\<forall>n. ce_others (pw_env w n) = id"
    and "marshal_payload (eventFromDelivery d) = Inr p" "wc_URLError c (dl_SubscriptionURL d) = None"
    and "wc_limited c \<longrightarrow> Allowed (fst (ww_limit w (ww_limits w)))"
    and "ww_http w (length (ww_requests w)) = Inr resp"
    and "\<not> pg_text (take 1024 (rs_Read resp))"
    and "ProcessDeliveries (worker_handler c) ctx [Some d] w = ((q, err), w')"
  shows "err \<noteq> None \<and> deliveries (pw_db w') = deliveries (pw_db w)
     \<and> delivery_attempts (pw_db w') = delivery_attempts (pw_db w)
     \<and> length (ww_requests w') = Suc (length (ww_requests w))"
proof -
  let ?h = "worker_handler c"
  obtain res w1 where 1: "deliverDelivery ?h (delivery_trace ctx Map.empty d) d w = (res, w1)" by fastforce
  obtain d' w2 where 2: "applyDeliveryResult ?h d res w1 = (d', w2)" by fastforce
  obtain r w3 where 3: "h_Persist ?h d' (dr_attempts res) w2 = (r, w3)" by fastforce
  have "take 1024 (rs_Read resp) \<noteq> []" using assms(7) by (auto simp: pg_text_def)
  from attempt_body [OF assms(3-6) this 1] obtain a where a: "dr_attempts res = [a]"
      "at_ResponseBody a = Some (take 1024 (rs_Read resp))"
    and n: "length (ww_requests w1) = Suc (length (ww_requests w))" by blast
  have same: "pw_db w2 = pw_db w" "pw_env w2 = pw_env w"
    using worker_db.deliverDelivery_pres [OF 1] worker_db.applyDeliveryResult_pres [OF 2] by simp_all
  then have quiet: "pg_quiet w2" using assms(1,2) by (simp add: pg_quiet_def)
  have c: "call (\<lambda>c. PersistClaimedDeliveryOutcome (ce_flt c) (ce_nows c 0) (ce_now c) (Some d') [a]) w2 = (r, w3)"
    using 3 a by (simp add: pg_Persist_def)
  have bad: "\<not> text_column (at_ResponseBody a)" using a assms(7) by (simp add: text_column_def)
  have "(\<exists>e. r = Inl e) \<and> deliveries (pw_db w3) = deliveries (pw_db w2)
      \<and> delivery_attempts (pw_db w3) = delivery_attempts (pw_db w2)"
    by (rule call_quiet [OF quiet c]) (use persist_bad_text [OF bad] in auto)
  moreover have "err \<noteq> None \<and> w' = w3" if "r = Inl e" for e
    using assms(8) 1 2 3 that by (auto simp: ProcessDeliveries_def processDeliveries_def)
  ultimately show ?thesis
    using same n apply_keeps_requests [OF 2] call_keeps_requests [OF c] by auto
qed

theorem unstorable_answer_is_lost_witness:
  "\<exists>q err w'. ProcessDeliveries (worker_handler (sample_config True)) [] [Some sample_claimed]
       (sample_worker (sample_db [sample_claimed])
          (Inr \<lparr>rs_StatusCode = 200, rs_Read = replicate 1023 (CHR ''a'') @ [CHR 0xC3, CHR 0xA9]\<rparr>)
          \<lparr>Allowed = True, RetryAfter = 0\<rparr>) = ((q, err), w')
     \<and> err \<noteq> None \<and> deliveries (pw_db w') = [sample_claimed] \<and> length (ww_requests w') = 1"
proof -
  let ?resp = "\<lparr>rs_StatusCode = 200, rs_Read = replicate 1023 (CHR ''a'') @ [CHR 0xC3, CHR 0xA9]\<rparr>"
  let ?w = "sample_worker (sample_db [sample_claimed]) (Inr ?resp) \<lparr>Allowed = True, RetryAfter = 0\<rparr>"
  obtain q err w' where r: "ProcessDeliveries (worker_handler (sample_config True)) [] [Some sample_claimed] ?w
      = ((q, err), w')" by (metis prod_cases3 surj_pair)
  obtain p where p: "marshal_payload (eventFromDelivery sample_claimed) = Inr p" using sample_payload by blast
  have "\<not> utf8_valid (replicate 1023 (CHR ''a'') @ [CHR 0xC3])"
    by (subst utf8_valid_ascii) (auto simp: byte_def conts_def Let_def)
  moreover have "take 1024 (rs_Read ?resp) = replicate 1023 (CHR ''a'') @ [CHR 0xC3]"
    by simp
  ultimately have "\<not> pg_text (take 1024 (rs_Read ?resp))" by (simp add: pg_text_def)
  with unstorable_answer_is_lost [OF _ _ p _ _ _ _ r, of ?resp] r sample_db_ok(2) show ?thesis
    by (auto simp: sample_db_def)
qed

end
