(* ===== verification/Fleet.thy ===== *)
theory Fleet
  imports Delivery_Runtime
begin

text \<open>
  All processes of a deployment on one database: any number of workers, each of which claims
  deliveries, works on the copies of the rows it got and persists what came out; the API that
  replays; the consumers that store events; the cleaner.  The state has the database, its
  clock, and the copies that workers hold in memory (\<open>fl_held\<close>).  Every transaction is one
  step, since the statements take row locks; which rows a claim skips as locked, which
  statements fail and what a worker meets while it delivers is arbitrary.  A crash loses the
  copies of a worker and nothing else.

  \<open>lifecycle\<close> is the abstract specification: what may happen to one delivery, without tables,
  copies or processes.  The theory shows that the deployment refines it, by the invariant
  that every held copy is the current row, or has been overtaken after its lease ran out and can
  then never be written.
\<close>

subsection \<open>The abstract life of a delivery\<close>

datatype phase = Waiting | Leased string time | Finished | GivenUp

record tracked =
  tk_phase :: phase
  tk_attempts :: int
  tk_limit :: int
  tk_generation :: int

inductive lifecycle :: "time \<Rightarrow> tracked option \<Rightarrow> tracked option \<Rightarrow> bool" for now where
  stays: "lifecycle now x x"
| created: "lifecycle now None (Some \<lparr>tk_phase = Waiting, tk_attempts = n, tk_limit = m, tk_generation = 1\<rparr>)"
| leased: "tk_phase a = Waiting \<or> tk_phase a = Leased p e \<and> e \<le> now \<Longrightarrow> now < e'
    \<Longrightarrow> lifecycle now (Some a) (Some (a\<lparr>tk_phase := Leased p' e'\<rparr>))"
| finished: "tk_phase a = Leased p e
    \<Longrightarrow> lifecycle now (Some a) (Some (a\<lparr>tk_phase := Finished, tk_attempts := tk_attempts a + 1\<rparr>))"
| gave_up: "tk_phase a = Leased p e
    \<Longrightarrow> lifecycle now (Some a) (Some (a\<lparr>tk_phase := GivenUp, tk_attempts := tk_attempts a + 1\<rparr>))"
| put_off: "tk_phase a = Leased p e \<Longrightarrow> tk_attempts a + 1 < tk_limit a
    \<Longrightarrow> lifecycle now (Some a) (Some (a\<lparr>tk_phase := Waiting, tk_attempts := tk_attempts a + 1\<rparr>))"
| throttled: "tk_phase a = Leased p e \<Longrightarrow> lifecycle now (Some a) (Some (a\<lparr>tk_phase := Waiting\<rparr>))"
| replayed: "tk_phase a = GivenUp
    \<Longrightarrow> lifecycle now (Some a)
          (Some (a\<lparr>tk_phase := Waiting, tk_attempts := 0, tk_generation := tk_generation a + 1\<rparr>))"
| purged: "tk_phase a = Finished \<or> tk_phase a = GivenUp \<Longrightarrow> lifecycle now (Some a) None"

inductive_cases lifecycleE: "lifecycle now x y"

subsection \<open>The deployment\<close>

record fleet =
  fl_db :: db
  fl_now :: time
  fl_held :: "Delivery list"

definition copies :: "error + ClaimedDelivery list \<Rightarrow> Delivery list" where
  "copies r = (case r of Inl err \<Rightarrow> [] | Inr cs \<Rightarrow> map cd_Delivery cs)"

inductive fleet_step :: "Policy \<Rightarrow> fleet \<Rightarrow> fleet \<Rightarrow> bool" for pol where
  tick: "fl_now s \<le> t \<Longrightarrow> fleet_step pol s (s\<lparr>fl_now := t\<rparr>)"
| store: "InitializeEventDeliveries flt nows (Some e) subs (fl_db s) = (r, db')
    \<Longrightarrow> fleet_step pol s (s\<lparr>fl_db := db'\<rparr>)"
| claim_due: "ClaimDeliveries flt (fl_now s) locked owner lease limit (fl_db s) = (r, db') \<Longrightarrow> 0 < lease
    \<Longrightarrow> fleet_step pol s (s\<lparr>fl_db := db', fl_held := fl_held s @ copies r\<rparr>)"
| claim_event: "ClaimEventDeliveries flt (fl_now s) locked ids owner lease limit (fl_db s) = (r, db') \<Longrightarrow> 0 < lease
    \<Longrightarrow> fleet_step pol s (s\<lparr>fl_db := db', fl_held := fl_held s @ copies r\<rparr>)"
| finish: "d \<in> set (fl_held s) \<Longrightarrow> wc_retryPolicy c = pol
    \<Longrightarrow> deliverDelivery (worker_handler c) tr d w = (res, w1)
    \<Longrightarrow> applyDeliveryResult (worker_handler c) d res w1 = (d', w2)
    \<Longrightarrow> PersistClaimedDeliveryOutcome flt gonow (fl_now s) (Some d') (dr_attempts res) (fl_db s) = (r, db')
    \<Longrightarrow> fleet_step pol s (s\<lparr>fl_db := db', fl_held := remove1 d (fl_held s)\<rparr>)"
| crash: "fleet_step pol s (s\<lparr>fl_held := filter alive (fl_held s)\<rparr>)"
| replay: "ReplayFailedDelivery flt gonow (fl_now s) i scheduledAt (fl_db s) = (r, db')
    \<Longrightarrow> fleet_step pol s (s\<lparr>fl_db := db'\<rparr>)"
| redact: "RedactAttemptBodies flt lockedAttempts before limit (fl_db s) = (r, db')
    \<Longrightarrow> fleet_step pol s (s\<lparr>fl_db := db'\<rparr>)"
| purge: "DeleteTerminalEvents flt locked before limit (fl_db s) = (r, db')
    \<Longrightarrow> fleet_step pol s (s\<lparr>fl_db := db'\<rparr>)"
| subscribe: "Create flt u (fl_db s) = (r, db') \<Longrightarrow> fleet_step pol s (s\<lparr>fl_db := db'\<rparr>)"
| unsubscribe: "Delete flt i (fl_db s) = (r, db') \<Longrightarrow> fleet_step pol s (s\<lparr>fl_db := db'\<rparr>)"
| new_secret: "UpdateSecret flt i secret (fl_db s) = (r, db') \<Longrightarrow> fleet_step pol s (s\<lparr>fl_db := db'\<rparr>)"

inductive fleet_reach :: "Policy \<Rightarrow> fleet \<Rightarrow> bool" for pol where
  begins: "db_ok db \<Longrightarrow> fleet_reach pol \<lparr>fl_db = db, fl_now = t, fl_held = []\<rparr>"
| steps: "fleet_reach pol s \<Longrightarrow> fleet_step pol s t \<Longrightarrow> fleet_reach pol t"

subsection \<open>What a row of the table stands for\<close>

definition phase_of :: "Delivery \<Rightarrow> phase" where
  "phase_of d =
     (case dl_Status d of
        DeliveryStatusProcessing \<Rightarrow> Leased (the (dl_ProcessingOwner d)) (the (dl_ProcessingDeadline d))
      | DeliveryStatusDelivered \<Rightarrow> Finished
      | DeliveryStatusFailed \<Rightarrow> GivenUp
      | _ \<Rightarrow> Waiting)"

definition track :: "Policy \<Rightarrow> Delivery \<Rightarrow> tracked" where
  "track pol d = \<lparr>tk_phase = phase_of d, tk_attempts = dl_Attempts d,
     tk_limit = (if dl_MaxAttempts d = 0 then MaxAttempts pol else dl_MaxAttempts d),
     tk_generation = dl_Generation d\<rparr>"

definition tracking :: "Policy \<Rightarrow> db \<Rightarrow> string \<Rightarrow> tracked option" where
  "tracking pol s i = map_option (track pol) (List.find (\<lambda>d. dl_ID d = i) (deliveries s))"

text \<open>Every delivery of \<open>s\<close> makes at most one step of its life on the way to \<open>t\<close>.\<close>

definition lives_on :: "Policy \<Rightarrow> time \<Rightarrow> db \<Rightarrow> db \<Rightarrow> bool" where
  "lives_on pol now s t \<longleftrightarrow> (\<forall>i. lifecycle now (tracking pol s i) (tracking pol t i))"

lemma track_simps [simp]:
  "tk_phase (track pol d) = phase_of d" "tk_attempts (track pol d) = dl_Attempts d"
  "tk_generation (track pol d) = dl_Generation d"
  "tk_limit (track pol d) = (if dl_MaxAttempts d = 0 then MaxAttempts pol else dl_MaxAttempts d)"
  by (simp_all add: track_def)

lemma tracking_cases:
  assumes "db_ok s"
  obtains (absent) "tracking pol s i = None" "\<not> has_row (\<lambda>d. dl_ID d = i) (deliveries s)"
  | (present) r where "r \<in> set (deliveries s)" "dl_ID r = i" "tracking pol s i = Some (track pol r)"
  using find_key [OF db_ok_keys(3) [OF assms], of i] find_key_None [of dl_ID i "deliveries s"]
  by (cases "List.find (\<lambda>d. dl_ID d = i) (deliveries s)") (auto simp: tracking_def)

lemma tracking_row:
  assumes "db_ok s" "r \<in> set (deliveries s)" "dl_ID r = i"
  shows "tracking pol s i = Some (track pol r)"
  using find_key [OF db_ok_keys(3) [OF assms(1)], of i r] assms by (simp add: tracking_def)

lemma lives_on_same: "deliveries t = deliveries s \<Longrightarrow> lives_on pol now s t"
  by (simp add: lives_on_def tracking_def lifecycle.stays)

lemma find_update_where:
  assumes "\<And>r. k (f r) = k r"
  shows "List.find (\<lambda>r. k r = i) (update_where P f rs)
       = map_option (\<lambda>r. if P r then f r else r) (List.find (\<lambda>r. k r = i) rs)"
  using assms by (induction rs) (auto simp: update_where_def)

lemma lives_on_update:
  assumes rows: "deliveries t = update_where P f (deliveries s)" and id: "\<And>r. dl_ID (f r) = dl_ID r"
    and life: "\<And>r. r \<in> set (deliveries s) \<Longrightarrow> P r \<Longrightarrow> lifecycle now (Some (track pol r)) (Some (track pol (f r)))"
  shows "lives_on pol now s t"
proof -
  note found = find_update_where [where k = dl_ID and f = f, OF id]
  have "lifecycle now (tracking pol s i) (tracking pol t i)" for i
  proof (cases "List.find (\<lambda>d. dl_ID d = i) (deliveries s)")
    case None
    then show ?thesis unfolding tracking_def rows found by (simp add: lifecycle.stays)
  next
    case (Some r)
    then have "r \<in> set (deliveries s)" by (auto simp: find_Some_iff)
    with Some life show ?thesis
      unfolding tracking_def rows found by (simp add: lifecycle.stays)
  qed
  then show ?thesis by (simp add: lives_on_def)
qed

lemma lives_on_append:
  assumes "deliveries t = deliveries s @ new" and "\<And>r. r \<in> set new \<Longrightarrow> lifecycle now None (Some (track pol r))"
  shows "lives_on pol now s t"
proof -
  have app: "List.find p (xs @ ys) = (case List.find p xs of None \<Rightarrow> List.find p ys | Some x \<Rightarrow> Some x)"
    for p and xs ys :: "Delivery list" by (induction xs) auto
  have "lifecycle now (tracking pol s i) (tracking pol t i)" for i
  proof (cases "List.find (\<lambda>d. dl_ID d = i) (deliveries s)")
    case none: None
    show ?thesis
    proof (cases "List.find (\<lambda>d. dl_ID d = i) new")
      case None
      with none show ?thesis by (simp add: tracking_def assms(1) app lifecycle.stays)
    next
      case (Some r)
      then have "r \<in> set new" by (auto simp: find_Some_iff)
      with none Some assms(2) show ?thesis by (simp add: tracking_def assms(1) app)
    qed
  next
    case (Some r)
    then show ?thesis by (simp add: tracking_def assms(1) app lifecycle.stays)
  qed
  then show ?thesis by (simp add: lives_on_def)
qed

lemma lives_on_cleanup:
  assumes ok: "db_ok s" "db_ok t" and safe: "cleanup_safe s t"
  shows "lives_on pol now s t"
  unfolding lives_on_def
proof (intro allI)
  fix i
  from ok(1) show "lifecycle now (tracking pol s i) (tracking pol t i)"
  proof (cases rule: tracking_cases [where i = i and pol = pol])
    case absent
    with safe have "\<not> has_row (\<lambda>d. dl_ID d = i) (deliveries t)" by (auto simp: cleanup_safe_def has_row_def)
    with absent show ?thesis
      using find_key_None [of dl_ID i "deliveries t"] by (simp add: tracking_def lifecycle.stays)
  next
    case (present r)
    from ok(2) show ?thesis
    proof (cases rule: tracking_cases [where i = i and pol = pol])
      case absent
      with present safe have "\<not> live r" by (auto simp: cleanup_safe_def has_row_def)
      with present absent show ?thesis
        by (auto simp: live_def phase_of_def intro!: lifecycle.purged)
    next
      case (present q)
      with safe have "q \<in> set (deliveries s)" by (auto simp: cleanup_safe_def)
      with tracking_row [OF ok(1) this] present show ?thesis by (simp add: lifecycle.stays)
    qed
  qed
qed

subsection \<open>The steps of one delivery\<close>

text \<open>What a claim does to the table, for both kinds of claims.\<close>

definition claimed_rows :: "time \<Rightarrow> string \<Rightarrow> Duration \<Rightarrow> Delivery set \<Rightarrow> db \<Rightarrow> db \<Rightarrow> bool" where
  "claimed_rows now owner lease cs s t \<longleftrightarrow>
     cs \<subseteq> {d \<in> set (deliveries s). claimable now d}
     \<and> deliveries t = update_where (\<lambda>d. d \<in> cs) (claim_row owner lease now) (deliveries s)"

lemma claim_spec:
  assumes "db_ok s" "cs = order_limit key n (filter P (deliveries s))" "\<And>d. P d \<Longrightarrow> claimable now d"
    and "claim_candidates cs owner lease now s = (res, t)" "r = Inr res \<or> (\<exists>err. r = Inl err)"
  shows "claimed_rows now owner lease (set cs) s t" "distinct (copies r)"
    "set (copies r) \<subseteq> claim_row owner lease now ` set cs"
proof -
  note spec = claim_candidates_spec [OF assms(1,2,4)]
  have "set cs \<subseteq> set (filter P (deliveries s))" unfolding assms(2) by (rule set_order_limit)
  with assms(3) show "claimed_rows now owner lease (set cs) s t"
    unfolding spec(3) by (auto simp: claimed_rows_def)
  have "distinct (map cd_Delivery res)"
    using spec(4) by (auto simp: distinct_map inj_on_def)
  then show "distinct (copies r)" using assms(5) by (auto simp: copies_def)
  show "set (copies r) \<subseteq> claim_row owner lease now ` set cs"
    using assms(5) spec(1) by (auto simp: copies_def)
qed

lemma claim_due_spec:
  assumes "db_ok s" "ClaimDeliveries flt now locked owner lease limit s = (r, t)"
  obtains cs where "claimed_rows (timestamptz now) owner lease cs s t" "distinct (copies r)"
    "set (copies r) \<subseteq> claim_row owner lease (timestamptz now) ` cs"
  using assms(2)
proof (cases rule: ClaimDeliveries_cases)
  case (refused e)
  then show ?thesis using that [of "{}"] by (simp add: claimed_rows_def copies_def)
next
  case (claimed cs res)
  from claim_spec [OF assms(1) claimed(2) _ claimed(3,4)] that show ?thesis by blast
qed

lemma claim_event_spec:
  assumes "db_ok s" "ClaimEventDeliveries flt now locked ids owner lease limit s = (r, t)"
  obtains cs where "claimed_rows (timestamptz now) owner lease cs s t" "distinct (copies r)"
    "set (copies r) \<subseteq> claim_row owner lease (timestamptz now) ` cs"
  using assms(2)
proof (cases rule: ClaimEventDeliveries_cases)
  case nothing
  then show ?thesis using that [of "{}"] by (auto simp: claimed_rows_def copies_def)
next
  case (claimed cs res)
  from claim_spec [OF assms(1) claimed(2) _ claimed(3,4)] that show ?thesis by blast
qed

lemma postgresInterval_pos: "0 < lease \<Longrightarrow> 0 < postgresInterval lease"
  by (auto simp: postgresInterval_def Microseconds_def Let_def signed_divide_int_def)

lemma claimable_phase:
  assumes "row_ok d" "claimable now d"
  shows "phase_of d = Waiting
    \<or> phase_of d = Leased (the (dl_ProcessingOwner d)) (the (dl_ProcessingDeadline d)) \<and> the (dl_ProcessingDeadline d) \<le> now"
  using assms by (cases "dl_Status d") (auto simp: claimable_def phase_of_def due_def row_ok_def)

lemma claim_lives_on:
  assumes "db_ok s" "claimed_rows now owner lease cs s t" "0 < lease"
  shows "lives_on pol now s t"
proof (rule lives_on_update)
  show "deliveries t = update_where (\<lambda>d. d \<in> cs) (claim_row owner lease now) (deliveries s)"
    using assms(2) by (simp add: claimed_rows_def)
  fix r assume r: "r \<in> set (deliveries s)" "r \<in> cs"
  let ?e = "now + 1000 * postgresInterval lease"
  have "track pol (claim_row owner lease now r) = (track pol r)\<lparr>tk_phase := Leased owner ?e\<rparr>"
    by (simp add: track_def phase_of_def claim_row_def)
  moreover have "phase_of r = Waiting
    \<or> phase_of r = Leased (the (dl_ProcessingOwner r)) (the (dl_ProcessingDeadline r)) \<and> the (dl_ProcessingDeadline r) \<le> now"
    using assms(1,2) r by (intro claimable_phase) (auto simp: db_ok_def claimed_rows_def)
  ultimately show "lifecycle now (Some (track pol r)) (Some (track pol (claim_row owner lease now r)))"
    using postgresInterval_pos [OF assms(3)]
      lifecycle.leased [of "track pol r" "the (dl_ProcessingOwner r)" "the (dl_ProcessingDeadline r)" now ?e owner] by simp
qed simp

text \<open>A worker's outcome is one of the four ways to settle a lease.\<close>

lemma outcome_lifecycle:
  assumes "deliverDelivery (worker_handler c) tr d w = (res, w1)"
    and "applyDeliveryResult (worker_handler c) d res w1 = (d', w2)"
    and "dl_Status d = DeliveryStatusProcessing"
  shows "lifecycle now (Some (track (wc_retryPolicy c) d)) (Some (track (wc_retryPolicy c) (write_outcome d' d)))"
proof -
  let ?a = "track (wc_retryPolicy c) d" and ?b = "track (wc_retryPolicy c) (write_outcome d' d)"
  note st = applyDeliveryResult_status [OF assms(2)]
  obtain p e where ph: "tk_phase ?a = Leased p e" using assms(3) by (simp add: phase_of_def)
  have b: "?b = ?a\<lparr>tk_phase := phase_of (write_outcome d' d), tk_attempts := dl_Attempts d'\<rparr>"
    by (simp add: track_def)
  show ?thesis using assms(1)
  proof (cases rule: deliverDelivery_cases)
    case throttled
    with st b have "?b = ?a\<lparr>tk_phase := Waiting\<rparr>" by (simp add: phase_of_def track_def)
    with lifecycle.throttled [OF ph] show ?thesis by simp
  next
    case (attempted x)
    then show ?thesis
      unfolding b using st lifecycle.finished [OF ph] lifecycle.gave_up [OF ph] lifecycle.put_off [OF ph]
      by (cases "dr_outcome res") (auto simp: phase_of_def split: if_splits)
  qed
qed

subsection \<open>The copies in memory\<close>

text \<open>A held copy is the current row, or its lease has run out and no row is under its claim.\<close>

definition copy_ok :: "time \<Rightarrow> db \<Rightarrow> Delivery \<Rightarrow> bool" where
  "copy_ok now s d \<longleftrightarrow>
     (\<exists>owner deadline. dl_Status d = DeliveryStatusProcessing \<and> dl_ProcessingOwner d = Some owner
        \<and> dl_ProcessingDeadline d = Some deadline \<and> timestamptz deadline = deadline
        \<and> (d \<in> set (deliveries s)
           \<or> deadline \<le> timestamptz now \<and> \<not> has_row (holds_claim (dl_ID d) owner deadline) (deliveries s)))"

definition fleet_ok :: "fleet \<Rightarrow> bool" where
  "fleet_ok s \<longleftrightarrow> db_ok (fl_db s) \<and> distinct (fl_held s)
     \<and> (\<forall>d \<in> set (fl_held s). copy_ok (fl_now s) (fl_db s) d)"

text \<open>What a step may do to rows under a claim: remove or change one only when its lease has run
  out, and add one only with a lease that has not.\<close>

lemma copy_ok_step:
  assumes "copy_ok now s d" "db_ok s"
    and old: "d \<in> set (deliveries s) \<Longrightarrow> d \<in> set (deliveries t) \<or> due (dl_ProcessingDeadline d) (timestamptz now)"
    and new: "\<And>r. r \<in> set (deliveries t) \<Longrightarrow> dl_Status r = DeliveryStatusProcessing
      \<Longrightarrow> r \<in> set (deliveries s) \<or> \<not> due (dl_ProcessingDeadline r) (timestamptz now)"
  shows "copy_ok now t d"
proof -
  from assms(1) obtain owner deadline where d: "dl_Status d = DeliveryStatusProcessing"
      "dl_ProcessingOwner d = Some owner" "dl_ProcessingDeadline d = Some deadline" "timestamptz deadline = deadline"
    and alt: "d \<in> set (deliveries s)
       \<or> deadline \<le> timestamptz now \<and> \<not> has_row (holds_claim (dl_ID d) owner deadline) (deliveries s)"
    unfolding copy_ok_def by blast
  have "d \<in> set (deliveries t)
     \<or> deadline \<le> timestamptz now \<and> \<not> has_row (holds_claim (dl_ID d) owner deadline) (deliveries t)"
  proof (cases "d \<in> set (deliveries t)")
    case False
    with old alt d(3) have le: "deadline \<le> timestamptz now" by (auto simp: due_def)
    have "\<not> holds_claim (dl_ID d) owner deadline r" if r: "r \<in> set (deliveries t)" for r
    proof
      assume h: "holds_claim (dl_ID d) owner deadline r"
      with new [OF r] le d(4) have "r \<in> set (deliveries s)" by (auto simp: holds_claim_def due_def)
      with alt h have "d \<in> set (deliveries s)" "r \<in> set (deliveries s)" by (auto simp: has_row_def)
      moreover have "dl_ID r = dl_ID d" using h by (simp add: holds_claim_def)
      ultimately have "r = d" using key_unique_eq [OF db_ok_keys(3) [OF assms(2)]] by blast
      with r False show False by simp
    qed
    with le show ?thesis by (auto simp: has_row_def)
  qed simp
  with d show ?thesis unfolding copy_ok_def by blast
qed

lemma timestamptz_mono: "t \<le> u \<Longrightarrow> timestamptz t \<le> timestamptz u"
proof -
  have eq: "timestamptz x = x div 1000 * 1000" for x by (simp add: timestamptz_def minus_mod_eq_div_mult)
  assume "t \<le> u"
  then show ?thesis unfolding eq using zdiv_mono1 [of t u 1000] by simp
qed

lemma fleet_ok_tick: "fleet_ok s \<Longrightarrow> fl_now s \<le> t \<Longrightarrow> fleet_ok (s\<lparr>fl_now := t\<rparr>)"
  using timestamptz_mono [of "fl_now s" t] unfolding fleet_ok_def copy_ok_def by fastforce

text \<open>A step that keeps the rows under a claim and adds none.\<close>

lemma fleet_ok_keep:
  assumes "fleet_ok s" "db_ok db'"
    and "{d \<in> set (deliveries (fl_db s)). dl_Status d = DeliveryStatusProcessing}
       = {d \<in> set (deliveries db'). dl_Status d = DeliveryStatusProcessing}"
  shows "fleet_ok (s\<lparr>fl_db := db'\<rparr>)"
proof -
  have "copy_ok (fl_now s) db' d" if d: "copy_ok (fl_now s) (fl_db s) d" for d
  proof (rule copy_ok_step [OF d])
    show "db_ok (fl_db s)" using assms(1) by (simp add: fleet_ok_def)
    have "dl_Status d = DeliveryStatusProcessing" using d by (auto simp: copy_ok_def)
    then show "d \<in> set (deliveries (fl_db s)) \<Longrightarrow> d \<in> set (deliveries db') \<or> due (dl_ProcessingDeadline d) (timestamptz (fl_now s))"
      using assms(3) by blast
  qed (use assms(3) in blast)
  with assms(1,2) show ?thesis by (simp add: fleet_ok_def)
qed

lemma fleet_ok_same:
  "fleet_ok s \<Longrightarrow> db_ok db' \<Longrightarrow> deliveries db' = deliveries (fl_db s) \<Longrightarrow> fleet_ok (s\<lparr>fl_db := db'\<rparr>)"
  by (simp add: fleet_ok_keep)

lemma fleet_ok_claim:
  assumes "fleet_ok s" "db_ok db'" "0 < lease"
    and rows: "claimed_rows (timestamptz (fl_now s)) owner lease cs (fl_db s) db'"
    and new: "distinct held" "set held \<subseteq> claim_row owner lease (timestamptz (fl_now s)) ` cs"
  shows "fleet_ok (s\<lparr>fl_db := db', fl_held := fl_held s @ held\<rparr>)"
proof -
  let ?now = "timestamptz (fl_now s)" and ?db = "fl_db s"
  let ?f = "claim_row owner lease ?now"
  note ku = db_ok_keys(3) [of ?db]
  have ok: "db_ok ?db" "distinct (fl_held s)" "\<And>d. d \<in> set (fl_held s) \<Longrightarrow> copy_ok (fl_now s) ?db d"
    using assms(1) by (auto simp: fleet_ok_def)
  have set': "set (deliveries db') = {d \<in> set (deliveries ?db). d \<notin> cs} \<union> ?f ` cs"
    and cs: "cs \<subseteq> set (deliveries ?db)" "\<And>d. d \<in> cs \<Longrightarrow> claimable ?now d"
    using rows by (auto simp: claimed_rows_def set_update_where)
  have fut: "\<not> due (dl_ProcessingDeadline (?f q)) ?now" for q
    using postgresInterval_pos [OF assms(3)] by (simp add: due_def claim_row_def)
  have run_out: "due (dl_ProcessingDeadline d) ?now" if "d \<in> cs" "dl_Status d = DeliveryStatusProcessing" for d
    using cs(2) [OF that(1)] that(2) by (simp add: claimable_def)
  have "copy_ok (fl_now s) db' d" if "d \<in> set (fl_held s)" for d
    by (rule copy_ok_step [OF ok(3) [OF that] ok(1)])
      (use set' run_out fut ok(3) [OF that] in \<open>auto simp: copy_ok_def\<close>)
  moreover have "copy_ok (fl_now s) db' d" if d: "d \<in> set held" for d
  proof -
    obtain q where q: "q \<in> cs" "d = ?f q" using d new(2) by blast
    have "timestamptz (?now + 1000 * postgresInterval lease) = ?now + 1000 * postgresInterval lease"
      by (simp add: timestamptz_def mod_simps)
    with q set' show ?thesis by (auto simp: copy_ok_def claim_row_def)
  qed
  moreover have "d \<notin> set (fl_held s)" if d: "d \<in> set held" for d
  proof
    assume "d \<in> set (fl_held s)"
    from ok(3) [OF this] have d': "d \<in> set (deliveries ?db) \<or> due (dl_ProcessingDeadline d) ?now"
      "dl_Status d = DeliveryStatusProcessing" by (auto simp: copy_ok_def due_def)
    obtain q where q: "q \<in> cs" "d = ?f q" using d new(2) by blast
    with d' fut have "d \<in> set (deliveries ?db)" by auto
    with q cs(1) key_unique_eq [OF ku [OF ok(1)], of d q] have "d = q" by auto
    with q run_out d'(2) fut show False by metis
  qed
  ultimately show ?thesis using assms(2) ok(2) new(1) by (auto simp: fleet_ok_def)
qed

subsection \<open>Settling a claim\<close>

text \<open>The fence: an outcome that is written was computed from the row it replaces, and it replaces
  no other.\<close>

lemma settled_row:
  assumes ok: "db_ok s" and d: "copy_ok now s d"
    and d': "applyDeliveryResult h d res w1 = (d', w2)"
    and p: "PersistClaimedDeliveryOutcome flt gonow now' (Some d') as s = (r, t)"
  obtains (kept) e where "r = Inl e" "deliveries t = deliveries s"
  | (settled) "d \<in> set (deliveries s)" "deliveries t = update_where (\<lambda>q. q = d) (write_outcome d') (deliveries s)"
  using p
proof (cases rule: Persist_cases)
  case (kept e s')
  then show ?thesis using that(1) by (simp add: rollback_def)
next
  case (written owner deadline)
  note same = applyDeliveryResult_ok [OF d']
  have od: "dl_ProcessingOwner d = Some owner" "dl_ProcessingDeadline d = Some deadline"
    using written(1,2) same(7,8) by simp_all
  have "has_row (holds_claim (dl_ID d') owner deadline) (deliveries s)"
    using written(3) filter_empty_conv [of "holds_claim (dl_ID d') owner deadline" "deliveries s"]
    by (force simp: RowsAffected_def has_row_def)
  with d od same(2) have mem: "d \<in> set (deliveries s)" by (auto simp: copy_ok_def)
  have hd: "holds_claim (dl_ID d') owner deadline d" using d od same(2) by (auto simp: copy_ok_def holds_claim_def)
  have "holds_claim (dl_ID d') owner deadline q \<longleftrightarrow> q = d" if "q \<in> set (deliveries s)" for q
    using key_unique_eq [OF db_ok_keys(3) [OF ok] that mem] hd by (auto simp: holds_claim_def)
  then have "update_where (holds_claim (dl_ID d') owner deadline) (write_outcome d') (deliveries s)
      = update_where (\<lambda>q. q = d) (write_outcome d') (deliveries s)"
    unfolding update_where_def by (intro map_cong) auto
  with that(2) [OF mem] written(4) show ?thesis by (simp add: outcome_written_def)
qed

lemma fleet_ok_finish:
  assumes "fleet_ok s" "d \<in> set (fl_held s)"
    and d': "applyDeliveryResult (worker_handler c) d res w1 = (d', w2)"
    and p: "PersistClaimedDeliveryOutcome flt gonow (fl_now s) (Some d') as (fl_db s) = (r, db')"
  shows "fleet_ok (s\<lparr>fl_db := db', fl_held := remove1 d (fl_held s)\<rparr>)"
proof -
  have ok: "db_ok (fl_db s)" "distinct (fl_held s)" "\<And>e. e \<in> set (fl_held s) \<Longrightarrow> copy_ok (fl_now s) (fl_db s) e"
    using assms(1) by (auto simp: fleet_ok_def)
  note res = applyDeliveryResult_ok [OF d']
  have db': "db_ok db'" by (rule Persist_ok [OF ok(1) res(1) p])
  have "copy_ok (fl_now s) db' e" if e: "e \<in> set (fl_held s)" "e \<noteq> d" for e
  proof (rule copy_ok_step [OF ok(3) [OF e(1)] ok(1)])
    have sub: "set (deliveries db') \<subseteq> set (deliveries (fl_db s)) \<union> {write_outcome d' d}"
      "e \<in> set (deliveries (fl_db s)) \<Longrightarrow> e \<in> set (deliveries db')"
      by (rule settled_row [OF ok(1) ok(3) [OF assms(2)] d' p]; use e in \<open>auto simp: set_update_where\<close>)+
    then show "e \<in> set (deliveries (fl_db s)) \<Longrightarrow> e \<in> set (deliveries db')
        \<or> due (dl_ProcessingDeadline e) (timestamptz (fl_now s))" by blast
    show "q \<in> set (deliveries (fl_db s)) \<or> \<not> due (dl_ProcessingDeadline q) (timestamptz (fl_now s))"
      if "q \<in> set (deliveries db')" "dl_Status q = DeliveryStatusProcessing" for q
      using sub(1) that res(1) by (auto simp: outcome_ok_def)
  qed
  with db' ok(2) show ?thesis by (auto simp: fleet_ok_def)
qed

subsection \<open>Every step\<close>

lemma store_rows:
  assumes "InitializeEventDeliveries flt nows (Some e) subs s = (r, t)"
  obtains new where "deliveries t = deliveries s @ new"
    "\<And>d. d \<in> set new \<Longrightarrow> dl_Status d = DeliveryStatusPending \<and> dl_Generation d = 1"
  using assms
proof (cases rule: Initialize_cases)
  case (unchanged err)
  then show ?thesis using that [of "[]"] by simp
next
  case (applied s1 s2)
  have "deliveries s1 = deliveries s" using applied(1) by (auto simp: insert_event_def split: if_splits)
  moreover obtain new where "s2 = s1\<lparr>deliveries := deliveries s1 @ new\<rparr>"
    "set new \<subseteq> fresh_rows (prepare_event (nows 0) e) subs" using insert_deliveries_rows [OF applied(2)] by blast
  ultimately show ?thesis
    using that [of new] applied(3) by (fastforce simp: fresh_rows_def delivery_columns_def NewDelivery_def)
qed

lemma subscription_rows:
  "Create flt u s = (r, t) \<Longrightarrow> deliveries t = deliveries s"
  "Delete flt i s = (r', t') \<Longrightarrow> deliveries t' = deliveries s"
  "UpdateSecret flt i x s = (r'', t'') \<Longrightarrow> deliveries t'' = deliveries s"
  by (auto simp: Create_def Delete_def UpdateSecret_def split: option.splits if_splits)

lemma replay_rows:
  assumes "db_ok s" "ReplayFailedDelivery flt gonow now i scheduledAt s = (r, t)"
  obtains "deliveries t = deliveries s"
  | row where "row \<in> set (deliveries s)" "dl_Status row = DeliveryStatusFailed"
      "deliveries t = update_where (\<lambda>q. q = row) (replayed scheduledAt) (deliveries s)"
  using assms(1,2)
proof (cases rule: Replay_cases)
  case (refused e)
  then show ?thesis using that(1) by simp
next
  case (written row)
  have "dl_ID q = i \<longleftrightarrow> q = row" if "q \<in> set (deliveries s)" for q
    using key_unique_eq [OF db_ok_keys(3) [OF assms(1)] that written(1)] written(2) by auto
  then have "update_where (\<lambda>q. dl_ID q = i) (replayed scheduledAt) (deliveries s)
      = update_where (\<lambda>q. q = row) (replayed scheduledAt) (deliveries s)"
    unfolding update_where_def by (intro map_cong) auto
  with that(2) [OF written(1,3)] written(4) show ?thesis by (simp add: replay_written_def)
qed

lemma fleet_ok_cleanup: "fleet_ok s \<Longrightarrow> db_ok db' \<Longrightarrow> cleanup_safe (fl_db s) db' \<Longrightarrow> fleet_ok (s\<lparr>fl_db := db'\<rparr>)"
  by (rule fleet_ok_keep) (auto simp: cleanup_safe_def live_def)

lemma fleet_ok_subscription:
  assumes ok: "fleet_ok s"
    and "Create flt u (fl_db s) = (r, db') \<or> Delete flt i (fl_db s) = (r, db') \<or> UpdateSecret flt i x (fl_db s) = (r, db')"
  shows "fleet_ok (s\<lparr>fl_db := db'\<rparr>)"
proof (rule fleet_ok_same [OF ok])
  have db: "db_ok (fl_db s)" using ok by (simp add: fleet_ok_def)
  from assms(2) show "db_ok db'"
    using Create_ok [OF db] Delete_ok [OF db] UpdateSecret_ok [OF db] by blast
  from assms(2) show "deliveries db' = deliveries (fl_db s)" using subscription_rows by blast
qed

lemma fleet_ok_store:
  assumes "fleet_ok s" "InitializeEventDeliveries flt nows (Some e) subs (fl_db s) = (r, db')"
  shows "fleet_ok (s\<lparr>fl_db := db'\<rparr>)"
proof -
  have db': "db_ok db'" using assms InitializeEventDeliveries_ok by (auto simp: fleet_ok_def)
  show ?thesis by (rule store_rows [OF assms(2)], rule fleet_ok_keep [OF assms(1) db']) auto
qed

lemma fleet_ok_replay:
  assumes "fleet_ok s" "ReplayFailedDelivery flt gonow now i scheduledAt (fl_db s) = (r, db')"
  shows "fleet_ok (s\<lparr>fl_db := db'\<rparr>)"
proof -
  have db: "db_ok (fl_db s)" "db_ok db'" using assms ReplayFailedDelivery_ok by (auto simp: fleet_ok_def)
  show ?thesis
    by (rule replay_rows [OF db(1) assms(2)]; rule fleet_ok_keep [OF assms(1) db(2)]) (auto simp: set_update_where)
qed

lemma fleet_step_ok:
  assumes "fleet_step pol s t" "fleet_ok s"
  shows "fleet_ok t"
  using assms
proof (induction rule: fleet_step.induct)
  case (claim_due flt s locked owner lease limit r db')
  then have db: "db_ok (fl_db s)" "db_ok db'" using ClaimDeliveries_ok by (auto simp: fleet_ok_def)
  show ?case
    by (rule claim_due_spec [OF db(1) claim_due(1)]) (rule fleet_ok_claim [OF claim_due(3) db(2) claim_due(2)])
next
  case (claim_event flt s locked ids owner lease limit r db')
  then have db: "db_ok (fl_db s)" "db_ok db'" using ClaimEventDeliveries_ok by (auto simp: fleet_ok_def)
  show ?case
    by (rule claim_event_spec [OF db(1) claim_event(1)]) (rule fleet_ok_claim [OF claim_event(3) db(2) claim_event(2)])
next
  case (finish d s c tr w res w1 d' w2 flt gonow r db')
  show ?case by (rule fleet_ok_finish [OF finish(6,1,4,5)])
next
  case (crash s alive)
  then show ?case by (auto simp: fleet_ok_def)
next
  case (redact flt lockedAttempts before limit s r db')
  then have "db_ok db'" using Redact_ok by (auto simp: fleet_ok_def)
  with redact Redact_safe show ?case by (intro fleet_ok_cleanup) auto
next
  case (purge flt locked before limit s r db')
  then have "db_ok (fl_db s)" "db_ok db'" using DeleteTerminal_ok by (auto simp: fleet_ok_def)
  with purge DeleteTerminal_safe show ?case by (intro fleet_ok_cleanup) auto
next
  case (replay flt gonow s i scheduledAt r db')
  then show ?case by (intro fleet_ok_replay)
next
  case (store flt nows e subs s r db')
  then show ?case by (intro fleet_ok_store)
qed (simp add: fleet_ok_tick, (rule fleet_ok_subscription; blast)+)

lemma fleet_reach_ok: "fleet_reach pol s \<Longrightarrow> fleet_ok s"
proof (induction rule: fleet_reach.induct)
  case (begins db t)
  then show ?case by (simp add: fleet_ok_def)
qed (rule fleet_step_ok)

lemma pending_lifecycle:
  "dl_Status d = DeliveryStatusPending \<Longrightarrow> dl_Generation d = 1 \<Longrightarrow> lifecycle now None (Some (track pol d))"
  using lifecycle.created [of now "dl_Attempts d"] by (simp add: track_def phase_of_def)

lemma replayed_lifecycle:
  assumes "dl_Status d = DeliveryStatusFailed"
  shows "lifecycle now (Some (track pol d)) (Some (track pol (replayed scheduledAt d)))"
proof -
  have "track pol (replayed scheduledAt d)
      = (track pol d)\<lparr>tk_phase := Waiting, tk_attempts := 0, tk_generation := tk_generation (track pol d) + 1\<rparr>"
    by (simp add: track_def phase_of_def)
  then show ?thesis using assms by (simp only:) (rule lifecycle.replayed, simp add: phase_of_def)
qed

lemma fleet_step_lives:
  assumes "fleet_step pol s t" "fleet_ok s"
  shows "lives_on pol (timestamptz (fl_now s)) (fl_db s) (fl_db t)"
  using assms(1)
proof (cases rule: fleet_step.cases)
  case (store flt nows e subs r db')
  show ?thesis unfolding store
    by (rule store_rows [OF store(2)], rule lives_on_append) (auto intro: pending_lifecycle)
next
  case (claim_due flt locked owner lease limit r db')
  have db: "db_ok (fl_db s)" using assms(2) by (simp add: fleet_ok_def)
  show ?thesis unfolding claim_due
    by (rule claim_due_spec [OF db claim_due(2)]) (auto intro: claim_lives_on [OF db _ claim_due(3)])
next
  case (claim_event flt locked ids owner lease limit r db')
  have db: "db_ok (fl_db s)" using assms(2) by (simp add: fleet_ok_def)
  show ?thesis unfolding claim_event
    by (rule claim_event_spec [OF db claim_event(2)]) (auto intro: claim_lives_on [OF db _ claim_event(3)])
next
  case (finish d c tr w res w1 d' w2 flt gonow r db')
  have ok: "db_ok (fl_db s)" "copy_ok (fl_now s) (fl_db s) d" using assms(2) finish(2) by (auto simp: fleet_ok_def)
  have d: "dl_Status d = DeliveryStatusProcessing" using ok(2) by (auto simp: copy_ok_def)
  from ok finish(5,6) have "lives_on pol (timestamptz (fl_now s)) (fl_db s) db'"
  proof (cases rule: settled_row)
    case (kept e)
    then show ?thesis by (simp add: lives_on_same)
  next
    case settled
    show ?thesis
      by (rule lives_on_update [OF settled(2)]) (use outcome_lifecycle [OF finish(4,5) d] finish(3) in auto)
  qed
  then show ?thesis unfolding finish by simp
next
  case (replay flt gonow i scheduledAt r db')
  have db: "db_ok (fl_db s)" using assms(2) by (simp add: fleet_ok_def)
  have "lives_on pol (timestamptz (fl_now s)) (fl_db s) db'"
    by (rule replay_rows [OF db replay(2)])
      (auto intro: lives_on_same elim: lives_on_update simp: replayed_lifecycle)
  then show ?thesis unfolding replay by simp
next
  case (redact flt lockedAttempts before limit r db')
  then show ?thesis
    using Redact_ok Redact_safe lives_on_cleanup assms(2) by (auto simp: fleet_ok_def)
next
  case (purge flt locked before limit r db')
  then show ?thesis
    using DeleteTerminal_ok DeleteTerminal_safe lives_on_cleanup assms(2) by (auto simp: fleet_ok_def)
qed (auto simp: subscription_rows lives_on_same)

lemma becomes_claimable:
  assumes "row_ok d" "live d"
  shows "\<exists>now. t \<le> now \<and> timestamptz now = now \<and> claimable now d"
proof -
  let ?x = "\<bar>case dl_NextAttemptAt d of Some x \<Rightarrow> x | None \<Rightarrow> 0\<bar> + \<bar>case dl_ProcessingDeadline d of Some x \<Rightarrow> x | None \<Rightarrow> 0\<bar>"
  let ?now = "1000 * (\<bar>t\<bar> + ?x)"
  have "claimable ?now d"
    using assms by (cases "dl_Status d") (auto simp: live_def claimable_def row_ok_def due_def)
  moreover have "t \<le> ?now" "timestamptz ?now = ?now" by (simp_all add: timestamptz_def)
  ultimately show ?thesis by blast
qed

text \<open>A claim without faults, locks or a limit that matters reaches every claimable row.\<close>

lemma claim_reaches:
  assumes ok: "db_ok s" and d: "d \<in> set (deliveries s)" "claimable (timestamptz now) d"
  shows "\<exists>r t. ClaimDeliveries (\<lambda>_. None) now {} owner lease (int (length (deliveries s))) s = (r, t)
     \<and> claim_row owner lease (timestamptz now) d \<in> set (copies r) \<inter> set (deliveries t)"
proof -
  let ?free = "filter (\<lambda>d. claimable (timestamptz now) d \<and> dl_ID d \<notin> {}) (deliveries s)"
  obtain r t where cl: "ClaimDeliveries (\<lambda>_. None) now {} owner lease (int (length (deliveries s))) s = (r, t)"
    by fastforce
  from cl show ?thesis
  proof (cases rule: ClaimDeliveries_cases)
    case (refused e)
    with cl show ?thesis by (simp add: ClaimDeliveries_def claim_result_def Let_def)
  next
    case (claimed cs res)
    note spec = claim_candidates_spec [OF ok claimed(2,3)]
    have "set cs = set ?free" unfolding claimed(2) by (rule order_limit_all) simp
    with d have "d \<in> set cs" by simp
    moreover have "r = Inr res" using cl claimed(4) by (auto simp: ClaimDeliveries_def claim_result_def Let_def)
    ultimately have "claim_row owner lease (timestamptz now) d \<in> set (copies r)" "claim_row owner lease (timestamptz now) d \<in> set (deliveries t)"
      using d(1) by (auto simp: copies_def spec(1) spec(3) set_update_where image_iff)
    with cl show ?thesis by blast
  qed
qed

text \<open>Runs in which every delivery starts without attempts.\<close>

inductive fresh_run :: "Policy \<Rightarrow> fleet \<Rightarrow> bool" for pol where
  begins: "db_ok db \<Longrightarrow> deliveries db = [] \<Longrightarrow> fresh_run pol \<lparr>fl_db = db, fl_now = t, fl_held = []\<rparr>"
| steps: "fresh_run pol s \<Longrightarrow> fleet_step pol s t
    \<Longrightarrow> \<forall>d \<in> set (deliveries (fl_db t)).
          has_row (\<lambda>r. dl_ID r = dl_ID d) (deliveries (fl_db s)) \<or> dl_Attempts d = 0
    \<Longrightarrow> fresh_run pol t"

definition within_budget :: "tracked \<Rightarrow> bool" where
  "within_budget a \<longleftrightarrow> 0 \<le> tk_attempts a \<and> tk_attempts a \<le> max 1 (tk_limit a)
     \<and> (tk_phase a \<in> {Finished, GivenUp} \<or> tk_attempts a = 0 \<or> tk_attempts a < tk_limit a)"

lemma within_budget_step:
  assumes "lifecycle now (Some a) (Some b)" "within_budget a"
  shows "within_budget b"
  using assms by (cases rule: lifecycle.cases) (auto simp: within_budget_def)

lemma fresh_run_reach: "fresh_run pol s \<Longrightarrow> fleet_reach pol s"
  by (induction rule: fresh_run.induct) (auto intro: fleet_reach.intros)

lemma fresh_run_budget: "fresh_run pol s \<Longrightarrow> tracking pol (fl_db s) i = Some a \<Longrightarrow> within_budget a"
proof (induction arbitrary: a rule: fresh_run.induct)
  case (begins db t)
  then show ?case by (simp add: tracking_def)
next
  case (steps s t)
  have ok: "fleet_ok s" using fleet_reach_ok [OF fresh_run_reach [OF steps(1)]] .
  then have db: "db_ok (fl_db s)" "db_ok (fl_db t)" using fleet_step_ok [OF steps(2)] by (simp_all add: fleet_ok_def)
  have life: "lifecycle (timestamptz (fl_now s)) (tracking pol (fl_db s) i) (tracking pol (fl_db t) i)"
    using fleet_step_lives [OF steps(2) ok] by (simp add: lives_on_def)
  from db(1) show ?case
  proof (cases rule: tracking_cases [where i = i and pol = pol])
    case (present r)
    then show ?thesis using within_budget_step steps.IH steps.prems life by metis
  next
    case absent
    from db(2) obtain d where d: "d \<in> set (deliveries (fl_db t))" "dl_ID d = i" "a = track pol d"
      by (cases rule: tracking_cases [where i = i and pol = pol]) (use steps.prems in auto)
    with steps(3) absent(2) have "dl_Attempts d = 0" by (auto simp: has_row_def)
    then show ?thesis by (simp add: d(3) within_budget_def)
  qed
qed

subsection \<open>Properties\<close>

text \<open>C1 The deployment implements the abstract life of a delivery: however workers, the API and the
  cleaner interleave, fail or crash, every transaction takes every delivery at most one step
  further in \<open>lifecycle\<close>.  In particular only a delivery that waits or whose lease has run out is
  leased, a lease is settled once and counts at most one attempt, retries stop below the
  limit, only a failed delivery is replayed, and only a terminal one disappears.\<close>

theorem fleet_refines_lifecycle:
  assumes "fleet_reach pol s" "fleet_step pol s t"
  shows "lifecycle (timestamptz (fl_now s)) (tracking pol (fl_db s) i) (tracking pol (fl_db t) i)"
  using fleet_step_lives [OF assms(2) fleet_reach_ok [OF assms(1)]] by (simp add: lives_on_def)

text \<open>C2 No lost update: an outcome that is stored was computed from a copy equal to the row it
  replaces, it changes no other delivery, and no other worker holds a copy of the row that could
  still be stored.\<close>

theorem settled_copy_is_current:
  assumes "fleet_reach pol s" "d \<in> set (fl_held s)"
    and "applyDeliveryResult (worker_handler c) d res w1 = (d', w2)"
    and "PersistClaimedDeliveryOutcome flt gonow now (Some d') as (fl_db s) = (Inr (), db')"
  shows "d \<in> set (deliveries (fl_db s))
     \<and> deliveries db' = update_where (\<lambda>q. q = d) (write_outcome d') (deliveries (fl_db s))
     \<and> (\<forall>e \<in> set (remove1 d (fl_held s)). e \<in> set (deliveries (fl_db s)) \<longrightarrow> dl_ID e \<noteq> dl_ID d)"
proof -
  have ok: "db_ok (fl_db s)" "distinct (fl_held s)" "copy_ok (fl_now s) (fl_db s) d"
    using fleet_reach_ok [OF assms(1)] assms(2) by (auto simp: fleet_ok_def)
  from ok(1,3) assms(3,4) show ?thesis
  proof (cases rule: settled_row)
    case settled
    with key_unique_eq [OF db_ok_keys(3) [OF ok(1)]] ok(2) show ?thesis by auto
  qed simp
qed

text \<open>C3 No delivery gets stuck, whoever crashed while holding it: from every reachable state, a live
  delivery can be leased by any worker once its lease, or its waiting time, has run out.\<close>

theorem no_delivery_is_stuck:
  assumes "fleet_reach pol s" "d \<in> set (deliveries (fl_db s))" "live d"
  shows "\<exists>t u e. fleet_step pol s t \<and> fleet_step pol t u
     \<and> tracking pol (fl_db u) (dl_ID d) = Some ((track pol d)\<lparr>tk_phase := Leased owner e\<rparr>)
     \<and> (\<exists>d' \<in> set (fl_held u). dl_ID d' = dl_ID d \<and> d' \<in> set (deliveries (fl_db u)))"
proof -
  have ok: "db_ok (fl_db s)" "row_ok d" using fleet_reach_ok [OF assms(1)] assms(2) by (auto simp: fleet_ok_def db_ok_def)
  obtain now where now: "fl_now s \<le> now" "timestamptz now = now" "claimable now d"
    using becomes_claimable [OF ok(2) assms(3)] by blast
  let ?t = "s\<lparr>fl_now := now\<rparr>" and ?d = "claim_row owner Second now d"
  from claim_reaches [OF ok(1) assms(2), of now] now(3) obtain r db' where
    cl: "ClaimDeliveries (\<lambda>_. None) now {} owner Second (int (length (deliveries (fl_db s)))) (fl_db s) = (r, db')"
    and new: "?d \<in> set (copies r)" "?d \<in> set (deliveries db')" unfolding now(2) by blast
  let ?u = "?t\<lparr>fl_db := db', fl_held := fl_held s @ copies r\<rparr>"
  have tu: "fleet_step pol s ?t" "fleet_step pol ?t ?u"
    using fleet_step.tick [OF now(1)] fleet_step.claim_due [of _ ?t _ _ Second] cl by simp_all
  have "db_ok db'" using ClaimDeliveries_ok [OF ok(1) cl] .
  then have "tracking pol db' (dl_ID d) = Some (track pol ?d)" using new(2) by (intro tracking_row) auto
  moreover have "track pol ?d = (track pol d)\<lparr>tk_phase := Leased owner (now + 1000 * postgresInterval Second)\<rparr>"
    by (simp add: track_def phase_of_def claim_row_def)
  moreover have "\<exists>d' \<in> set (fl_held ?u). dl_ID d' = dl_ID d \<and> d' \<in> set (deliveries (fl_db ?u))"
    by (rule bexI [of _ ?d]) (use new in simp_all)
  moreover have "fl_db ?u = db'" by simp
  ultimately show ?thesis using tu by metis
qed

text \<open>C19 The attempts a delivery counts never exceed its maximum.  Take any run of the deployment that
  begins without deliveries and whose new deliveries start without attempts, as those of the events
  the API publishes do.  Then, with \<open>limit\<close> the delivery's maximum, or that of the policy when it is
  zero, every delivery row has at most \<open>limit\<close> attempts (one when the limit is less), and a row that is
  not terminal has none yet or fewer than \<open>limit\<close>, so that one more may follow.  A replay starts over.
  An attempt counts when its outcome has been stored.\<close>

theorem attempts_bounded:
  assumes "fresh_run pol s" "d \<in> set (deliveries (fl_db s))"
  shows "let limit = (if dl_MaxAttempts d = 0 then MaxAttempts pol else dl_MaxAttempts d)
     in 0 \<le> dl_Attempts d \<and> dl_Attempts d \<le> max 1 limit
      \<and> (live d \<longrightarrow> dl_Attempts d = 0 \<or> dl_Attempts d < limit)"
proof -
  have ok: "db_ok (fl_db s)" using fleet_reach_ok [OF fresh_run_reach [OF assms(1)]] by (simp add: fleet_ok_def)
  have "within_budget (track pol d)"
    using fresh_run_budget [OF assms(1)] tracking_row [OF ok assms(2) refl, of pol] by blast
  then show ?thesis by (cases "dl_Status d") (auto simp: within_budget_def live_def phase_of_def Let_def)
qed

text \<open>A worker claims the only delivery of the sample database.\<close>

definition sample_fleet :: fleet where
  "sample_fleet = \<lparr>fl_db = sample_db [sample_row], fl_now = 5000, fl_held = []\<rparr>"

abbreviation sample_lease :: Delivery where
  "sample_lease \<equiv> claim_row ''worker-1'' Second 5000 sample_row"

definition sample_fleet_claimed :: fleet where
  "sample_fleet_claimed = \<lparr>fl_db = sample_db [sample_lease], fl_now = 5000, fl_held = [sample_lease]\<rparr>"

lemma sample_fleet_reach:
  "fleet_reach DefaultPolicy sample_fleet" "fleet_step DefaultPolicy sample_fleet sample_fleet_claimed"
  "fleet_reach DefaultPolicy sample_fleet_claimed"
proof -
  show r: "fleet_reach DefaultPolicy sample_fleet"
    unfolding sample_fleet_def by (rule fleet_reach.begins) (rule sample_db_ok)
  have "ClaimDeliveries (\<lambda>_. None) (fl_now sample_fleet) {} ''worker-1'' Second 10 (fl_db sample_fleet)
      = (Inr [\<lparr>cd_Delivery = sample_lease, cd_Reclaimed = False\<rparr>], sample_db [sample_lease])"
    by (simp add: ClaimDeliveries_def claim_result_def claim_candidates_def order_limit_def claimable_def
        timestamptz_def sample_fleet_def sample_defs)
  from fleet_step.claim_due [OF this] show st: "fleet_step DefaultPolicy sample_fleet sample_fleet_claimed"
    by (simp add: sample_fleet_def sample_fleet_claimed_def copies_def)
  show "fleet_reach DefaultPolicy sample_fleet_claimed" by (rule fleet_reach.steps [OF r st])
qed

theorem fleet_refines_lifecycle_witness:
  "\<exists>a b. lifecycle 5000 (Some a) (Some b) \<and> tk_phase a = Waiting \<and> tk_phase b = Leased ''worker-1'' 1000005000"
proof -
  have "lifecycle 5000 (Some (track DefaultPolicy sample_row)) (Some (track DefaultPolicy sample_lease))"
    using fleet_refines_lifecycle [OF sample_fleet_reach(1,2), of "dl_ID sample_row"]
    by (simp add: tracking_def sample_fleet_def sample_fleet_claimed_def timestamptz_def sample_db_def)
  moreover have "tk_phase (track DefaultPolicy sample_row) = Waiting"
    "tk_phase (track DefaultPolicy sample_lease) = Leased ''worker-1'' 1000005000"
    by (simp_all add: phase_of_def sample_defs claim_row_def postgresInterval_def Microseconds_def)
  ultimately show ?thesis by blast
qed

text \<open>The sample delivery is stored and claimed in a run that begins without deliveries.\<close>

lemma sample_fresh_run: "fresh_run DefaultPolicy sample_fleet_claimed"
proof -
  let ?s = "\<lparr>fl_db = sample_db [], fl_now = 5000, fl_held = []\<rparr>"
  have "fresh_run DefaultPolicy ?s" by (rule fresh_run.begins) (simp add: sample_db_ok, simp add: sample_db_def)
  moreover have "fleet_step DefaultPolicy ?s sample_fleet"
    using fleet_step.store [of _ _ sample_event "[Some sample_sub]" ?s] sample_initialize by (simp add: sample_fleet_def)
  ultimately have "fresh_run DefaultPolicy sample_fleet"
    by (rule fresh_run.steps) (simp add: sample_fleet_def sample_defs)
  then show ?thesis
    by (rule fresh_run.steps [OF _ sample_fleet_reach(2)]) (simp add: sample_fleet_claimed_def sample_defs claim_row_def)
qed

theorem attempts_bounded_witness:
  "fresh_run DefaultPolicy sample_fleet_claimed \<and> dl_Attempts sample_lease < 5"
proof -
  have "sample_lease \<in> set (deliveries (fl_db sample_fleet_claimed))"
    by (simp add: sample_fleet_claimed_def sample_db_def)
  from attempts_bounded [OF sample_fresh_run this] sample_fresh_run show ?thesis
    by (auto simp: live_def claim_row_def sample_row_def NewDelivery_def sample_event_def)
qed

theorem no_delivery_is_stuck_witness:
  "\<exists>t u e. fleet_step DefaultPolicy sample_fleet_claimed t \<and> fleet_step DefaultPolicy t u
     \<and> tracking DefaultPolicy (fl_db u) (dl_ID sample_lease)
         = Some ((track DefaultPolicy sample_lease)\<lparr>tk_phase := Leased ''worker-2'' e\<rparr>)"
  using no_delivery_is_stuck [OF sample_fleet_reach(3), of sample_lease "''worker-2''"]
  by (fastforce simp: sample_fleet_claimed_def sample_db_def live_def)

theorem settled_copy_is_current_witness:
  "\<exists>d' w2 db'. applyDeliveryResult (worker_handler (sample_config False)) sample_lease
       \<lparr>dr_outcome = outcomeSuccess, dr_attempts = [], dr_lastError = [], dr_deliveredAt = Some 6000, dr_retryAfter = 0\<rparr>
       (sample_worker (sample_db [sample_lease]) (Inl (ErrText ''timeout'')) \<lparr>Allowed = True, RetryAfter = 0\<rparr>) = (d', w2)
     \<and> PersistClaimedDeliveryOutcome (\<lambda>_. None) 7000 7000 (Some d') [] (sample_db [sample_lease]) = (Inr (), db')
     \<and> deliveries db' = [write_outcome d' sample_lease]"
proof -
  let ?r = "\<lparr>dr_outcome = outcomeSuccess, dr_attempts = [], dr_lastError = [], dr_deliveredAt = Some 6000, dr_retryAfter = 0\<rparr>"
  let ?w = "sample_worker (sample_db [sample_lease]) (Inl (ErrText ''timeout'')) \<lparr>Allowed = True, RetryAfter = 0\<rparr>"
  obtain d' w2 where ap: "applyDeliveryResult (worker_handler (sample_config False)) sample_lease ?r ?w = (d', w2)" by fastforce
  then have d': "d' = MarkAsDelivered 6000 sample_lease" by (simp add: applyDeliveryResult_def count_attempt_def ww_defs)
  have "\<exists>db'. PersistClaimedDeliveryOutcome (\<lambda>_. None) 7000 7000 (Some d') [] (sample_db [sample_lease]) = (Inr (), db')"
    unfolding d'
    by (simp add: PersistClaimedDeliveryOutcome_def RowsAffected_def holds_claim_def updateEventProjection_def
        getDeliveriesByEventID_def commit_def MarkAsDelivered_def timestamptz_def sample_defs claim_row_def
        postgresInterval_def Microseconds_def Let_def)
  then obtain db' where p: "PersistClaimedDeliveryOutcome (\<lambda>_. None) 7000 7000 (Some d') [] (sample_db [sample_lease]) = (Inr (), db')"
    by blast
  have f: "fl_db sample_fleet_claimed = sample_db [sample_lease]" by (simp add: sample_fleet_claimed_def)
  from settled_copy_is_current [OF sample_fleet_reach(3) _ ap, unfolded f, OF _ p]
  have "deliveries db' = [write_outcome d' sample_lease]"
    by (simp add: sample_fleet_claimed_def sample_db_def)
  with ap p show ?thesis by blast
qed

end
