(* ===== verification/Request_Context.thy ===== *)
theory Request_Context
  imports Dispatch_Prelude
begin

text \<open>
  The values that \<^verbatim>\<open>internal/observability/logging.go\<close> keeps in a \<open>context.Context\<close>, and the clocks of
  \<^verbatim>\<open>internal/clock/clock.go\<close>.

  The key type of the package is not exported, so that no other package can set its keys: a context
  is a map from these keys only, and the context of a fresh request has none of them.  A logger is
  the list of its attributes, to which \<open>With\<close> appends.
\<close>

subsection \<open>Contexts\<close>

datatype contextKey = loggerKey | eventIDKey | traceIDKey

type_synonym logger = "(string \<times> string) list"

datatype ctx_value = LoggerValue logger | StringValue string

type_synonym request_ctx = "contextKey \<rightharpoonup> ctx_value"

abbreviation fresh_ctx :: request_ctx where "fresh_ctx \<equiv> Map.empty"

definition LoggerFromContext :: "logger \<Rightarrow> request_ctx \<Rightarrow> logger" where
  "LoggerFromContext slogDefault ctx =
     (case ctx loggerKey of Some (LoggerValue lg) \<Rightarrow> lg | _ \<Rightarrow> slogDefault)"

definition ContextWithLogger :: "request_ctx \<Rightarrow> logger \<Rightarrow> request_ctx" where
  "ContextWithLogger ctx lg = ctx(loggerKey \<mapsto> LoggerValue lg)"

definition ContextWithEventID :: "request_ctx \<Rightarrow> string \<Rightarrow> request_ctx" where
  "ContextWithEventID ctx eventID = ctx(eventIDKey \<mapsto> StringValue eventID)"

definition EventIDFromContext :: "request_ctx \<Rightarrow> string" where
  "EventIDFromContext ctx = (case ctx eventIDKey of Some (StringValue i) \<Rightarrow> i | _ \<Rightarrow> [])"

definition TraceIDFromContext :: "request_ctx \<Rightarrow> string" where
  "TraceIDFromContext ctx = (case ctx traceIDKey of Some (StringValue i) \<Rightarrow> i | _ \<Rightarrow> [])"

definition ContextWithTraceID :: "request_ctx \<Rightarrow> string \<Rightarrow> request_ctx" where
  "ContextWithTraceID ctx traceID = ctx(traceIDKey \<mapsto> StringValue traceID)"

lemmas context_defs = LoggerFromContext_def ContextWithLogger_def ContextWithEventID_def EventIDFromContext_def
  TraceIDFromContext_def ContextWithTraceID_def

text \<open>Every value is read back as it was stored, whatever is stored besides it; a context without it
  gives the default.\<close>

lemma trace_from_context [simp]:
  "TraceIDFromContext (ContextWithTraceID ctx t) = t"
  "TraceIDFromContext (ContextWithLogger ctx lg) = TraceIDFromContext ctx"
  "TraceIDFromContext (ContextWithEventID ctx i) = TraceIDFromContext ctx"
  "TraceIDFromContext fresh_ctx = []"
  by (simp_all add: context_defs)

lemma event_id_from_context [simp]:
  "EventIDFromContext (ContextWithEventID ctx i) = i"
  "EventIDFromContext (ContextWithTraceID ctx t) = EventIDFromContext ctx"
  "EventIDFromContext (ContextWithLogger ctx lg) = EventIDFromContext ctx"
  "EventIDFromContext fresh_ctx = []"
  by (simp_all add: context_defs)

lemma logger_from_context [simp]:
  "LoggerFromContext dflt (ContextWithLogger ctx lg) = lg"
  "LoggerFromContext dflt (ContextWithTraceID ctx t) = LoggerFromContext dflt ctx"
  "LoggerFromContext dflt (ContextWithEventID ctx i) = LoggerFromContext dflt ctx"
  "LoggerFromContext dflt fresh_ctx = dflt"
  by (simp_all add: context_defs)

subsection \<open>Clocks\<close>

text \<open>A channel is what can be received from it: the values in its buffer.  The real clock hands on the
  runtime's, which is its argument.\<close>

record 'w Clock =
  ck_Now :: "'w \<Rightarrow> time \<times> 'w"
  ck_After :: "Duration \<Rightarrow> 'w \<Rightarrow> time list \<times> 'w"

definition RealClock :: "('w \<Rightarrow> time \<times> 'w) \<Rightarrow> (Duration \<Rightarrow> 'w \<Rightarrow> time list \<times> 'w) \<Rightarrow> 'w Clock" where
  "RealClock timeNow timeAfter = \<lparr>ck_Now = timeNow, ck_After = timeAfter\<rparr>"

record MockClock =
  NowTime :: time

definition Mock_Now :: "MockClock \<Rightarrow> time \<times> MockClock" where
  "Mock_Now m = (NowTime m, m)"

definition Mock_After :: "Duration \<Rightarrow> MockClock \<Rightarrow> time list \<times> MockClock" where
  "Mock_After d m = ([] @ [NowTime m + d], m)"

definition Mock_Advance :: "Duration \<Rightarrow> MockClock \<Rightarrow> MockClock" where
  "Mock_Advance d m = m\<lparr>NowTime := NowTime m + d\<rparr>"

text \<open>The timer of the mock clock has fired when it is made, with the time that advancing by the
  duration would show; advancing in steps adds up.\<close>

lemma mock_timer_shows_advanced_time:
  "fst (Mock_After d m) = [fst (Mock_Now (Mock_Advance d m))]"
  by (simp add: Mock_After_def Mock_Now_def Mock_Advance_def)

lemma mock_advance_adds: "Mock_Advance e (Mock_Advance d m) = Mock_Advance (d + e) m"
  by (simp add: Mock_Advance_def add.assoc)

end
