(* ===== verification/Handler_Options.thy ===== *)
theory Handler_Options
  imports Delivery_Runtime Request_Context
begin

text \<open>
  The construction of the delivery handler in \<^verbatim>\<open>internal/kafka/handler.go\<close>: its configuration, the
  functional options and \<open>NewDeliveryHandler\<close>.

  A handler under construction is the record of \<^verbatim>\<open>Delivery_Handler\<close> extended by the fields of
  \<open>HandlerConfig\<close> that only concern the HTTP client; an option is a function on it.  What the
  handler is given by the Go runtime is the record \<open>go_runtime\<close>: the HTTP client that the standard
  library builds from its settings, the check of a URL, the clock, the random numbers and the
  default logger.
\<close>

record HandlerConfig =
  hc_HTTPTimeout :: Duration
  hc_MaxIdleConns :: int
  hc_MaxIdleConnsPerHost :: int
  hc_IdleConnTimeout :: Duration
  hc_LeaseDuration :: Duration
  hc_InstanceID :: string

definition DefaultHandlerConfig :: HandlerConfig where
  "DefaultHandlerConfig =
     \<lparr>hc_HTTPTimeout = 10 * Second, hc_MaxIdleConns = 1000, hc_MaxIdleConnsPerHost = 100,
      hc_IdleConnTimeout = 90 * Second, hc_LeaseDuration = 30 * Second, hc_InstanceID = ''worker-1''\<rparr>"

record http_client =
  cl_Timeout :: Duration
  cl_MaxIdleConns :: int
  cl_MaxIdleConnsPerHost :: int
  cl_IdleConnTimeout :: Duration

record 'w go_runtime =
  gr_Client :: "http_client \<Rightarrow> Request \<Rightarrow> 'w \<Rightarrow> (error + Response) \<times> 'w"
  gr_URLError :: "string \<Rightarrow> error option"
  gr_Now :: "'w \<Rightarrow> time \<times> 'w"
  gr_Float64 :: "'w \<Rightarrow> real \<times> 'w"
  gr_Logger :: logger

record 'w DeliveryRuntimeRepository =
  er_Initialize :: "Event \<Rightarrow> Subscription option list \<Rightarrow> 'w \<Rightarrow> (error + Delivery list) \<times> 'w"
  er_GetDeliveries :: "string \<Rightarrow> 'w \<Rightarrow> (error + Delivery list) \<times> 'w"
  er_ClaimEvent :: "string list \<Rightarrow> string \<Rightarrow> Duration \<Rightarrow> int \<Rightarrow> 'w \<Rightarrow> (error + ClaimedDelivery list) \<times> 'w"
  er_Persist :: "Delivery \<Rightarrow> DeliveryAttempt list \<Rightarrow> 'w \<Rightarrow> (error + unit) \<times> 'w"

record 'w configured_handler = "'w DeliveryHandler" +
  hx_HTTPTimeout :: Duration
  hx_MaxIdleConns :: int
  hx_MaxIdleConnsPerHost :: int
  hx_IdleConnTimeout :: Duration
  hx_logger :: logger

type_synonym 'w HandlerOption = "'w configured_handler \<Rightarrow> 'w configured_handler"

subsection \<open>Options\<close>

definition WithHTTPTimeout :: "'w go_runtime \<Rightarrow> Duration \<Rightarrow> 'w HandlerOption" where
  "WithHTTPTimeout rt d h =
     (let h = h\<lparr>hx_HTTPTimeout := d\<rparr>
      in h\<lparr>h_Do := gr_Client rt \<lparr>cl_Timeout = d, cl_MaxIdleConns = hx_MaxIdleConns h,
             cl_MaxIdleConnsPerHost = hx_MaxIdleConnsPerHost h, cl_IdleConnTimeout = hx_IdleConnTimeout h\<rparr>\<rparr>)"

definition WithHTTPClient :: "(Request \<Rightarrow> 'w \<Rightarrow> (error + Response) \<times> 'w) \<Rightarrow> 'w HandlerOption" where
  "WithHTTPClient client h = h\<lparr>h_Do := client\<rparr>"

definition WithRetryPolicy :: "Policy \<Rightarrow> 'w HandlerOption" where
  "WithRetryPolicy p h = h\<lparr>h_retryPolicy := p\<rparr>"

definition WithRateLimiter ::
  "(string \<Rightarrow> RatePolicy \<Rightarrow> 'w \<Rightarrow> (RateLimitDecision \<times> error option) \<times> 'w) option \<Rightarrow> 'w HandlerOption" where
  "WithRateLimiter rl h = h\<lparr>h_rateLimiter := rl\<rparr>"

definition WithLogger :: "logger \<Rightarrow> 'w HandlerOption" where
  "WithLogger l h = h\<lparr>hx_logger := l\<rparr>"

definition noopDeliveryObserver :: "delivery_observation \<Rightarrow> 'w \<Rightarrow> 'w" where
  "noopDeliveryObserver x w = w"

definition WithDeliveryObserver :: "(delivery_observation \<Rightarrow> 'w \<Rightarrow> 'w) option \<Rightarrow> 'w HandlerOption" where
  "WithDeliveryObserver observer h = (case observer of None \<Rightarrow> h | Some f \<Rightarrow> h\<lparr>h_observe := f\<rparr>)"

subsection \<open>The constructor\<close>

definition NewDeliveryHandler ::
  "'w go_runtime \<Rightarrow> 'w DeliveryRuntimeRepository
     \<Rightarrow> (string list \<Rightarrow> 'w \<Rightarrow> (error + (string \<rightharpoonup> Subscription list)) \<times> 'w) \<Rightarrow> 'w HandlerOption list
     \<Rightarrow> 'w configured_handler" where
  "NewDeliveryHandler rt eventRepo subRepo opts =
     (let config = DefaultHandlerConfig;
          transport = \<lparr>cl_Timeout = hc_HTTPTimeout config, cl_MaxIdleConns = hc_MaxIdleConns config,
            cl_MaxIdleConnsPerHost = hc_MaxIdleConnsPerHost config, cl_IdleConnTimeout = hc_IdleConnTimeout config\<rparr>;
          h = \<lparr>h_InstanceID = hc_InstanceID config, h_LeaseDuration = hc_LeaseDuration config,
            h_retryPolicy = DefaultPolicy,
            h_Initialize = er_Initialize eventRepo, h_GetDeliveries = er_GetDeliveries eventRepo,
            h_ClaimEvent = er_ClaimEvent eventRepo, h_Persist = er_Persist eventRepo,
            h_GetByEventTypes = subRepo, h_URLError = gr_URLError rt, h_Do = gr_Client rt transport,
            h_rateLimiter = None, h_Now = gr_Now rt, h_Float64 = gr_Float64 rt, h_observe = noopDeliveryObserver,
            hx_HTTPTimeout = hc_HTTPTimeout config, hx_MaxIdleConns = hc_MaxIdleConns config,
            hx_MaxIdleConnsPerHost = hc_MaxIdleConnsPerHost config, hx_IdleConnTimeout = hc_IdleConnTimeout config,
            hx_logger = gr_Logger rt\<rparr>
      in fold (\<lambda>opt h. opt h) opts h)"

lemmas option_defs = WithHTTPTimeout_def WithHTTPClient_def WithRetryPolicy_def WithRateLimiter_def
  WithLogger_def WithDeliveryObserver_def WithClaimIdentity_def

text \<open>A handler keeps a usable identity whatever options it is built with: the options of this file
  never empty the owner's name nor make the lease non-positive.\<close>

definition identified :: "('w, 'm) DeliveryHandler_scheme \<Rightarrow> bool" where
  "identified h \<longleftrightarrow> h_InstanceID h \<noteq> [] \<and> 0 < h_LeaseDuration h"

lemma options_identified:
  "identified h \<Longrightarrow> identified (WithHTTPTimeout rt d h)" "identified h \<Longrightarrow> identified (WithHTTPClient client h)"
  "identified h \<Longrightarrow> identified (WithRetryPolicy p h)" "identified h \<Longrightarrow> identified (WithRateLimiter rl h)"
  "identified h \<Longrightarrow> identified (WithLogger lg h)" "identified h \<Longrightarrow> identified (WithDeliveryObserver observer h)"
  "identified h \<Longrightarrow> identified (WithClaimIdentity i l h)"
  by (auto simp: identified_def option_defs Let_def split: option.split)

lemma NewDeliveryHandler_identified:
  assumes "\<And>opt h. opt \<in> set opts \<Longrightarrow> identified h \<Longrightarrow> identified (opt h)"
  shows "identified (NewDeliveryHandler rt eventRepo subRepo opts)"
proof -
  have "identified h \<Longrightarrow> identified (fold (\<lambda>opt h. opt h) opts h)" for h :: "'a configured_handler"
    using assms by (induction opts arbitrary: h) auto
  then show ?thesis
    unfolding NewDeliveryHandler_def Let_def by (simp add: identified_def DefaultHandlerConfig_def)
qed

subsection \<open>The worker's runtime\<close>

definition worker_runtime :: "(string \<Rightarrow> error option) \<Rightarrow> worker_world go_runtime" where
  "worker_runtime urlError = \<lparr>gr_Client = (\<lambda>_. ww_Do), gr_URLError = urlError, gr_Now = ww_Now, gr_Float64 = ww_Float64,
     gr_Logger = []\<rparr>"

definition pg_runtime_repository :: "worker_world DeliveryRuntimeRepository" where
  "pg_runtime_repository = \<lparr>er_Initialize = pg_Initialize, er_GetDeliveries = pg_GetDeliveries,
     er_ClaimEvent = pg_ClaimEvent, er_Persist = pg_Persist\<rparr>"

lemma worker_handler_built:
  "DeliveryHandler.truncate (NewDeliveryHandler (worker_runtime urlError) pg_runtime_repository pg_GetByEventTypes
     [WithRetryPolicy policy, WithClaimIdentity instanceID lease, WithRateLimiter (if limited then Some ww_Allow else None),
      WithLogger lg, WithDeliveryObserver (Some ww_observe)])
   = worker_handler \<lparr>wc_InstanceID = (if instanceID \<noteq> [] then instanceID else ''worker-1''),
       wc_LeaseDuration = (if lease > 0 then lease else 30 * Second), wc_retryPolicy = policy,
       wc_URLError = urlError, wc_limited = limited\<rparr>"
  by (simp add: NewDeliveryHandler_def DefaultHandlerConfig_def option_defs Let_def worker_runtime_def
      pg_runtime_repository_def worker_handler_def DeliveryHandler.truncate_def)

end
