(* ===== verification/Lifecycle.thy ===== *)
theory Lifecycle
  imports Domain
begin

text \<open>
  What the two processes of \<^verbatim>\<open>internal/app\<close> and \<^verbatim>\<open>cmd\<close> do to start and to stop.  A process leaves a
  trail: the resources it opens and closes, the goroutines it spawns and waits for, and the
  cancellation of its context.  The locale \<open>service\<close> is the contract of a service with the
  program that runs it, and gives once for both programs that nothing is left open when they
  exit.
\<close>

datatype resource = PgPool | RedisClient | KafkaReader | KafkaWriter | HttpListener

datatype routine = ConsumeLoop | RetryPoller | RetentionCleaner | HttpServer

datatype effect =
    Opened resource
  | Closed resource
  | Spawned routine
  | Joined routine
  | Cancelled

type_synonym trail = "effect list"

fun step_open :: "effect \<Rightarrow> resource set \<Rightarrow> resource set" where
  "step_open (Opened r) S = insert r S"
| "step_open (Closed r) S = S - {r}"
| "step_open _ S = S"

fun step_running :: "effect \<Rightarrow> routine set \<Rightarrow> routine set" where
  "step_running (Spawned g) S = insert g S"
| "step_running (Joined g) S = S - {g}"
| "step_running _ S = S"

definition open_after :: "trail \<Rightarrow> resource set" where
  "open_after tr = fold step_open tr {}"

definition running_after :: "trail \<Rightarrow> routine set" where
  "running_after tr = fold step_running tr {}"

text \<open>Closing only, and waiting only, opens and spawns nothing.\<close>

definition closing :: "effect \<Rightarrow> bool" where
  "closing e = (case e of Opened _ \<Rightarrow> False | Spawned _ \<Rightarrow> False | _ \<Rightarrow> True)"

lemma open_after_Nil [simp]: "open_after [] = {}" "running_after [] = {}"
  by (simp_all add: open_after_def running_after_def)

lemma open_after_append: "open_after (tr @ tr') = fold step_open tr' (open_after tr)"
  by (simp add: open_after_def)

lemma running_after_append: "running_after (tr @ tr') = fold step_running tr' (running_after tr)"
  by (simp add: running_after_def)

lemma fold_closing:
  "list_all closing tr \<Longrightarrow> fold step_open tr S = S - {r. Closed r \<in> set tr}"
  "list_all closing tr \<Longrightarrow> fold step_running tr G = G - {g. Joined g \<in> set tr}"
  by (induction tr arbitrary: S G) (auto simp: closing_def split: effect.splits)

text \<open>A constructor of a service can fail, panic, or return the service.\<close>

datatype 's start_result = Refused error | Panicked error | Started 's

text \<open>\<open>errors.Join\<close>: nil when there is no error, else their texts on a line each.\<close>

fun join_lines :: "string list \<Rightarrow> string" where
  "join_lines [] = []"
| "join_lines [l] = l"
| "join_lines (l # ls) = l @ [CHR 0x0A] @ join_lines ls"

definition errors_Join :: "error option list \<Rightarrow> error option" where
  "errors_Join errs = (if somes errs = [] then None else Some (ErrText (join_lines (map Error (somes errs)))))"

text \<open>\<open>run\<close> of both programs: start the service, wait for the signal, shut it down, and shut it down a
  second time as deferred.  The result is that of the first call.\<close>

definition run_service ::
  "'s start_result \<times> trail \<Rightarrow> ('e \<Rightarrow> 's \<Rightarrow> trail \<Rightarrow> (error option \<times> 's) \<times> trail) \<Rightarrow> 'e \<Rightarrow> 'e
     \<Rightarrow> error option start_result \<times> trail" where
  "run_service started shutdown e1 e2 =
     (case started of
        (Refused err, tr) \<Rightarrow> (Refused err, tr)
      | (Panicked err, tr) \<Rightarrow> (Panicked err, tr)
      | (Started s, tr) \<Rightarrow>
          (let ((result, s), tr) = shutdown e1 s tr;
               (_, tr) = shutdown e2 s tr
           in (Started result, tr)))"

text \<open>The end of a program: its exit status, or the crash of a panic.\<close>

datatype exit = Exit int | Crash

text \<open>\<open>http.Server.Shutdown\<close> closes the listener at once and waits for the requests in progress, unless
  its context ends before.\<close>

definition server_Shutdown :: "error option \<Rightarrow> trail \<Rightarrow> trail" where
  "server_Shutdown err tr = tr @ [Closed HttpListener] @ (if err = None then [Joined HttpServer] else [])"

subsection \<open>Addresses\<close>

text \<open>The address of a listener as a client can reach it: \<open>URL\<close> and \<open>MetricsAddr\<close>.\<close>

definition HasPrefix :: "string \<Rightarrow> string \<Rightarrow> bool" where
  "HasPrefix s pre \<longleftrightarrow> take (length pre) s = pre"

definition reachable_addr :: "string \<Rightarrow> string" where
  "reachable_addr addr =
     (let addr = (if HasPrefix addr ''[::]'' then ''127.0.0.1'' @ drop (length ''[::]'') addr else addr)
      in if HasPrefix addr '':'' then ''127.0.0.1'' @ addr else addr)"

lemma reachable_addr_cases:
  "reachable_addr (''[::]'' @ port) = ''127.0.0.1'' @ port" "reachable_addr (CHR '':'' # port) = ''127.0.0.1:'' @ port"
  "\<not> HasPrefix (reachable_addr a) ''[::]''" "\<not> HasPrefix (reachable_addr a) '':''"
  by (auto simp: reachable_addr_def HasPrefix_def Let_def)

subsection \<open>What a program relies on\<close>

locale service =
  fixes started :: "'s start_result \<times> trail"
    and shutdown :: "'e \<Rightarrow> 's \<Rightarrow> trail \<Rightarrow> (error option \<times> 's) \<times> trail"
  assumes refused_releases: "started = (Refused err, tr) \<Longrightarrow> open_after tr = {} \<and> running_after tr = {}"
    and shutdown_releases: "started = (Started s, tr) \<Longrightarrow> open_after (snd (shutdown e s tr)) = {}"
    and shutdown_extends: "\<exists>tr'. snd (shutdown e s tr) = tr @ tr' \<and> list_all closing tr'"
begin

lemma run_releases:
  assumes "run_service started shutdown e1 e2 = (result, tr)"
  shows "open_after tr = {} \<or> (\<exists>err. result = Panicked err)"
proof (cases started)
  case (Pair r tr0)
  show ?thesis
  proof (cases r)
    case (Started s)
    obtain q s1 tr1 where 1: "shutdown e1 s tr0 = ((q, s1), tr1)" by (metis prod.exhaust)
    obtain q2 tr2 where 2: "shutdown e2 s1 tr1 = (q2, tr2)" by fastforce
    from shutdown_releases [of s tr0 e1] 1 Pair Started have "open_after tr1 = {}" by simp
    moreover from shutdown_extends [of e2 s1 tr1] 2 obtain tr' where "tr2 = tr1 @ tr'" "list_all closing tr'" by auto
    ultimately have "open_after tr2 = {}" by (simp add: open_after_append fold_closing)
    with assms Pair Started 1 2 show ?thesis by (simp add: run_service_def)
  qed (use assms Pair refused_releases in \<open>auto simp: run_service_def\<close>)
qed

end

end
