(* ===== verification/Health.thy ===== *)
theory Health
  imports Domain
begin

text \<open>
  \<^verbatim>\<open>internal/observability/health.go\<close> and \<^verbatim>\<open>internal/app/dependency_checks.go\<close>: the endpoints
  \<^verbatim>\<open>/health\<close> and \<^verbatim>\<open>/ready\<close> and the checks of the database, of Kafka and of Redis behind them.

  A checker is an operation on a world \<open>'w\<close> that returns its error; \<open>None\<close> is a panic, which ends
  the request without an answer.  The database pool, the Redis client and the connection to a
  Kafka broker are outside of this code, their operations are arguments.
\<close>

subsection \<open>The handler\<close>

type_synonym 'w checker = "'w \<Rightarrow> error option option \<times> 'w"

record 'w ReadinessCheck =
  rk_Name :: string
  rk_Checker :: "'w checker option"

record 'w HealthHandler =
  hh_checks :: "'w ReadinessCheck list"
  hh_ready :: bool

definition NewHealthHandler :: "'w ReadinessCheck list \<Rightarrow> 'w HealthHandler" where
  "NewHealthHandler checks = \<lparr>hh_checks = checks, hh_ready = False\<rparr>"

definition SetReady :: "bool \<Rightarrow> 'w HealthHandler \<Rightarrow> 'w HealthHandler" where
  "SetReady ready h = h\<lparr>hh_ready := ready\<rparr>"

record ReadyResponse =
  rs_code :: int
  rs_Status :: string
  rs_Checks :: "string \<rightharpoonup> string"

definition Health :: "int \<times> string" where
  "Health = (200, ''ok'')"

fun ready_loop ::
  "'w ReadinessCheck list \<Rightarrow> (string \<rightharpoonup> string) \<Rightarrow> bool \<Rightarrow> 'w \<Rightarrow> ((string \<rightharpoonup> string) \<times> bool) option \<times> 'w" where
  "ready_loop [] checks allHealthy w = (Some (checks, allHealthy), w)"
| "ready_loop (check # cs) checks allHealthy w =
     (case rk_Checker check of
        None \<Rightarrow> ready_loop cs checks allHealthy w
      | Some ping \<Rightarrow>
          if rk_Name check = [] then ready_loop cs checks allHealthy w
          else
            (case ping w of
               (None, w) \<Rightarrow> (None, w)
             | (Some (Some err), w) \<Rightarrow> ready_loop cs (checks(rk_Name check \<mapsto> ''unavailable'')) False w
             | (Some None, w) \<Rightarrow> ready_loop cs (checks(rk_Name check \<mapsto> ''ok'')) allHealthy w))"

definition Ready :: "'w HealthHandler \<Rightarrow> 'w \<Rightarrow> ReadyResponse option \<times> 'w" where
  "Ready h w =
     (let (checks, allHealthy) =
            (if \<not> hh_ready h then ([''app'' \<mapsto> ''not ready''], False) else ([''app'' \<mapsto> ''ok''], True))
      in case ready_loop (hh_checks h) checks allHealthy w of
           (None, w) \<Rightarrow> (None, w)
         | (Some (checks, allHealthy), w) \<Rightarrow>
             (let (status, statusCode) = (if \<not> allHealthy then (''degraded'', 503) else (''ok'', 200))
              in (Some \<lparr>rs_code = statusCode, rs_Status = status, rs_Checks = checks\<rparr>, w)))"

subsection \<open>The checks\<close>

definition dependencyCheckTimeout :: Duration where
  "dependencyCheckTimeout = 2 * Second"

definition databaseReadinessCheck :: "'w checker \<Rightarrow> 'w ReadinessCheck" where
  "databaseReadinessCheck poolPing = \<lparr>rk_Name = ''database'', rk_Checker = Some poolPing\<rparr>"

text \<open>The metadata connection to a broker; every call is under the deadline of the check.\<close>

record ('w, 'c) kafka_net =
  kn_Dial :: "Duration \<Rightarrow> string \<Rightarrow> string \<Rightarrow> 'w \<Rightarrow> (error + 'c) \<times> 'w"
  kn_ReadPartitions :: "'c \<Rightarrow> string \<Rightarrow> 'w \<Rightarrow> (error + int list) \<times> 'w"
  kn_Close :: "'c \<Rightarrow> 'w \<Rightarrow> 'w"

record kafkaTopicChecker =
  kt_brokers :: "string list"
  kt_topic :: string

definition kafkaTopicChecker_Ping :: "('w, 'c) kafka_net \<Rightarrow> kafkaTopicChecker \<Rightarrow> 'w \<Rightarrow> error option \<times> 'w" where
  "kafkaTopicChecker_Ping net c w =
     (if length (kt_brokers c) = 0 \<or> kt_brokers c ! 0 = []
      then (Some (ErrText ''kafka brokers are not configured''), w)
      else if kt_topic c = [] then (Some (ErrText ''kafka topic is not configured''), w)
      else
        (case kn_Dial net dependencyCheckTimeout ''tcp'' (kt_brokers c ! 0) w of
           (Inl err, w) \<Rightarrow> (Some (ErrWrap ''dial kafka broker'' err), w)
         | (Inr conn, w) \<Rightarrow>
             (case kn_ReadPartitions net conn (kt_topic c) w of
                (Inl err, w) \<Rightarrow> (Some (ErrWrap ''read kafka topic metadata'' err), kn_Close net conn w)
              | (Inr partitions, w) \<Rightarrow>
                  (if length partitions = 0 then Some (ErrText ''kafka topic has no partitions'') else None,
                   kn_Close net conn w))))"

definition kafkaReadinessCheck :: "('w, 'c) kafka_net \<Rightarrow> string list \<Rightarrow> string \<Rightarrow> 'w ReadinessCheck" where
  "kafkaReadinessCheck net brokers topic =
     \<lparr>rk_Name = ''kafka'',
      rk_Checker = Some (\<lambda>w. apfst Some (kafkaTopicChecker_Ping net \<lparr>kt_brokers = brokers, kt_topic = topic\<rparr> w))\<rparr>"

text \<open>
  A value of the interface \<open>redisPinger\<close> is nil, or a pointer \<^verbatim>\<open>*redis.Client\<close> that may itself be
  nil.  Only the first compares equal to nil.  \<open>ping\<close> is the method on the pointer.
\<close>

datatype 'c redisPinger = NilInterface | Pointer "'c option"

definition redisReadinessCheck ::
  "(Duration \<Rightarrow> 'c option \<Rightarrow> 'w checker) \<Rightarrow> string \<Rightarrow> 'c redisPinger \<Rightarrow> 'w ReadinessCheck option" where
  "redisReadinessCheck ping redisURL client =
     (if redisURL = [] then None
      else
        (case client of
           NilInterface \<Rightarrow>
             Some \<lparr>rk_Name = ''redis'',
                   rk_Checker = Some (\<lambda>w. (Some (Some (ErrText ''redis configured but unavailable'')), w))\<rparr>
         | Pointer p \<Rightarrow>
             Some \<lparr>rk_Name = ''redis'', rk_Checker = Some (ping dependencyCheckTimeout p)\<rparr>))"

subsection \<open>What readiness means\<close>

text \<open>The reference: run the checkers that have a name, in order, and list what they say.\<close>

fun ping_all :: "'w ReadinessCheck list \<Rightarrow> 'w \<Rightarrow> (string \<times> error option) list option \<times> 'w" where
  "ping_all [] w = (Some [], w)"
| "ping_all (check # cs) w =
     (case (rk_Name check, rk_Checker check) of
        (c # n, Some ping) \<Rightarrow>
          (case ping w of
             (None, w) \<Rightarrow> (None, w)
           | (Some e, w) \<Rightarrow> apfst (map_option (Cons (c # n, e))) (ping_all cs w))
      | _ \<Rightarrow> ping_all cs w)"

definition health_text :: "error option \<Rightarrow> string" where
  "health_text e = (case e of None \<Rightarrow> ''ok'' | Some _ \<Rightarrow> ''unavailable'')"

lemma health_text_simps [simp]: "health_text None = ''ok''" "health_text (Some e) = ''unavailable''"
  by (simp_all add: health_text_def)

lemma ready_loop_ping_all:
  "ready_loop cs m ok w = apfst (map_option (\<lambda>rs. (fold (\<lambda>(n, e) m. m(n \<mapsto> health_text e)) rs m,
     ok \<and> list_all (\<lambda>(n, e). e = None) rs))) (ping_all cs w)"
proof (induction cs arbitrary: m ok w)
  case (Cons check cs)
  show ?case
  proof (cases "rk_Checker check")
    case (Some ping)
    show ?thesis
    proof (cases "rk_Name check")
      case named: (Cons c n)
      obtain e w1 where p: "ping w = (e, w1)" by fastforce
      obtain rs w2 where "ping_all cs w1 = (rs, w2)" by fastforce
      then show ?thesis
        by (cases e; cases rs; cases "the e") (simp_all add: Some named p Cons.IH cong: if_cong)
    qed (simp add: Some Cons.IH)
  qed (simp add: Cons.IH split: list.split)
qed simp

lemma Ready_by_reference:
  "Ready h w =
     apfst (map_option (\<lambda>rs. let ok = hh_ready h \<and> list_all (\<lambda>(n, e). e = None) rs in
        \<lparr>rs_code = (if ok then 200 else 503), rs_Status = (if ok then ''ok'' else ''degraded''),
         rs_Checks = fold (\<lambda>(n, e) m. m(n \<mapsto> health_text e)) rs
           [''app'' \<mapsto> (if hh_ready h then ''ok'' else ''not ready'')]\<rparr>))
      (ping_all (hh_checks h) w)"
  by (auto simp: Ready_def ready_loop_ping_all apfst_def map_prod_def Let_def split: option.splits prod.splits)

text \<open>A connection to a broker is closed on every path that opened one.\<close>

lemma Ping_closes:
  assumes "kafkaTopicChecker_Ping net c w = (e, w')"
    and dial: "\<And>d n a v r v'. kn_Dial net d n a v = (r, v') \<Longrightarrow>
      open_conns v' = open_conns v + (case r of Inl _ \<Rightarrow> {#} | Inr conn \<Rightarrow> {#conn#})"
    and "\<And>conn t v. open_conns (snd (kn_ReadPartitions net conn t v)) = open_conns v"
    and "\<And>conn v. open_conns (kn_Close net conn v) = open_conns v - {#conn#}"
  shows "open_conns w' = open_conns w"
proof -
  let ?b = "kt_brokers c ! 0"
  obtain r w1 where d: "kn_Dial net dependencyCheckTimeout ''tcp'' ?b w = (r, w1)" by fastforce
  show ?thesis
  proof (cases r)
    case (Inr conn)
    obtain q w2 where q: "kn_ReadPartitions net conn (kt_topic c) w1 = (q, w2)" by fastforce
    with assms(3) [of conn "kt_topic c" w1] dial [OF d] Inr have "open_conns (kn_Close net conn w2) = open_conns w"
      by (simp add: assms(4))
    with assms(1) d Inr q show ?thesis
      by (auto simp: kafkaTopicChecker_Ping_def split: if_splits sum.splits)
  qed (use assms(1) d dial [OF d] in \<open>auto simp: kafkaTopicChecker_Ping_def split: if_splits\<close>)
qed

end
