(* ===== verification/Poller.thy ===== *)
theory Poller
  imports Delivery_Runtime
begin

text \<open>
  \<^verbatim>\<open>internal/retry/poller.go\<close>: the poller claims deliveries that are due and hands each batch to a
  goroutine, with at most \<open>MaxConcurrentBatches\<close> in flight.

  The methods are functions on a world \<open>'w\<close>.  The loop of \<open>Start\<close> and the goroutines are a step
  relation: its state holds the loop variables, the batches in flight and the tokens waiting
  in the channel \<open>batchDone\<close>, and a step is one turn of the draining loop, one case of the
  \<open>select\<close>, or the run of one goroutine (its effects on the database interleave with those of
  others in the world, see \<^verbatim>\<open>Pg_World\<close>).  A send to \<open>batchDone\<close> is possible only while the
  channel has room.

  The lemmas show that the loop's count of batches is exact, that the bound on concurrency
  holds in every reachable state, that no goroutine ever blocks on the channel, also after
  \<open>Start\<close> has returned, and that a draining phase leaves nothing due.
\<close>

subsection \<open>Configuration\<close>

record PollerConfig =
  pc_PollInterval :: Duration
  pc_BatchSize :: int
  pc_MaxConcurrentBatches :: int
  pc_InstanceID :: string
  pc_LeaseDuration :: Duration

definition DefaultPollerConfig :: PollerConfig where
  "DefaultPollerConfig = \<lparr>pc_PollInterval = 5 * Second, pc_BatchSize = 100, pc_MaxConcurrentBatches = 1,
     pc_InstanceID = ''worker-1'', pc_LeaseDuration = 30 * Second\<rparr>"

text \<open>Making a channel with a negative size panics.\<close>

definition NewPoller :: "PollerConfig \<Rightarrow> error + PollerConfig" where
  "NewPoller config =
     (let c = (if pc_PollInterval config = 0 then config\<lparr>pc_PollInterval := 5 * Second\<rparr> else config);
          c = (if pc_BatchSize c = 0 then c\<lparr>pc_BatchSize := 100\<rparr> else c);
          c = (if pc_MaxConcurrentBatches c = 0 then c\<lparr>pc_MaxConcurrentBatches := 1\<rparr> else c);
          c = (if pc_InstanceID c = [] then c\<lparr>pc_InstanceID := ''worker-1''\<rparr> else c);
          c = (if pc_LeaseDuration c = 0 then c\<lparr>pc_LeaseDuration := 30 * Second\<rparr> else c)
      in if pc_MaxConcurrentBatches c < 0 then Inl (ErrText ''makechan: size out of range'') else Inr c)"

subsection \<open>Dependencies\<close>

text \<open>Every hook of the metrics may be missing.  Times in seconds are kept as durations.\<close>

record 'w PollerMetrics =
  mt_Claimed :: "(nat \<Rightarrow> 'w \<Rightarrow> 'w) option"
  mt_Reclaimed :: "(nat \<Rightarrow> 'w \<Rightarrow> 'w) option"
  mt_EmptyPoll :: "('w \<Rightarrow> 'w) option"
  mt_ClaimFailure :: "('w \<Rightarrow> 'w) option"
  mt_PersistenceFailure :: "(bool \<Rightarrow> 'w \<Rightarrow> 'w) option"
  mt_ActiveBatches :: "(int \<Rightarrow> 'w \<Rightarrow> 'w) option"
  mt_SchedulingLag :: "(Duration \<Rightarrow> 'w \<Rightarrow> 'w) option"
  mt_Backlog :: "(RetryBacklogStats \<Rightarrow> Duration \<Rightarrow> 'w \<Rightarrow> 'w) option"

record 'w Poller =
  p_config :: PollerConfig
  p_ClaimDeliveries :: "string \<Rightarrow> Duration \<Rightarrow> int \<Rightarrow> 'w \<Rightarrow> (error + ClaimedDelivery list) \<times> 'w"
  p_GetRetryBacklogStats :: "'w \<Rightarrow> (error + RetryBacklogStats) \<times> 'w"
  p_ProcessDeliveries :: "Delivery option list \<Rightarrow> 'w \<Rightarrow> (processed \<times> error option) \<times> 'w"
  p_Now :: "'w \<Rightarrow> time \<times> 'w"
  p_metrics :: "'w PollerMetrics"

definition observe :: "('w \<Rightarrow> 'w) option \<Rightarrow> 'w \<Rightarrow> 'w" where
  "observe hook w = (case hook of None \<Rightarrow> w | Some f \<Rightarrow> f w)"

definition observe_at :: "('a \<Rightarrow> 'w \<Rightarrow> 'w) option \<Rightarrow> 'a \<Rightarrow> 'w \<Rightarrow> 'w" where
  "observe_at hook x w = (case hook of None \<Rightarrow> w | Some f \<Rightarrow> f x w)"

subsection \<open>Methods\<close>

definition claim :: "'w Poller \<Rightarrow> 'w \<Rightarrow> (error + ClaimedDelivery list) \<times> 'w" where
  "claim p w =
     (case p_ClaimDeliveries p (pc_InstanceID (p_config p)) (pc_LeaseDuration (p_config p)) (pc_BatchSize (p_config p)) w of
        (Inl err, w) \<Rightarrow> (Inl err, observe (mt_ClaimFailure (p_metrics p)) w)
      | (Inr claimed, w) \<Rightarrow> (Inr claimed, w))"

definition recordEmptyPoll :: "'w Poller \<Rightarrow> 'w \<Rightarrow> 'w" where
  "recordEmptyPoll p w = observe (mt_EmptyPoll (p_metrics p)) w"

definition recordSchedulingLag :: "'w Poller \<Rightarrow> ClaimedDelivery \<Rightarrow> 'w \<Rightarrow> 'w" where
  "recordSchedulingLag p c w =
     (case mt_SchedulingLag (p_metrics p) of
        None \<Rightarrow> w
      | Some f \<Rightarrow>
          (case (if cd_Reclaimed c then dl_ProcessingDeadline (cd_Delivery c) else dl_NextAttemptAt (cd_Delivery c)) of
             None \<Rightarrow> w
           | Some scheduledAt \<Rightarrow>
               (let (now, w) = p_Now p w; lag = now - scheduledAt
                in f (if lag < 0 then 0 else lag) w)))"

definition refreshBacklog :: "'w Poller \<Rightarrow> 'w \<Rightarrow> 'w" where
  "refreshBacklog p w =
     (case mt_Backlog (p_metrics p) of
        None \<Rightarrow> w
      | Some f \<Rightarrow>
          (case p_GetRetryBacklogStats p w of
             (Inl err, w) \<Rightarrow> w
           | (Inr stats, w) \<Rightarrow>
               (case bs_OldestDueAt stats of
                  None \<Rightarrow> f stats 0 w
                | Some oldest \<Rightarrow>
                    (let (now, w) = p_Now p w; age = now - oldest
                     in f stats (if age < 0 then 0 else age) w))))"

text \<open>\<open>startBatch\<close> up to the start of the goroutine, whose deliveries it returns.\<close>

definition startBatch :: "'w Poller \<Rightarrow> ClaimedDelivery list \<Rightarrow> 'w \<Rightarrow> Delivery option list \<times> 'w" where
  "startBatch p claimed w =
     (let reclaimed = length (filter cd_Reclaimed claimed);
          w = fold (recordSchedulingLag p) claimed w;
          w = observe_at (mt_Claimed (p_metrics p)) (length claimed) w;
          w = (if reclaimed > 0 then observe_at (mt_Reclaimed (p_metrics p)) reclaimed w else w);
          w = observe_at (mt_ActiveBatches (p_metrics p)) 1 w
      in (map (Some \<circ> cd_Delivery) claimed, w))"

definition processRetryBatch :: "'w Poller \<Rightarrow> Delivery option list \<Rightarrow> 'w \<Rightarrow> 'w" where
  "processRetryBatch p ds w =
     (case p_ProcessDeliveries p ds w of
        ((_, Some err), w) \<Rightarrow> observe_at (mt_PersistenceFailure (p_metrics p)) (errors_Is err ErrClaimLost) w
      | ((_, None), w) \<Rightarrow> w)"

subsection \<open>The loop and its goroutines\<close>

record 'w poller_state =
  st_active :: int
  st_draining :: bool
  st_returned :: bool
  st_running :: "Delivery option list list"
  st_done :: nat
  st_world :: 'w

definition initial_state :: "'w \<Rightarrow> 'w poller_state" where
  "initial_state w = \<lparr>st_active = 0, st_draining = True, st_returned = False, st_running = [], st_done = 0, st_world = w\<rparr>"

text \<open>The guard of the inner loop; where it fails, the loop waits in its \<open>select\<close>.\<close>

definition may_drain :: "'w Poller \<Rightarrow> 'w poller_state \<Rightarrow> bool" where
  "may_drain p s \<longleftrightarrow> st_draining s \<and> st_active s < pc_MaxConcurrentBatches (p_config p)"

text \<open>One turn of the inner loop.\<close>

definition drain_turn :: "'w Poller \<Rightarrow> 'w poller_state \<Rightarrow> 'w poller_state" where
  "drain_turn p s =
     (case claim p (st_world s) of
        (Inl err, w) \<Rightarrow> s\<lparr>st_draining := False, st_world := w\<rparr>
      | (Inr claimed, w) \<Rightarrow>
          if length claimed = 0 then
            s\<lparr>st_draining := False, st_world := refreshBacklog p (recordEmptyPoll p w)\<rparr>
          else
            (let draining = \<not> int (length claimed) < pc_BatchSize (p_config p);
                 (ds, w) = startBatch p claimed w
             in s\<lparr>st_active := st_active s + 1, st_draining := draining, st_running := st_running s @ [ds],
                  st_world := (if draining then w else refreshBacklog p w)\<rparr>))"

text \<open>The run of a goroutine: the batch, the metric, the send.\<close>

definition run_batch :: "'w Poller \<Rightarrow> nat \<Rightarrow> 'w poller_state \<Rightarrow> 'w poller_state" where
  "run_batch p n s =
     s\<lparr>st_running := take n (st_running s) @ drop (Suc n) (st_running s), st_done := Suc (st_done s),
       st_world := observe_at (mt_ActiveBatches (p_metrics p)) (- 1) (processRetryBatch p (st_running s ! n) (st_world s))\<rparr>"

text \<open>The events of the poller.  \<open>StopSignal\<close> is the moment at which the loop sees that it is to stop and
  \<open>Start\<close> returns: a claim that is in progress when \<open>stopCh\<close> is closed still starts its batch, which
  is a \<open>Drain\<close> before \<open>StopSignal\<close>.\<close>

datatype poller_event = Drain | StopSignal | PollTick | BatchDone | RunBatch nat

definition enabled :: "'w Poller \<Rightarrow> poller_event \<Rightarrow> 'w poller_state \<Rightarrow> bool" where
  "enabled p ev s =
     (case ev of
        Drain \<Rightarrow> \<not> st_returned s \<and> may_drain p s
      | StopSignal \<Rightarrow> \<not> st_returned s
      | PollTick \<Rightarrow> \<not> st_returned s \<and> \<not> may_drain p s
      | BatchDone \<Rightarrow> \<not> st_returned s \<and> \<not> may_drain p s \<and> 0 < st_done s
      | RunBatch n \<Rightarrow> n < length (st_running s) \<and> int (st_done s) < pc_MaxConcurrentBatches (p_config p))"

definition poller_exec :: "'w Poller \<Rightarrow> poller_event \<Rightarrow> 'w poller_state \<Rightarrow> 'w poller_state" where
  "poller_exec p ev s =
     (case ev of
        Drain \<Rightarrow> drain_turn p s
      | StopSignal \<Rightarrow> s\<lparr>st_returned := True\<rparr>
      | PollTick \<Rightarrow> s\<lparr>st_draining := True\<rparr>
      | BatchDone \<Rightarrow> s\<lparr>st_done := st_done s - 1, st_active := st_active s - 1\<rparr>
      | RunBatch n \<Rightarrow> run_batch p n s)"

inductive poller_step :: "'w Poller \<Rightarrow> 'w poller_state \<Rightarrow> 'w poller_state \<Rightarrow> bool" for p where
  "enabled p ev s \<Longrightarrow> poller_step p s (poller_exec p ev s)"

inductive poller_reach :: "'w Poller \<Rightarrow> 'w \<Rightarrow> 'w poller_state \<Rightarrow> bool" for p w where
  reach_initial: "poller_reach p w (initial_state w)"
| reach_step: "poller_reach p w s \<Longrightarrow> poller_step p s t \<Longrightarrow> poller_reach p w t"

inductive_cases poller_stepE: "poller_step p s t"

subsection \<open>Counting batches\<close>

definition counts :: "'w Poller \<Rightarrow> 'w poller_state \<Rightarrow> bool" where
  "counts p s \<longleftrightarrow> st_active s = int (length (st_running s)) + int (st_done s)
     \<and> st_active s \<le> pc_MaxConcurrentBatches (p_config p)"

lemma drain_turn_counts:
  assumes "counts p s" "st_active s < pc_MaxConcurrentBatches (p_config p)"
  shows "counts p (drain_turn p s)"
  using assms by (auto simp: counts_def drain_turn_def Let_def split: prod.splits sum.splits)

lemma run_batch_counts: "counts p s \<Longrightarrow> n < length (st_running s) \<Longrightarrow> counts p (run_batch p n s)"
  by (simp add: counts_def run_batch_def)

lemma exec_counts:
  assumes "counts p s" "enabled p ev s" shows "counts p (poller_exec p ev s)"
proof (cases ev)
  case Drain
  with assms show ?thesis by (simp add: poller_exec_def enabled_def may_drain_def drain_turn_counts)
next
  case (RunBatch n)
  with assms show ?thesis by (simp add: poller_exec_def enabled_def run_batch_counts)
qed (use assms in \<open>auto simp: poller_exec_def enabled_def counts_def\<close>)

lemma reach_counts:
  assumes "poller_reach p w s" "0 \<le> pc_MaxConcurrentBatches (p_config p)"
  shows "counts p s"
  using assms
proof induction
  case (reach_step s t)
  then show ?case by (auto elim: poller_stepE intro: exec_counts)
qed (simp add: counts_def initial_state_def)

text \<open>A configuration that \<open>NewPoller\<close> accepts has room for a batch.\<close>

lemma NewPoller_positive: "NewPoller config = Inr c \<Longrightarrow> 0 < pc_MaxConcurrentBatches c"
  by (auto simp: NewPoller_def Let_def split: if_splits)

text \<open>After \<open>Start\<close> has returned only goroutines run.\<close>

lemma returned_step:
  assumes "st_returned s" "poller_step p s t"
  shows "st_returned t \<and> Suc (length (st_running t)) = length (st_running s)"
  using assms(2,1)
  by (cases rule: poller_step.cases)
    (auto simp: enabled_def poller_exec_def run_batch_def split: poller_event.splits)

subsection \<open>What the poller keeps\<close>

locale poller_environment = preserved pres
  for pres :: "'w \<Rightarrow> 'w \<Rightarrow> bool" +
  fixes p :: "'w Poller"
  assumes claim_pres: "pres w (snd (p_ClaimDeliveries p owner lease n w))"
    and backlog_pres: "pres w (snd (p_GetRetryBacklogStats p w))"
    and process_pres: "pres w (snd (p_ProcessDeliveries p ds w))"
    and now_pres: "pres w (snd (p_Now p w))"
    and hooks_pres: "pres w (observe_at (mt_Claimed (p_metrics p)) k w)"
      "pres w (observe_at (mt_Reclaimed (p_metrics p)) k w)" "pres w (observe (mt_EmptyPoll (p_metrics p)) w)"
      "pres w (observe (mt_ClaimFailure (p_metrics p)) w)" "pres w (observe_at (mt_PersistenceFailure (p_metrics p)) b w)"
      "pres w (observe_at (mt_ActiveBatches (p_metrics p)) i w)" "pres w (observe_at (mt_SchedulingLag (p_metrics p)) l w)"
      "mt_Backlog (p_metrics p) = Some f \<Longrightarrow> pres w (f stats l w)"
begin

lemma claim_keeps: "claim p w = (r, w') \<Longrightarrow> pres w w'"
  using claim_pres [of w "pc_InstanceID (p_config p)" "pc_LeaseDuration (p_config p)" "pc_BatchSize (p_config p)"]
    hooks_pres(4) pres_trans
  by (auto simp: claim_def split: prod.splits sum.splits)

lemma refreshBacklog_keeps: "pres w (refreshBacklog p w)"
proof (cases "mt_Backlog (p_metrics p)")
  case None
  then show ?thesis by (simp add: refreshBacklog_def pres_refl)
next
  case (Some f)
  obtain r w1 where 1: "p_GetRetryBacklogStats p w = (r, w1)" by fastforce
  have w1: "pres w w1" using backlog_pres [of w] 1 by simp
  obtain now w2 where 2: "p_Now p w1 = (now, w2)" by fastforce
  have w2: "pres w w2" using pres_trans [OF w1] now_pres [of w1] 2 by simp
  note f = pres_trans [OF w1 hooks_pres(8) [OF Some]] pres_trans [OF w2 hooks_pres(8) [OF Some]]
  show ?thesis using Some 1 2 w1 f
    by (cases r) (simp_all add: refreshBacklog_def split: option.split)
qed

lemma recordSchedulingLag_keeps: "pres w (recordSchedulingLag p c w)"
proof (cases "mt_SchedulingLag (p_metrics p)")
  case (Some f)
  have "pres w (f l (snd (p_Now p w)))" for l
    using now_pres [of w] hooks_pres(7) [of "snd (p_Now p w)" l] Some pres_trans by (auto simp: observe_at_def)
  then show ?thesis using Some pres_refl
    by (auto simp: recordSchedulingLag_def split: option.splits prod.splits)
qed (simp add: recordSchedulingLag_def pres_refl)

lemma startBatch_keeps: "startBatch p claimed w = (ds, w') \<Longrightarrow> pres w w'"
proof -
  have lag: "pres v (fold (recordSchedulingLag p) cs v)" for cs v
    by (induction cs arbitrary: v) (auto simp: pres_refl intro: pres_trans [OF recordSchedulingLag_keeps])
  assume "startBatch p claimed w = (ds, w')"
  then show ?thesis
    using pres_trans [OF lag pres_trans [OF hooks_pres(1) hooks_pres(6)]]
      pres_trans [OF lag pres_trans [OF hooks_pres(1) pres_trans [OF hooks_pres(2) hooks_pres(6)]]]
    by (auto simp: startBatch_def Let_def split: if_splits)
qed

lemma drain_turn_keeps: "pres (st_world s) (st_world (drain_turn p s))"
proof -
  obtain r w1 where 1: "claim p (st_world s) = (r, w1)" by fastforce
  note w1 = claim_keeps [OF 1]
  show ?thesis
  proof (cases r)
    case (Inr claimed)
    obtain ds w2 where 2: "startBatch p claimed w1 = (ds, w2)" by fastforce
    have "pres (st_world s) (refreshBacklog p (recordEmptyPoll p w1))"
      using pres_trans [OF w1 pres_trans [OF hooks_pres(3) refreshBacklog_keeps]] by (simp add: recordEmptyPoll_def)
    moreover have w2: "pres (st_world s) w2" by (rule pres_trans [OF w1 startBatch_keeps [OF 2]])
    ultimately show ?thesis using 1 2 Inr pres_trans [OF w2 refreshBacklog_keeps]
      by (simp add: drain_turn_def Let_def)
  qed (use 1 w1 in \<open>simp add: drain_turn_def\<close>)
qed

lemma run_batch_keeps: "pres (st_world s) (st_world (run_batch p n s))"
proof -
  have "pres w (processRetryBatch p ds w)" for w ds
    using process_pres [of w ds] pres_trans [OF process_pres [of w ds] hooks_pres(5)]
    by (cases "p_ProcessDeliveries p ds w"; cases "snd (fst (p_ProcessDeliveries p ds w))")
      (auto simp: processRetryBatch_def)
  from pres_trans [OF this hooks_pres(6)] show ?thesis by (simp add: run_batch_def)
qed

lemma reach_keeps: "poller_reach p w s \<Longrightarrow> pres w (st_world s)"
proof (induction rule: poller_reach.induct)
  case (reach_step s t)
  obtain ev where t: "t = poller_exec p ev s" using reach_step(2) by (auto elim: poller_stepE)
  have "pres (st_world s) (st_world t)"
    unfolding t by (cases ev) (simp_all add: poller_exec_def drain_turn_keeps run_batch_keeps pres_refl)
  with reach_step show ?case using pres_trans by blast
qed (simp add: initial_state_def pres_refl)

end

subsection \<open>The poller of the worker\<close>

text \<open>The poller on the PostgreSQL repository with the worker's delivery handler and all hooks set;
  what the hooks are called with is recorded.\<close>

datatype poller_observation =
    ObsClaimed nat
  | ObsReclaimed nat
  | ObsEmptyPoll
  | ObsClaimFailure
  | ObsPersistenceFailure bool
  | ObsActiveBatches int
  | ObsSchedulingLag Duration
  | ObsBacklog RetryBacklogStats Duration

record poller_world =
  lw_worker :: worker_world
  lw_observed :: "poller_observation list"

definition lw_observe :: "poller_observation \<Rightarrow> poller_world \<Rightarrow> poller_world" where
  "lw_observe x w = w\<lparr>lw_observed := lw_observed w @ [x]\<rparr>"

definition on_worker :: "(worker_world \<Rightarrow> 'a \<times> worker_world) \<Rightarrow> poller_world \<Rightarrow> 'a \<times> poller_world" where
  "on_worker f w = (let (r, ww) = f (lw_worker w) in (r, w\<lparr>lw_worker := ww\<rparr>))"

definition worker_metrics :: "poller_world PollerMetrics" where
  "worker_metrics = \<lparr>mt_Claimed = Some (\<lambda>n. lw_observe (ObsClaimed n)), mt_Reclaimed = Some (\<lambda>n. lw_observe (ObsReclaimed n)),
     mt_EmptyPoll = Some (lw_observe ObsEmptyPoll), mt_ClaimFailure = Some (lw_observe ObsClaimFailure),
     mt_PersistenceFailure = Some (\<lambda>stale. lw_observe (ObsPersistenceFailure stale)),
     mt_ActiveBatches = Some (\<lambda>d. lw_observe (ObsActiveBatches d)), mt_SchedulingLag = Some (\<lambda>l. lw_observe (ObsSchedulingLag l)),
     mt_Backlog = Some (\<lambda>stats age. lw_observe (ObsBacklog stats age))\<rparr>"

definition worker_poller :: "PollerConfig \<Rightarrow> worker_config \<Rightarrow> poller_world Poller" where
  "worker_poller config cfg = \<lparr>p_config = config,
     p_ClaimDeliveries = (\<lambda>owner lease n. on_worker (pg_Claim owner lease n)),
     p_GetRetryBacklogStats = on_worker pg_Backlog,
     p_ProcessDeliveries = (\<lambda>ds. on_worker (ProcessDeliveries (worker_handler cfg) [] ds)),
     p_Now = on_worker ww_Now, p_metrics = worker_metrics\<rparr>"

lemma worker_poller_simps [simp]:
  "p_config (worker_poller config cfg) = config"
  "p_ClaimDeliveries (worker_poller config cfg) owner lease n = on_worker (pg_Claim owner lease n)"
  "p_GetRetryBacklogStats (worker_poller config cfg) = on_worker pg_Backlog"
  "p_ProcessDeliveries (worker_poller config cfg) ds = on_worker (ProcessDeliveries (worker_handler cfg) [] ds)"
  "p_Now (worker_poller config cfg) = on_worker ww_Now" "p_metrics (worker_poller config cfg) = worker_metrics"
  by (simp_all add: worker_poller_def)

lemma on_worker_worker: "lw_worker (snd (on_worker f w)) = snd (f (lw_worker w))"
  by (simp add: on_worker_def split: prod.split)

lemma lw_observe_worker [simp]: "lw_worker (lw_observe x w) = lw_worker w"
  by (simp add: lw_observe_def)

lemmas hook_defs = observe_def observe_at_def worker_metrics_def

interpretation poller: poller_environment "\<lambda>w w'. ww_pres (lw_worker w) (lw_worker w')" "worker_poller config cfg"
proof
  show "ww_pres (lw_worker w) (lw_worker (snd (p_ClaimDeliveries (worker_poller config cfg) owner lease n w)))" for w owner lease n
    unfolding worker_poller_simps pg_Claim_def on_worker_worker
    by (rule ww_pres_call) (metis ClaimDeliveries_ok Claim_event_ids order_refl)
  show "ww_pres (lw_worker w) (lw_worker (snd (p_ProcessDeliveries (worker_poller config cfg) ds w)))" for w ds
    unfolding worker_poller_simps ProcessDeliveries_def processDeliveries_def on_worker_worker
    by (rule worker.process_loop_pres [OF prod.collapse [symmetric]])
  show "ww_pres (lw_worker w) (lw_worker (snd (p_GetRetryBacklogStats (worker_poller config cfg) w)))" for w
    by (simp add: on_worker_worker pg_Backlog_def ww_pres_read)
  show "ww_pres (lw_worker u) (lw_worker w)" if "ww_pres (lw_worker u) (lw_worker v)" "ww_pres (lw_worker v) (lw_worker w)" for u v w
    using that by (rule worker.pres_trans)
qed (auto simp: hook_defs on_worker_worker ww_env_pres worker.pres_refl)

text \<open>C31 The poller never has more batches in flight than configured, and its count is exact: in
  every reachable state of a poller that \<open>NewPoller\<close> accepts, \<open>activeBatches\<close> is the number of
  running goroutines and of finished ones that the loop has not yet counted.\<close>

theorem poller_bounds_concurrency:
  assumes "NewPoller config = Inr c" "p_config p = c" "poller_reach p w s"
  shows "st_active s = int (length (st_running s)) + int (st_done s)
     \<and> int (length (st_running s)) \<le> pc_MaxConcurrentBatches c"
  using reach_counts [OF assms(3)] NewPoller_positive [OF assms(1)] assms(2) by (simp add: counts_def)

text \<open>C32 Stopping terminates: once \<open>Start\<close> has returned, every running goroutine can finish, since the
  channel has room for it although nobody receives any more; every step finishes one of them
  and none starts.\<close>

theorem poller_stop_terminates:
  assumes "NewPoller config = Inr c" "p_config p = c" "poller_reach p w s"
  shows "(\<forall>n < length (st_running s). \<exists>t. poller_step p s t \<and> t = run_batch p n s)
     \<and> (st_returned s \<longrightarrow> (\<forall>t. poller_step p s t \<longrightarrow>
          st_returned t \<and> Suc (length (st_running t)) = length (st_running s)))"
proof -
  have counts: "counts p s" using reach_counts [OF assms(3)] NewPoller_positive [OF assms(1)] assms(2) by simp
  have "poller_step p s (run_batch p n s)" if "n < length (st_running s)" for n
    using poller_step.intros [of p "RunBatch n" s] that counts
    by (simp add: enabled_def poller_exec_def counts_def)
  then show ?thesis using returned_step by blast
qed

abbreviation sample_poller :: "poller_world Poller" where
  "sample_poller \<equiv> worker_poller DefaultPollerConfig (sample_config True)"

definition sample_poller_world :: poller_world where
  "sample_poller_world = \<lparr>lw_worker = sample_worker (sample_db [sample_row]) (Inl (ErrText ''timeout''))
     \<lparr>Allowed = True, RetryAfter = 0\<rparr>, lw_observed = []\<rparr>"

lemma NewPoller_default: "NewPoller DefaultPollerConfig = Inr DefaultPollerConfig"
  by (simp add: NewPoller_def DefaultPollerConfig_def)

lemma sample_reach: "poller_reach sample_poller w (drain_turn sample_poller (initial_state w))"
proof -
  have "poller_step sample_poller (initial_state w) (poller_exec sample_poller Drain (initial_state w))"
    by (rule poller_step.intros) (simp add: enabled_def may_drain_def initial_state_def DefaultPollerConfig_def)
  from reach_step [OF reach_initial this] show ?thesis by (simp add: poller_exec_def)
qed

theorem poller_bounds_concurrency_witness:
  "int (length (st_running (drain_turn sample_poller (initial_state sample_poller_world)))) \<le> 1"
  using poller_bounds_concurrency [OF NewPoller_default _ sample_reach] by (simp add: DefaultPollerConfig_def)

lemma sample_claim:
  "claim sample_poller sample_poller_world =
     (Inr [\<lparr>cd_Delivery = claim_row ''worker-1'' (30 * Second) 5000 sample_row, cd_Reclaimed = False\<rparr>],
      sample_poller_world\<lparr>lw_worker := (lw_worker sample_poller_world)
        \<lparr>pw_db := (sample_db [sample_row])\<lparr>deliveries := [claim_row ''worker-1'' (30 * Second) 5000 sample_row]\<rparr>, pw_calls := 1\<rparr>\<rparr>)"
  by (simp add: claim_def on_worker_def pg_Claim_def call_def ClaimDeliveries_def claim_result_def claim_candidates_def
      order_limit_def claimable_def timestamptz_def DefaultPollerConfig_def sample_poller_world_def sample_worker_defs
      sample_defs)

lemma sample_running: "length (st_running (drain_turn sample_poller (initial_state sample_poller_world))) = 1"
proof -
  have w: "st_world (initial_state sample_poller_world) = sample_poller_world" by (simp add: initial_state_def)
  show ?thesis
    unfolding drain_turn_def w sample_claim by (simp add: initial_state_def Let_def split: prod.split)
qed

theorem poller_stop_terminates_witness:
  "\<exists>t. poller_step sample_poller (drain_turn sample_poller (initial_state sample_poller_world)) t"
  using poller_stop_terminates [OF NewPoller_default _ sample_reach, of sample_poller_world] sample_running
  by (metis worker_poller_simps(1) zero_less_one)

text \<open>Whatever the poller and its goroutines do, in any interleaving and with any environment,
  the invariant of the database holds in every reachable state.\<close>

lemma poller_keeps_database:
  assumes "poller_reach (worker_poller config cfg) w s" "pw_ok (lw_worker w)"
  shows "pw_ok (lw_worker (st_world s))"
  using poller.reach_keeps [OF assms(1)] assms(2) by (simp add: ww_pres_def)

subsection \<open>Draining\<close>

lemma short_claim_exhausts:
  assumes "db_ok s" "ClaimDeliveries flt now locked owner lease limit s = (Inr res, t)"
    and "int (length res) < limit" "0 < lease" "d \<in> set (deliveries t)" "dl_ID d \<notin> locked"
  shows "\<not> claimable (timestamptz now) d"
  using assms(2)
proof (cases rule: ClaimDeliveries_cases)
  case (claimed cs res')
  let ?free = "filter (\<lambda>d. claimable (timestamptz now) d \<and> dl_ID d \<notin> locked) (deliveries s)"
  have res': "res' = res" using claimed(4) by auto
  note spec = claim_candidates_spec [OF assms(1) claimed(2,3)]
  have "length ?free \<le> nat limit"
    using spec(2) assms(3) length_order_limit [of "\<lambda>d. (claim_order d, dl_CreatedAt d)" "nat limit" ?free]
    unfolding claimed(2) res' by linarith
  then have cs: "set cs = set ?free" unfolding claimed(2) by (rule order_limit_all)
  have pos: "0 < postgresInterval lease"
    using assms(4) by (auto simp: postgresInterval_def Microseconds_def Let_def signed_divide_int_def)
  from assms(5) spec(3) consider q where "q \<in> set (deliveries s)" "q \<notin> set cs" "d = q"
    | q where "d = claim_row owner lease (timestamptz now) q"
    by (auto simp: set_update_where)
  then show ?thesis
  proof cases
    case (1 q)
    with cs assms(6) show ?thesis by auto
  next
    case (2 q)
    with pos show ?thesis by (simp add: claimable_def claim_row_def due_def)
  qed
qed auto

text \<open>C33 A draining phase that ends without an error leaves no work behind: when a turn of the loop
  claims successfully and stops draining, and other processes pause, no delivery of the database
  that is not locked by another transaction is claimable at the time of the claim.\<close>

theorem drain_leaves_nothing_due:
  assumes "pg_quiet (lw_worker (st_world s))" "0 < pc_LeaseDuration config" "0 < pc_BatchSize config"
    and "claim (worker_poller config cfg) (st_world s) = (Inr claimed, w1)"
    and "\<not> st_draining (drain_turn (worker_poller config cfg) s)"
    and "env = pw_env (lw_worker (st_world s)) (pw_calls (lw_worker (st_world s)))"
    and "d \<in> set (deliveries (pw_db (lw_worker w1)))" "dl_ID d \<notin> ce_locked env"
  shows "\<not> claimable (timestamptz (ce_now env)) d"
proof -
  let ?w = "lw_worker (st_world s)"
  have short: "int (length claimed) < pc_BatchSize config"
    using assms(3,4,5) by (auto simp: drain_turn_def Let_def split: if_splits prod.splits)
  have "pg_Claim (pc_InstanceID config) (pc_LeaseDuration config) (pc_BatchSize config) ?w = (Inr claimed, lw_worker w1)"
    using assms(4) by (auto simp: claim_def on_worker_def hook_defs split: prod.splits sum.splits)
  then obtain t where t: "ClaimDeliveries (ce_flt env) (ce_now env) (ce_locked env) (pc_InstanceID config)
      (pc_LeaseDuration config) (pc_BatchSize config) (pw_db ?w) = (Inr claimed, t)"
    and w1: "lw_worker w1 = ?w\<lparr>pw_db := t, pw_calls := Suc (pw_calls ?w)\<rparr>"
    unfolding pg_Claim_def assms(6) by (rule call_quiet [OF assms(1)])
  have "pw_db (lw_worker w1) = t" unfolding w1 by simp
  then show ?thesis
    using short_claim_exhausts [OF _ t short assms(2) _ assms(8)] assms(1,7) by (simp add: pg_quiet_def)
qed

text \<open>The scheduling lag reported for a delivery whose lease had run out is zero, however long
  that was ago: the claim returns the row with its new deadline, and the lag is measured
  against that.\<close>

lemma reclaimed_lag_is_zero:
  assumes "db_ok db" "ClaimDeliveries flt now locked owner lease limit db = (Inr claimed, db')"
    and "c \<in> set claimed" "cd_Reclaimed c"
    and "ww_clock (lw_worker w) (ww_clocks (lw_worker w)) \<le> timestamptz now + 1000 * postgresInterval lease"
  shows "lw_observed (recordSchedulingLag (worker_poller config cfg) c w) = lw_observed w @ [ObsSchedulingLag 0]"
  using assms(2)
proof (cases rule: ClaimDeliveries_cases)
  case (claimed cs res)
  then have res: "res = claimed" by auto
  from claim_candidates_spec(1) [OF assms(1) claimed(2,3)] assms(3) res
  obtain q where "cd_Delivery c = claim_row owner lease (timestamptz now) q" by auto
  with assms(4,5) show ?thesis
    by (simp add: recordSchedulingLag_def worker_metrics_def on_worker_def ww_Now_def lw_observe_def claim_row_def)
qed auto

theorem drain_leaves_nothing_due_witness:
  "\<not> claimable (timestamptz 5000) (claim_row ''worker-1'' (30 * Second) 5000 sample_row)"
proof -
  let ?s = "initial_state sample_poller_world"
  have w: "st_world ?s = sample_poller_world" by (simp add: initial_state_def)
  have "\<not> st_draining (drain_turn sample_poller ?s)"
    unfolding drain_turn_def w sample_claim by (simp add: DefaultPollerConfig_def Let_def split: prod.split)
  then show ?thesis
    using drain_leaves_nothing_due [of ?s DefaultPollerConfig "sample_config True", unfolded w, OF _ _ _ sample_claim]
    by (simp add: pg_quiet_def sample_poller_world_def sample_db_ok DefaultPollerConfig_def sample_worker_defs)
qed

end
