(* ===== verification/Cleaner.thy ===== *)
theory Cleaner
  imports Pg_World
begin

text \<open>
  \<^verbatim>\<open>internal/retention/cleaner.go\<close>: the periodic cleanup.  The cleaner is written against the
  interface \<open>Repository\<close>; the locale \<open>retention_repository\<close> states what it relies on, proves
  that no run of the cleaner, whatever fails and whenever it is stopped, harms anything alive,
  and is interpreted by the PostgreSQL repository.
\<close>

record RetentionConfig =
  rc_AttemptBodyRetention :: Duration
  rc_EventRetention :: Duration
  rc_Interval :: Duration
  rc_BatchSize :: int

definition DefaultRetentionConfig :: RetentionConfig where
  "DefaultRetentionConfig =
     \<lparr>rc_AttemptBodyRetention = 7 * 24 * Hour,
      rc_EventRetention = 30 * 24 * Hour,
      rc_Interval = Hour,
      rc_BatchSize = 1000\<rparr>"

text \<open>The configuration a new cleaner works with.\<close>

definition NewCleaner :: "RetentionConfig \<Rightarrow> RetentionConfig" where
  "NewCleaner config =
     (let defaults = DefaultRetentionConfig;
          config = (if rc_AttemptBodyRetention config \<le> 0
                    then config\<lparr>rc_AttemptBodyRetention := rc_AttemptBodyRetention defaults\<rparr> else config);
          config = (if rc_EventRetention config \<le> 0
                    then config\<lparr>rc_EventRetention := rc_EventRetention defaults\<rparr> else config);
          config = (if rc_Interval config \<le> 0
                    then config\<lparr>rc_Interval := rc_Interval defaults\<rparr> else config)
      in if rc_BatchSize config \<le> 0
         then config\<lparr>rc_BatchSize := rc_BatchSize defaults\<rparr> else config)"

record 'w RetentionRepo =
  rr_RedactAttemptBodies :: "time \<Rightarrow> int \<Rightarrow> 'w \<Rightarrow> (error + nat) \<times> 'w"
  rr_DeleteTerminalEvents :: "time \<Rightarrow> int \<Rightarrow> 'w \<Rightarrow> (error + nat) \<times> 'w"

datatype retention_observation =
    AttemptBodiesRedacted nat
  | TerminalEventsDeleted nat
  | CycleFailed
  | CycleCompleted Duration time

text \<open>A cleaner without an observer gets one that does nothing.\<close>

definition noopObserver :: "retention_observation \<Rightarrow> 'w \<Rightarrow> 'w" where
  "noopObserver x w = w"

definition observer_of :: "(retention_observation \<Rightarrow> 'w \<Rightarrow> 'w) option \<Rightarrow> retention_observation \<Rightarrow> 'w \<Rightarrow> 'w" where
  "observer_of observer = (case observer of None \<Rightarrow> noopObserver | Some f \<Rightarrow> f)"

text \<open>One cleanup: the error if any, the calls of the observer, the world after it.\<close>

definition RunOnce ::
  "'w RetentionRepo \<Rightarrow> RetentionConfig \<Rightarrow> time \<Rightarrow> 'w \<Rightarrow> error option \<times> retention_observation list \<times> 'w" where
  "RunOnce repo config now w =
     (case rr_RedactAttemptBodies repo (now - rc_AttemptBodyRetention config) (rc_BatchSize config) w of
        (Inl err, w) \<Rightarrow> (Some err, [], w)
      | (Inr redacted, w) \<Rightarrow>
          (case rr_DeleteTerminalEvents repo (now - rc_EventRetention config) (rc_BatchSize config) w of
             (Inl err, w) \<Rightarrow> (Some err, [AttemptBodiesRedacted redacted], w)
           | (Inr deleted, w) \<Rightarrow>
               (None, [AttemptBodiesRedacted redacted, TerminalEventsDeleted deleted], w)))"

text \<open>\<open>startedAt\<close>, \<open>since\<close> and \<open>completedAt\<close> are the three clock readings of a cycle.\<close>

record cycle_clock =
  startedAt :: time
  since :: time
  completedAt :: time

definition runAndObserve ::
  "'w RetentionRepo \<Rightarrow> RetentionConfig \<Rightarrow> cycle_clock \<Rightarrow> 'w \<Rightarrow> retention_observation list \<times> 'w" where
  "runAndObserve repo config clk w =
     (case RunOnce repo config (startedAt clk) w of
        (Some err, obs, w) \<Rightarrow> (obs @ [CycleFailed], w)
      | (None, obs, w) \<Rightarrow> (obs @ [CycleCompleted (since clk - startedAt clk) (completedAt clk)], w))"

text \<open>What the \<open>select\<close> of \<open>Start\<close> receives, in order.\<close>

datatype cleaner_signal = CtxDone | StopRequested | Tick cycle_clock

fun cleaner_loop ::
  "'w RetentionRepo \<Rightarrow> RetentionConfig \<Rightarrow> cleaner_signal list \<Rightarrow> 'w \<Rightarrow> retention_observation list \<times> 'w" where
  "cleaner_loop repo config [] w = ([], w)"
| "cleaner_loop repo config (CtxDone # sigs) w = ([], w)"
| "cleaner_loop repo config (StopRequested # sigs) w = ([], w)"
| "cleaner_loop repo config (Tick clk # sigs) w =
     (let (obs, w) = runAndObserve repo config clk w;
          (obs', w) = cleaner_loop repo config sigs w
      in (obs @ obs', w))"

definition Start ::
  "'w RetentionRepo \<Rightarrow> RetentionConfig \<Rightarrow> cycle_clock \<Rightarrow> cleaner_signal list \<Rightarrow> 'w
     \<Rightarrow> retention_observation list \<times> 'w" where
  "Start repo config clk sigs w =
     (let (obs, w) = runAndObserve repo config clk w;
          (obs', w) = cleaner_loop repo config sigs w
      in (obs @ obs', w))"

text \<open>No more rows than the batch size are reported for one statement.\<close>

definition within_batch :: "RetentionConfig \<Rightarrow> retention_observation \<Rightarrow> bool" where
  "within_batch config obs = (case obs of AttemptBodiesRedacted k \<Rightarrow> int k \<le> rc_BatchSize config
     | TerminalEventsDeleted k \<Rightarrow> int k \<le> rc_BatchSize config | _ \<Rightarrow> True)"

subsection \<open>The repository as the cleaner sees it\<close>

text \<open>
  \<open>inv\<close> is an invariant of the repository, \<open>safe w w'\<close> says that going from \<open>w\<close> to \<open>w'\<close> nothing
  alive was lost, \<open>batch\<close> bounds what one call may remove.
\<close>

locale retention_repository =
  fixes repo :: "'w RetentionRepo" and inv :: "'w \<Rightarrow> bool" and safe :: "'w \<Rightarrow> 'w \<Rightarrow> bool"
  assumes redact: "inv w \<Longrightarrow> rr_RedactAttemptBodies repo before n w = (r, w')
                     \<Longrightarrow> inv w' \<and> safe w w' \<and> (\<forall>k. r = Inr k \<longrightarrow> int k \<le> n)"
    and delete: "inv w \<Longrightarrow> rr_DeleteTerminalEvents repo before n w = (r, w')
                     \<Longrightarrow> inv w' \<and> safe w w' \<and> (\<forall>k. r = Inr k \<longrightarrow> int k \<le> n)"
    and safe_refl: "safe w w"
    and safe_trans: "safe u v \<Longrightarrow> safe v w \<Longrightarrow> safe u w"
begin

lemma RunOnce_safe:
  assumes "inv w" "RunOnce repo config now w = (err, obs, w')"
  shows "inv w' \<and> safe w w' \<and> (\<forall>x \<in> set obs. within_batch config x)"
proof -
  obtain r w1 where a: "rr_RedactAttemptBodies repo (now - rc_AttemptBodyRetention config)
      (rc_BatchSize config) w = (r, w1)" by fastforce
  obtain q w2 where b: "rr_DeleteTerminalEvents repo (now - rc_EventRetention config)
      (rc_BatchSize config) w1 = (q, w2)" by fastforce
  note 1 = redact [OF assms(1) a]
  then have 2: "inv w2 \<and> safe w w2 \<and> (\<forall>k. q = Inr k \<longrightarrow> int k \<le> rc_BatchSize config)"
    using delete [OF _ b] safe_trans by blast
  show ?thesis
    using assms(2) 1 2 a b by (cases r; cases q) (auto simp: RunOnce_def within_batch_def)
qed

lemma runAndObserve_safe:
  assumes "inv w" "runAndObserve repo config clk w = (obs, w')"
  shows "inv w' \<and> safe w w' \<and> (\<forall>x \<in> set obs. within_batch config x)"
proof -
  obtain err o1 w1 where r: "RunOnce repo config (startedAt clk) w = (err, o1, w1)" by (metis prod_cases3)
  from RunOnce_safe [OF assms(1) r] assms(2) r show ?thesis
    by (cases err) (auto simp: runAndObserve_def within_batch_def)
qed

lemma cleaner_loop_safe:
  "inv w \<Longrightarrow> cleaner_loop repo config sigs w = (obs, w')
     \<Longrightarrow> inv w' \<and> safe w w' \<and> (\<forall>x \<in> set obs. within_batch config x)"
proof (induction sigs arbitrary: w obs w')
  case (Cons sig sigs)
  show ?case
  proof (cases sig)
    case (Tick clk)
    obtain o1 w1 where 1: "runAndObserve repo config clk w = (o1, w1)" by fastforce
    obtain o2 w2 where 2: "cleaner_loop repo config sigs w1 = (o2, w2)" by fastforce
    note s1 = runAndObserve_safe [OF Cons.prems(1) 1]
    note s2 = Cons.IH [OF conjunct1 [OF s1] 2]
    show ?thesis using Cons.prems(2) Tick 1 2 s1 s2 safe_trans [of w w1 w2] by auto
  qed (use Cons.prems safe_refl in auto)
qed (simp add: safe_refl)

lemma Start_safe:
  assumes "inv w" "Start repo config clk sigs w = (obs, w')"
  shows "inv w' \<and> safe w w' \<and> (\<forall>x \<in> set obs. within_batch config x)"
  using cleaner_loop_safe [of w config "Tick clk # sigs" obs w'] assms by (simp add: Start_def)

end

subsection \<open>PostgreSQL provides the interface\<close>

definition pg_retention :: "'m pg_world_scheme RetentionRepo" where
  "pg_retention = \<lparr>rr_RedactAttemptBodies = pg_Redact, rr_DeleteTerminalEvents = pg_DeleteTerminal\<rparr>"

interpretation pg_cleaner: retention_repository pg_retention pg_quiet "\<lambda>w w'. cleanup_safe (pw_db w) (pw_db w')"
proof
  fix w w' :: "'m pg_world_scheme" and before n r
  assume ok: "pg_quiet w"
  then have db: "db_ok (pw_db w)" by (simp add: pg_quiet_def)
  show "pg_quiet w' \<and> cleanup_safe (pw_db w) (pw_db w') \<and> (\<forall>k. r = Inr k \<longrightarrow> int k \<le> n)"
    if "rr_RedactAttemptBodies pg_retention before n w = (r, w')"
  proof -
    have c: "call (\<lambda>c. RedactAttemptBodies (ce_flt c) (ce_lockedAttempts c) before n) w = (r, w')"
      using that by (simp add: pg_retention_def pg_Redact_def)
    show ?thesis
    proof (rule call_quiet [OF ok c])
      fix t assume t: "RedactAttemptBodies (ce_flt (pw_env w (pw_calls w)))
          (ce_lockedAttempts (pw_env w (pw_calls w))) before n (pw_db w) = (r, t)"
        and w': "w' = w\<lparr>pw_db := t, pw_calls := Suc (pw_calls w)\<rparr>"
      have "\<forall>k. r = Inr k \<longrightarrow> int k \<le> n" using t by (cases rule: Redact_cases) (use db in auto)
      then show ?thesis
        using Redact_ok [OF db t] Redact_safe [OF t] ok by (simp add: w' pg_quiet_def)
    qed
  qed
  show "pg_quiet w' \<and> cleanup_safe (pw_db w) (pw_db w') \<and> (\<forall>k. r = Inr k \<longrightarrow> int k \<le> n)"
    if "rr_DeleteTerminalEvents pg_retention before n w = (r, w')"
  proof -
    have c: "call (\<lambda>c. DeleteTerminalEvents (ce_flt c) (ce_lockedEvents c) before n) w = (r, w')"
      using that by (simp add: pg_retention_def pg_DeleteTerminal_def)
    show ?thesis
    proof (rule call_quiet [OF ok c])
      fix t assume t: "DeleteTerminalEvents (ce_flt (pw_env w (pw_calls w)))
          (ce_lockedEvents (pw_env w (pw_calls w))) before n (pw_db w) = (r, t)"
        and w': "w' = w\<lparr>pw_db := t, pw_calls := Suc (pw_calls w)\<rparr>"
      have "\<forall>k. r = Inr k \<longrightarrow> int k \<le> n" using t by (cases rule: DeleteTerminal_cases) (use db in auto)
      then show ?thesis
        using DeleteTerminal_ok [OF db t] DeleteTerminal_safe [OF db t] ok by (simp add: w' pg_quiet_def)
    qed
  qed
qed (auto intro: cleanup_safe_trans)

text \<open>The statements behind one cleanup.\<close>

lemma RunOnce_statements:
  assumes quiet: "pg_quiet w" and run: "RunOnce pg_retention config now w = (err, obs, w')"
  obtains flt locked r s1
  where "RedactAttemptBodies flt locked (now - rc_AttemptBodyRetention config) (rc_BatchSize config) (pw_db w) = (r, s1)"
    and "pw_db w' = s1 \<or> (\<exists>flt locked q. DeleteTerminalEvents flt locked (now - rc_EventRetention config)
           (rc_BatchSize config) s1 = (q, pw_db w'))"
proof -
  obtain r w1 where a: "call (\<lambda>c. RedactAttemptBodies (ce_flt c) (ce_lockedAttempts c)
      (now - rc_AttemptBodyRetention config) (rc_BatchSize config)) w = (r, w1)" by fastforce
  obtain q w2 where b: "call (\<lambda>c. DeleteTerminalEvents (ce_flt c) (ce_lockedEvents c)
      (now - rc_EventRetention config) (rc_BatchSize config)) w1 = (q, w2)" by fastforce
  have w': "w' = w1 \<or> w' = w2"
    using run a b by (cases r; cases q) (auto simp: RunOnce_def pg_retention_def pg_Redact_def pg_DeleteTerminal_def)
  have quiet1: "pg_quiet w1"
    using pg_cleaner.redact [OF quiet, of "now - rc_AttemptBodyRetention config" "rc_BatchSize config" r w1] a
    by (simp add: pg_retention_def pg_Redact_def)
  have 1: "\<exists>flt locked. RedactAttemptBodies flt locked (now - rc_AttemptBodyRetention config) (rc_BatchSize config)
      (pw_db w) = (r, pw_db w1)" by (rule call_quiet [OF quiet a]) auto
  have 2: "\<exists>flt locked. DeleteTerminalEvents flt locked (now - rc_EventRetention config) (rc_BatchSize config)
      (pw_db w1) = (q, pw_db w2)" by (rule call_quiet [OF quiet1 b]) auto
  show ?thesis using 1 2 w' that by blast
qed

lemma NewCleaner_simps:
  "rc_AttemptBodyRetention (NewCleaner cfg) =
     (if 0 < rc_AttemptBodyRetention cfg then rc_AttemptBodyRetention cfg else 7 * 24 * Hour)"
  "rc_EventRetention (NewCleaner cfg) =
     (if 0 < rc_EventRetention cfg then rc_EventRetention cfg else 30 * 24 * Hour)"
  "rc_BatchSize (NewCleaner cfg) = (if 0 < rc_BatchSize cfg then rc_BatchSize cfg else 1000)"
  by (auto simp: NewCleaner_def DefaultRetentionConfig_def Let_def)

lemma Redact_old:
  assumes "db_ok s" "RedactAttemptBodies flt locked before limit s = (r, t)"
  shows "events t = events s \<and> deliveries t = deliveries s
    \<and> (\<forall>b \<in> set (delivery_attempts t). \<exists>a \<in> set (delivery_attempts s). body_dropped a b
         \<and> (b \<noteq> a \<longrightarrow> at_CreatedAt a < before))"
  using assms(2)
proof (cases rule: Redact_cases)
  case (redacted P n)
  have "body_dropped a (a\<lparr>at_ResponseBody := None\<rparr>)" for a by (simp add: body_dropped_def)
  moreover have "at_CreatedAt a < before" if "a \<in> set (delivery_attempts s)" "P a" for a
    using redacted(6) [OF assms(1) that] timestamptz_le(1) [of before] by (simp add: redactable_def)
  moreover have "\<exists>a \<in> set (delivery_attempts s). b = (if P a then a\<lparr>at_ResponseBody := None\<rparr> else a)"
    if "b \<in> set (delivery_attempts t)" for b
    using that unfolding redacted(2) by (auto simp: set_update_where)
  ultimately have "\<forall>b \<in> set (delivery_attempts t). \<exists>a \<in> set (delivery_attempts s). body_dropped a b
      \<and> (b \<noteq> a \<longrightarrow> at_CreatedAt a < before)" by (metis body_dropped_refl)
  then show ?thesis by (simp add: redacted(2))
qed (auto intro: body_dropped_refl)

lemma DeleteTerminal_old:
  assumes "db_ok s" "DeleteTerminalEvents flt locked before limit s = (r, t)" "0 < limit"
  shows "(\<forall>e \<in> set (events s) - set (events t). ev_UpdatedAt e < before
        \<and> ev_Status e \<in> {EventStatusDelivered, EventStatusFailed}
        \<and> \<not> has_row (\<lambda>d. dl_EventID d = ev_ID e \<and> live d) (deliveries s))
    \<and> int (card (set (events s) - set (events t))) \<le> limit
    \<and> set (delivery_attempts t) \<subseteq> set (delivery_attempts s)"
  using assms(2)
proof (cases rule: DeleteTerminal_cases)
  case (deleted ids n)
  have gone: "set (events s) - set (events t) = set (filter (\<lambda>e. ev_ID e \<in> ids) (events s))"
    unfolding deleted(2) by (auto simp: delete_events_def Let_def)
  have "card (set (events s) - set (events t)) \<le> n"
    unfolding gone deleted(3) RowsAffected_def by (rule card_length)
  then have "int (card (set (events s) - set (events t))) \<le> limit" using deleted(5) [OF assms(1)] by linarith
  moreover have "deletable (timestamptz before) s e" if "e \<in> set (events s) - set (events t)" for e
    using that deleted(6) [OF assms(1)] unfolding gone by simp
  moreover have "set (delivery_attempts t) \<subseteq> set (delivery_attempts s)"
    unfolding deleted(2) by (auto simp: delete_events_def Let_def)
  ultimately show ?thesis using timestamptz_le(1) [of before] by (fastforce simp: deletable_def)
qed (use assms(3) in simp)

text \<open>A database with one old, failed event.\<close>

definition sample_old_world :: pg_world where
  "sample_old_world = sample_world ((sample_db [sample_failed])\<lparr>events := [sample_event\<lparr>ev_Status := EventStatusFailed\<rparr>]\<rparr>)"

lemma sample_old_world_ok: "db_ok (pw_db sample_old_world)" "\<forall>n. ce_others (pw_env sample_old_world n) = id"
  using sample_db_ok(3)
  by (simp_all add: sample_old_world_def sample_world_def db_ok_def keys_ok_def refs_ok_def sample_db_def key_unique_def)

subsection \<open>Properties\<close>



text \<open>C23 One cleanup of a cleaner on PostgreSQL, while other processes pause, at the time \<open>now\<close> of its
  clock: an event that has disappeared is terminal, had no delivery still to be processed and was
  last updated before the configured retention (30 days when none is configured), no more than the
  configured batch of events disappears (1000 when none is configured), and an attempt that has
  lost its response body was made before the retention of the bodies (7 days when none is
  configured).\<close>

theorem deleted_events_are_old:
  assumes "db_ok (pw_db w)" "\<forall>n. ce_others (pw_env w n) = id"
    and "RunOnce pg_retention (NewCleaner cfg) now w = (err, obs, w')"
  shows "(\<forall>e \<in> set (events (pw_db w)) - set (events (pw_db w')).
        ev_UpdatedAt e < now - (if 0 < rc_EventRetention cfg then rc_EventRetention cfg else 30 * 24 * Hour)
        \<and> ev_Status e \<in> {EventStatusDelivered, EventStatusFailed}
        \<and> \<not> has_row (\<lambda>d. dl_EventID d = ev_ID e \<and> live d) (deliveries (pw_db w)))
     \<and> int (card (set (events (pw_db w)) - set (events (pw_db w'))))
        \<le> (if 0 < rc_BatchSize cfg then rc_BatchSize cfg else 1000)
     \<and> (\<forall>b \<in> set (delivery_attempts (pw_db w')). \<exists>a \<in> set (delivery_attempts (pw_db w)). body_dropped a b
        \<and> (b \<noteq> a \<longrightarrow> at_CreatedAt a < now -
             (if 0 < rc_AttemptBodyRetention cfg then rc_AttemptBodyRetention cfg else 7 * 24 * Hour)))"
proof -
  have quiet: "pg_quiet w" using assms(1,2) by (simp add: pg_quiet_def)
  from RunOnce_statements [OF quiet assms(3)] show ?thesis
  proof cases
    case (1 flt locked r s1)
    note redact = Redact_old [OF assms(1) 1(1)]
    have s1: "db_ok s1" by (rule Redact_ok [OF assms(1) 1(1)])
    from 1(2) show ?thesis
    proof (elim disjE exE)
      assume "pw_db w' = s1"
      then show ?thesis using redact by (auto simp: NewCleaner_simps)
    next
      fix flt locked q
      assume del: "DeleteTerminalEvents flt locked (now - rc_EventRetention (NewCleaner cfg))
        (rc_BatchSize (NewCleaner cfg)) s1 = (q, pw_db w')"
      have "0 < rc_BatchSize (NewCleaner cfg)" by (simp add: NewCleaner_simps)
      note deleted = DeleteTerminal_old [OF s1 del this, unfolded NewCleaner_simps conjunct1 [OF redact]
          conjunct1 [OF conjunct2 [OF redact]]]
      show ?thesis
      proof (intro conjI)
        show "\<forall>b \<in> set (delivery_attempts (pw_db w')). \<exists>a \<in> set (delivery_attempts (pw_db w)). body_dropped a b
          \<and> (b \<noteq> a \<longrightarrow> at_CreatedAt a < now -
             (if 0 < rc_AttemptBodyRetention cfg then rc_AttemptBodyRetention cfg else 7 * 24 * Hour))"
          using deleted redact unfolding NewCleaner_simps by (meson subsetD)
      qed (rule conjunct1 [OF deleted], rule conjunct1 [OF conjunct2 [OF deleted]])
    qed
  qed
qed

theorem deleted_events_are_old_witness:
  "\<exists>err obs w'. RunOnce pg_retention (NewCleaner DefaultRetentionConfig) (31 * 24 * Hour) sample_old_world = (err, obs, w')
     \<and> events (pw_db w') = []
     \<and> (\<forall>e \<in> set (events (pw_db sample_old_world)). ev_UpdatedAt e < 31 * 24 * Hour - 30 * 24 * Hour)"
proof -
  obtain err obs w' where r: "RunOnce pg_retention (NewCleaner DefaultRetentionConfig) (31 * 24 * Hour)
      sample_old_world = (err, obs, w')" by (metis prod_cases3)
  have "events (pw_db w') = []"
    using r [symmetric] by (simp add: sample_old_world_def RunOnce_def pg_retention_def pg_Redact_def pg_DeleteTerminal_def call_def
        RedactAttemptBodies_def DeleteTerminalEvents_def order_limit_def deletable_def delete_events_def live_def
        timestamptz_def sample_defs sample_world_def NewCleaner_def DefaultRetentionConfig_def Let_def)
  with deleted_events_are_old [OF sample_old_world_ok r] r show ?thesis
    by (auto simp: DefaultRetentionConfig_def)
qed

end
