(* ===== verification/Event_Codec.thy ===== *)
theory Event_Codec
  imports Webhook
begin

text \<open>
  Events on the wire between the API and the worker: the Kafka message, \<open>json.Marshal\<close> of
  \<^verbatim>\<open>kafka.EventMessage\<close> as \<^verbatim>\<open>producer.go\<close> uses it and \<open>json.Unmarshal\<close> into it as \<^verbatim>\<open>consumer.go\<close>
  uses it.  A time has no zone in this development, so that the text of \<open>next_attempt_at\<close> is left
  to two functions, \<open>fmt\<close> and \<open>parse\<close>; no part of the program sets or reads that field.

  The lemmas show the round trip: what is encoded is what is decoded.
\<close>

record Message =
  km_Key :: string
  km_Value :: string
  km_Headers :: "(string \<times> string) list"
  km_Partition :: int
  km_Offset :: int

definition zero_event :: EventMessage where
  "zero_event = \<lparr>em_ID = [], em_Type = [], em_Source = [], em_Data = [], em_MaxAttempts = 0, em_Attempt = 0,
     em_LastError = [], em_NextAttemptAt = None, em_TraceID = []\<rparr>"

definition event_members :: "string \<Rightarrow> string list \<Rightarrow> EventMessage \<Rightarrow> (string \<times> string) list" where
  "event_members data next e =
     [(''id'', json_string (em_ID e)), (''type'', json_string (em_Type e)),
      (''source'', json_string (em_Source e)), (''data'', data)]
     @ (if em_MaxAttempts e = 0 then [] else [(''max_attempts'', FormatInt (em_MaxAttempts e))])
     @ (if em_Attempt e = 0 then [] else [(''attempt'', FormatInt (em_Attempt e))])
     @ (if em_LastError e = [] then [] else [(''last_error'', json_string (em_LastError e))])
     @ map (\<lambda>t. (''next_attempt_at'', t)) next"

definition marshal_event :: "(time \<Rightarrow> error + string) \<Rightarrow> EventMessage \<Rightarrow> error + string" where
  "marshal_event fmt e =
     (case marshal_raw (em_Data e) of
        Inl err \<Rightarrow> Inl err
      | Inr data \<Rightarrow>
          (case em_NextAttemptAt e of
             None \<Rightarrow> Inr (CHR ''{'' # member_texts (event_members data [] e))
           | Some t \<Rightarrow>
               (case fmt t of
                  Inl err \<Rightarrow> Inl err
                | Inr s \<Rightarrow> Inr (CHR ''{'' # member_texts (event_members data [s] e)))))"

definition put_event :: "(string \<Rightarrow> time option) \<Rightarrow> string \<Rightarrow> string \<Rightarrow> EventMessage \<Rightarrow> EventMessage option" where
  "put_event parse name raw e =
     (if name = ''id'' then map_option (\<lambda>x. e\<lparr>em_ID := x\<rparr>) (string_field raw (em_ID e))
      else if name = ''type'' then map_option (\<lambda>x. e\<lparr>em_Type := x\<rparr>) (string_field raw (em_Type e))
      else if name = ''source'' then map_option (\<lambda>x. e\<lparr>em_Source := x\<rparr>) (string_field raw (em_Source e))
      else if name = ''data'' then Some (e\<lparr>em_Data := raw\<rparr>)
      else if name = ''max_attempts'' then map_option (\<lambda>x. e\<lparr>em_MaxAttempts := x\<rparr>) (int_field raw (em_MaxAttempts e))
      else if name = ''attempt'' then map_option (\<lambda>x. e\<lparr>em_Attempt := x\<rparr>) (int_field raw (em_Attempt e))
      else if name = ''last_error'' then map_option (\<lambda>x. e\<lparr>em_LastError := x\<rparr>) (string_field raw (em_LastError e))
      else if name = ''next_attempt_at'' then
        (if is_null raw then Some (e\<lparr>em_NextAttemptAt := None\<rparr>)
         else map_option (\<lambda>x. e\<lparr>em_NextAttemptAt := Some x\<rparr>) (parse raw))
      else Some e)"

definition unmarshal_event :: "(string \<Rightarrow> time option) \<Rightarrow> string \<Rightarrow> EventMessage option" where
  "unmarshal_event parse msg = Unmarshal (put_event parse) msg zero_event"

subsection \<open>Decimal numbers\<close>

lemma nat_digits_ne: "nat_digits n \<noteq> []"
  by (subst nat_digits.simps) simp

lemma nat_digits_digit: "list_all is_digit (nat_digits n)"
  using set_nat_digits by (auto simp: list_all_iff is_digit_def)

lemma digit_value: "d < 10 \<Longrightarrow> int (byte (digit d)) - 48 = int d"
proof -
  have "\<forall>d \<in> set [0..<10]. int (byte (digit d)) - 48 = int d" by code_simp
  then show "d < 10 \<Longrightarrow> int (byte (digit d)) - 48 = int d" by auto
qed

lemma digits_value_snoc: "digits_value (s @ [c]) = 10 * digits_value s + (int (byte c) - 48)"
  by (simp add: digits_value_def)

lemma digits_value_nat_digits: "digits_value (nat_digits n) = int n"
proof (induction n rule: nat_digits.induct)
  case (1 n)
  show ?case
  proof (cases "n < 10")
    case True
    then show ?thesis using digit_value by (subst nat_digits.simps) (simp add: digits_value_def)
  next
    case False
    have "10 * int (n div 10) + int (n mod 10) = int n" using mult_div_mod_eq [of 10 n] by linarith
    with False 1 digit_value [of "n mod 10"] show ?thesis
      by (subst nat_digits.simps) (simp add: digits_value_snoc)
  qed
qed

lemma nat_digits_head: "0 < n \<Longrightarrow> hd (nat_digits n) \<noteq> CHR ''0''"
proof (induction n rule: nat_digits.induct)
  case (1 n)
  show ?case
  proof (cases "n < 10")
    case True
    moreover have "\<forall>d \<in> set [1..<10]. digit d \<noteq> CHR ''0''" by code_simp
    ultimately show ?thesis using 1(2) by (subst nat_digits.simps) auto
  next
    case False
    with 1 nat_digits_ne [of "n div 10"] show ?thesis by (subst nat_digits.simps) simp
  qed
qed

lemma int_text_nat_digits: "int_text (nat_digits n)"
proof (cases "n = 0")
  case True
  then show ?thesis by (subst nat_digits.simps) (simp add: int_text_def digit_def)
next
  case False
  then show ?thesis using nat_digits_head nat_digits_ne nat_digits_digit by (simp add: int_text_def)
qed

lemma number_text_FormatInt: "number_text (FormatInt i)"
proof -
  have "number_text (sg @ nat_digits n)" if "sg \<in> {[], ''-''}" for sg n
    using that int_text_nat_digits unfolding number_text_def frac_text_def exp_text_def by (metis append_Nil2)
  from this [of "''-''"] this [of "[]"] show ?thesis by (simp add: FormatInt_def)
qed

lemma FormatInt_tight: "tight_value (FormatInt i)"
  using number_text_head [OF number_text_FormatInt, of i] value_number [OF number_text_FormatInt, of i]
  by (auto simp: tight_value_def)

lemma ParseInt_FormatInt:
  assumes "- (2 ^ 63) \<le> i" "i < 2 ^ 63" shows "ParseInt (FormatInt i) = Some i"
proof -
  have h: "take 1 (nat_digits n) \<noteq> ''-''" "take 1 (nat_digits n) \<noteq> ''+''" for n
    using nat_digits_digit [of n] by (cases "nat_digits n"; auto)+
  show ?thesis
    using assms h nat_digits_ne nat_digits_digit
    by (cases "i < 0") (auto simp: ParseInt_def FormatInt_def Let_def digits_value_nat_digits)
qed

lemma int_field_FormatInt:
  assumes "- (2 ^ 63) \<le> i" "i < 2 ^ 63" shows "int_field (FormatInt i) old = Some i"
  using number_text_head [OF number_text_FormatInt, of i] ParseInt_FormatInt [OF assms]
  by (auto simp: int_field_def is_null_def is_digit_def)

subsection \<open>Round trip\<close>

definition int64 :: "int \<Rightarrow> bool" where
  "int64 i \<longleftrightarrow> - (2 ^ 63) \<le> i \<and> i < 2 ^ 63"

lemma member_names:
  "utf8_valid ''id''" "utf8_valid ''type''" "utf8_valid ''source''" "utf8_valid ''data''"
  "utf8_valid ''max_attempts''" "utf8_valid ''attempt''" "utf8_valid ''last_error''"
  "fold_name ''id'' = ''id''" "fold_name ''type'' = ''type''" "fold_name ''source'' = ''source''"
  "fold_name ''data'' = ''data''" "fold_name ''max_attempts'' = ''max_attempts''"
  "fold_name ''attempt'' = ''attempt''" "fold_name ''last_error'' = ''last_error''"
  by code_simp+

lemma event_members_tight:
  "marshal_raw d = Inr data \<Longrightarrow> \<forall>(k, v) \<in> set (event_members data [] e). utf8_valid k \<and> tight_value v"
  using marshal_raw_tight [of d data] json_string_tight FormatInt_tight
  by (simp add: event_members_def member_names del: utf8_valid.simps)

text \<open>What the producer publishes is what the consumer gets: decoding an encoded event gives
  the event back, with its data compacted and without the trace identifier, which travels in a
  header.\<close>

lemma event_roundtrip:
  assumes "marshal_event fmt e = Inr msg" and "em_NextAttemptAt e = None"
    and "utf8_valid (em_ID e)" "utf8_valid (em_Type e)" "utf8_valid (em_Source e)" "utf8_valid (em_LastError e)"
    and "int64 (em_MaxAttempts e)" "int64 (em_Attempt e)"
  shows "\<exists>data. marshal_raw (em_Data e) = Inr data
    \<and> unmarshal_event parse msg = Some (e\<lparr>em_Data := data, em_TraceID := []\<rparr>)"
proof -
  from assms(1) obtain data where data: "marshal_raw (em_Data e) = Inr data"
    by (cases "marshal_raw (em_Data e)") (simp_all add: marshal_event_def)
  have t: "msg = CHR ''{'' # member_texts (event_members data [] e)"
    using assms(1,2) data by (simp add: marshal_event_def)
  have "unmarshal_event parse msg =
      foldl (\<lambda>r (k, v). Option.bind r (put_event parse (fold_name k) v)) (Some zero_event) (event_members data [] e)"
    unfolding t unmarshal_event_def
    by (rule Unmarshal_object [OF event_members_tight [OF data]]) (simp add: event_members_def)
  also have "\<dots> = Some (e\<lparr>em_Data := data, em_TraceID := []\<rparr>)"
    using assms(2-) by (simp add: event_members_def put_event_def zero_event_def member_names
        json_string_decodes int_field_FormatInt int64_def del: utf8_valid.simps fold_name.simps)
  finally show ?thesis using data by blast
qed

end
