(* ===== verification/Producer.thy ===== *)
theory Producer
  imports Event_Codec Pg_World
begin

text \<open>
  \<^verbatim>\<open>internal/kafka/producer.go\<close>: publishing one event, a batch, and the load-test producer, which
  buffers messages and writes a thousand at a time.  The Kafka writer is an operation on a
  world \<open>'w\<close>; the load-test producer also reads the clock.  A write that reports an error may have
  reached the broker all the same, with any of its messages and any number of times.

  The lemmas show what is written on every branch, and that the buffering of the load-test
  producer changes nothing: cut into writes of a thousand, the messages written are those of
  an unbuffered producer.
\<close>

record 'w MessageWriter =
  mw_WriteMessages :: "Message list \<Rightarrow> 'w \<Rightarrow> error option \<times> 'w"
  mw_Format :: "time \<Rightarrow> error + string"

definition new_message :: "EventMessage \<Rightarrow> string \<Rightarrow> (string \<times> string) list \<Rightarrow> Message" where
  "new_message e val hdrs = \<lparr>km_Key = em_ID e, km_Value = val, km_Headers = hdrs, km_Partition = 0, km_Offset = 0\<rparr>"

definition trace_headers :: "string \<Rightarrow> (string \<times> string) list" where
  "trace_headers traceID = (if traceID = [] then [] else [(TraceIDHeader, traceID)])"

definition Publish :: "('w, 'm) MessageWriter_scheme \<Rightarrow> string \<Rightarrow> EventMessage \<Rightarrow> 'w \<Rightarrow> error option \<times> 'w" where
  "Publish p traceID e w =
     (case marshal_event (mw_Format p) e of
        Inl err \<Rightarrow> (Some (ErrWrap ''marshal event'' err), w)
      | Inr val \<Rightarrow>
          (case mw_WriteMessages p [new_message e val (trace_headers traceID)] w of
             (Some err, w) \<Rightarrow> (Some (ErrWrap ''write message'' err), w)
           | (None, w) \<Rightarrow> (None, w)))"

fun batch_messages :: "(time \<Rightarrow> error + string) \<Rightarrow> nat \<Rightarrow> EventMessage list \<Rightarrow> error + Message list" where
  "batch_messages fmt i [] = Inr []"
| "batch_messages fmt i (e # es) =
     (case marshal_event fmt e of
        Inl err \<Rightarrow> Inl (ErrWrap (''marshal event '' @ FormatInt (int i)) err)
      | Inr val \<Rightarrow>
          (case batch_messages fmt (Suc i) es of
             Inl err \<Rightarrow> Inl err
           | Inr ms \<Rightarrow> Inr (new_message e val [] # ms)))"

definition PublishBatch :: "('w, 'm) MessageWriter_scheme \<Rightarrow> EventMessage list \<Rightarrow> 'w \<Rightarrow> error option \<times> 'w" where
  "PublishBatch p es w =
     (case batch_messages (mw_Format p) 0 es of
        Inl err \<Rightarrow> (Some err, w)
      | Inr ms \<Rightarrow>
          (case mw_WriteMessages p ms w of
             (Some err, w) \<Rightarrow> (Some (ErrWrap ''write messages'' err), w)
           | (None, w) \<Rightarrow> (None, w)))"

subsection \<open>Load-test producer\<close>

text \<open>\<open>Time.UnixNano\<close>, for times that an \<open>int64\<close> of nanoseconds can hold.\<close>

definition UnixNano :: "time \<Rightarrow> int" where
  "UnixNano t = t - 62135596800000000000"

record 'w LoadTestProducer = "'w MessageWriter" +
  lt_Now :: "'w \<Rightarrow> time \<times> 'w"

definition loadtest_event :: "string \<Rightarrow> string \<Rightarrow> time \<Rightarrow> int \<Rightarrow> EventMessage" where
  "loadtest_event idPrefix eventType now i = zero_event
     \<lparr>em_ID := idPrefix @ FormatInt (UnixNano now) @ ''_'' @ FormatInt i, em_Type := eventType,
      em_Source := ''loadtest'',
      em_Data := ''{'' @ json_string ''test'' @ '': true, '' @ json_string ''index'' @ '': '' @ FormatInt i @ ''}'',
      em_MaxAttempts := 3\<rparr>"

text \<open>The loop of both producing methods over the indices that are left; \<open>typeOf\<close> gives the event
  type of an index, or nothing where computing it divides by zero.\<close>

fun produce_loop ::
  "('w, 'm) LoadTestProducer_scheme \<Rightarrow> string \<Rightarrow> (int \<Rightarrow> string option) \<Rightarrow> int list \<Rightarrow> Message list \<Rightarrow> 'w
     \<Rightarrow> (error + Message list) \<times> 'w" where
  "produce_loop p idPrefix typeOf [] messages w = (Inr messages, w)"
| "produce_loop p idPrefix typeOf (i # is) messages w =
     (case typeOf i of
        None \<Rightarrow> (Inl (ErrText ''runtime error: integer divide by zero''), w)
      | Some eventType \<Rightarrow>
          (let (now, w) = lt_Now p w; event = loadtest_event idPrefix eventType now i
           in case marshal_event (mw_Format p) event of
                Inl err \<Rightarrow> (Inl (ErrWrap (''marshal event '' @ FormatInt i) err), w)
              | Inr val \<Rightarrow>
                  (let messages = messages @ [new_message event val []]
                   in if 1000 \<le> length messages then
                        (case mw_WriteMessages p messages w of
                           (Some err, w) \<Rightarrow> (Inl (ErrWrap ''write batch'' err), w)
                         | (None, w) \<Rightarrow> produce_loop p idPrefix typeOf is [] w)
                      else produce_loop p idPrefix typeOf is messages w)))"

definition produce_rest :: "('w, 'm) LoadTestProducer_scheme \<Rightarrow> (error + Message list) \<times> 'w \<Rightarrow> error option \<times> 'w" where
  "produce_rest p r =
     (case r of
        (Inl err, w) \<Rightarrow> (Some err, w)
      | (Inr messages, w) \<Rightarrow>
          if messages = [] then (None, w)
          else
            (case mw_WriteMessages p messages w of
               (Some err, w) \<Rightarrow> (Some (ErrWrap ''write final batch'' err), w)
             | (None, w) \<Rightarrow> (None, w)))"

definition ProduceEvents :: "('w, 'm) LoadTestProducer_scheme \<Rightarrow> int \<Rightarrow> string \<Rightarrow> 'w \<Rightarrow> error option \<times> 'w" where
  "ProduceEvents p cnt eventType w =
     produce_rest p (produce_loop p ''evt_loadtest_'' (\<lambda>_. Some eventType) [0 .. cnt - 1] [] w)"

definition produceWithPrefix :: "('w, 'm) LoadTestProducer_scheme \<Rightarrow> int \<Rightarrow> int \<Rightarrow> string \<Rightarrow> 'w \<Rightarrow> error option \<times> 'w" where
  "produceWithPrefix p cnt numTypes typePrefix w =
     produce_rest p (produce_loop p ''evt_multi_''
       (\<lambda>i. if numTypes = 0 then None
            else Some (typePrefix @ ''.'' @ FormatInt (i smod numTypes + 1))) [0 .. cnt - 1] [] w)"

definition ProduceMultiTypeEvents :: "('w, 'm) LoadTestProducer_scheme \<Rightarrow> int \<Rightarrow> int \<Rightarrow> 'w \<Rightarrow> error option \<times> 'w" where
  "ProduceMultiTypeEvents p cnt numTypes = produceWithPrefix p cnt numTypes ''event.type''"

definition ProduceOnePerSubscription :: "('w, 'm) LoadTestProducer_scheme \<Rightarrow> int \<Rightarrow> string \<Rightarrow> 'w \<Rightarrow> error option \<times> 'w" where
  "ProduceOnePerSubscription p numSubs typePrefix = produceWithPrefix p numSubs numSubs typePrefix"

subsection \<open>What a writer promises\<close>

text \<open>\<open>written\<close> are the message sets that have reached Kafka, in their order: what an acknowledged write
  was given, and of a failed one messages it was given.\<close>

locale message_writer =
  fixes p :: "('w, 'm) LoadTestProducer_scheme" and written :: "'w \<Rightarrow> Message list list"
  assumes write_ok: "mw_WriteMessages p ms w = (None, w') \<Longrightarrow> written w' = written w @ [ms]"
    and write_err: "mw_WriteMessages p ms w = (Some err, w') \<Longrightarrow> \<exists>ps. written w' = written w @ ps \<and> set (concat ps) \<subseteq> set ms"
    and now_keeps: "written (snd (lt_Now p w)) = written w"
begin

lemma Publish_written:
  assumes "Publish p traceID e w = (r, w')"
  shows "r = None \<Longrightarrow> \<exists>val. marshal_event (mw_Format p) e = Inr val
      \<and> written w' = written w @ [[new_message e val (trace_headers traceID)]]"
    and "r \<noteq> None \<Longrightarrow> \<exists>ps. written w' = written w @ ps \<and> (concat ps \<noteq> [] \<longrightarrow>
      (\<exists>val. marshal_event (mw_Format p) e = Inr val \<and> set (concat ps) \<subseteq> {new_message e val (trace_headers traceID)}))"
proof -
  show "r = None \<Longrightarrow> \<exists>val. marshal_event (mw_Format p) e = Inr val
      \<and> written w' = written w @ [[new_message e val (trace_headers traceID)]]"
    using assms write_ok by (auto simp: Publish_def split: sum.splits prod.splits option.splits)
  assume "r \<noteq> None"
  show "\<exists>ps. written w' = written w @ ps \<and> (concat ps \<noteq> [] \<longrightarrow>
      (\<exists>val. marshal_event (mw_Format p) e = Inr val \<and> set (concat ps) \<subseteq> {new_message e val (trace_headers traceID)}))"
  proof (cases "marshal_event (mw_Format p) e")
    case (Inl err)
    with assms show ?thesis by (intro exI [of _ "[]"]) (simp add: Publish_def)
  next
    case (Inr val)
    with assms \<open>r \<noteq> None\<close> obtain err where
      "mw_WriteMessages p [new_message e val (trace_headers traceID)] w = (Some err, w')"
      by (auto simp: Publish_def split: prod.splits option.splits)
    from write_err [OF this] Inr show ?thesis by auto
  qed
qed

definition produced :: "string \<Rightarrow> (int \<Rightarrow> string option) \<Rightarrow> int \<Rightarrow> Message \<Rightarrow> bool" where
  "produced idPrefix typeOf i m \<longleftrightarrow>
     (\<exists>et now val. typeOf i = Some et \<and> marshal_event (mw_Format p) (loadtest_event idPrefix et now i) = Inr val
        \<and> m = new_message (loadtest_event idPrefix et now i) val [])"

lemma produce_loop_written:
  assumes "produce_loop p idPrefix typeOf is messages w = (Inr rest, w')" "length messages < 1000"
  shows "\<exists>ms ws. written w' = written w @ ws \<and> concat ws @ rest = messages @ ms
    \<and> list_all2 (produced idPrefix typeOf) is ms \<and> length rest < 1000 \<and> list_all (\<lambda>b. length b = 1000) ws"
  using assms
proof (induction "is" arbitrary: messages w)
  case Nil
  then show ?case by (intro exI [of _ "[]"]) simp
next
  case (Cons i "is")
  obtain now w1 where now: "lt_Now p w = (now, w1)" by fastforce
  then have w1: "written w1 = written w" using now_keeps [of w] by simp
  from Cons.prems now obtain et val where et: "typeOf i = Some et"
    and val: "marshal_event (mw_Format p) (loadtest_event idPrefix et now i) = Inr val"
    by (auto simp: Let_def split: option.splits sum.splits)
  let ?m = "new_message (loadtest_event idPrefix et now i) val []"
  have m: "produced idPrefix typeOf i ?m" unfolding produced_def using et val by blast
  show ?case
  proof (cases "1000 \<le> Suc (length messages)")
    case True
    with Cons.prems now et val obtain w2 where wr: "mw_WriteMessages p (messages @ [?m]) w1 = (None, w2)"
      and rest: "produce_loop p idPrefix typeOf is [] w2 = (Inr rest, w')"
      by (auto split: prod.splits option.splits)
    from Cons.IH [OF rest] obtain ms ws where IH: "written w' = written w2 @ ws" "concat ws @ rest = ms"
      "list_all2 (produced idPrefix typeOf) is ms" "length rest < 1000" "list_all (\<lambda>b. length b = 1000) ws" by auto
    from True Cons.prems(2) have "length (messages @ [?m]) = 1000" by simp
    with IH m write_ok [OF wr] w1 show ?thesis
      by (intro exI [of _ "?m # ms"] exI [of _ "(messages @ [?m]) # ws"]) simp
  next
    case False
    with Cons.prems now et val have "produce_loop p idPrefix typeOf is (messages @ [?m]) w1 = (Inr rest, w')" by simp
    from Cons.IH [OF this] False obtain ms ws where IH: "written w' = written w1 @ ws" "concat ws @ rest = (messages @ [?m]) @ ms"
      "list_all2 (produced idPrefix typeOf) is ms" "length rest < 1000" "list_all (\<lambda>b. length b = 1000) ws" by auto
    with m w1 show ?thesis by (intro exI [of _ "?m # ms"] exI [of _ ws]) simp
  qed
qed

lemma produce_written:
  assumes "produce_rest p (produce_loop p idPrefix typeOf is [] w) = (None, w')"
  shows "\<exists>ms ws. written w' = written w @ ws \<and> concat ws = ms
    \<and> list_all2 (produced idPrefix typeOf) is ms \<and> list_all (\<lambda>b. b \<noteq> [] \<and> length b \<le> 1000) ws"
proof -
  from assms obtain rest w1 where loop: "produce_loop p idPrefix typeOf is [] w = (Inr rest, w1)"
    and fin: "rest = [] \<and> w' = w1 \<or> rest \<noteq> [] \<and> mw_WriteMessages p rest w1 = (None, w')"
    by (auto simp: produce_rest_def split: sum.splits prod.splits option.splits if_splits)
  from produce_loop_written [OF loop] obtain ms ws where l: "written w1 = written w @ ws" "concat ws @ rest = ms"
    "list_all2 (produced idPrefix typeOf) is ms" "length rest < 1000" "list_all (\<lambda>b. length b = 1000) ws" by auto
  have ws: "list_all (\<lambda>b. b \<noteq> [] \<and> length b \<le> 1000) ws" using l(5) by (fastforce simp: list_all_iff)
  from fin show ?thesis
  proof (elim disjE conjE)
    assume "rest \<noteq> []" "mw_WriteMessages p rest w1 = (None, w')"
    with l ws write_ok show ?thesis by (intro exI [of _ ms] exI [of _ "ws @ [rest]"]) simp
  qed (use l ws in auto)
qed

end

subsection \<open>The writer of the API and of the load test\<close>

text \<open>The world of a process that publishes: the repositories' world, the messages that have reached
  Kafka, arbitrary sequences for the outcomes of writes, for the positions of the messages that
  a failed write has delivered nevertheless, and for the clock, and the API's counter.\<close>

record api_world = pg_world +
  aw_written :: "Message list list"
  aw_outcome :: "nat \<Rightarrow> error option"
  aw_kept :: "nat \<Rightarrow> nat list"
  aw_writes :: nat
  aw_clock :: "nat \<Rightarrow> time"
  aw_clocks :: nat
  aw_received :: nat

definition aw_WriteMessages :: "Message list \<Rightarrow> api_world \<Rightarrow> error option \<times> api_world" where
  "aw_WriteMessages ms w =
     (let w' = w\<lparr>aw_writes := Suc (aw_writes w)\<rparr>
      in case aw_outcome w (aw_writes w) of
           Some err \<Rightarrow>
             (let kept = map (\<lambda>i. ms ! i) (filter (\<lambda>i. i < length ms) (aw_kept w (aw_writes w)))
              in (Some err, if kept = [] then w' else w'\<lparr>aw_written := aw_written w @ [kept]\<rparr>))
         | None \<Rightarrow> (None, w'\<lparr>aw_written := aw_written w @ [ms]\<rparr>))"

definition aw_Now :: "api_world \<Rightarrow> time \<times> api_world" where
  "aw_Now w = (aw_clock w (aw_clocks w), w\<lparr>aw_clocks := Suc (aw_clocks w)\<rparr>)"

definition kafka_writer :: "(time \<Rightarrow> error + string) \<Rightarrow> api_world LoadTestProducer" where
  "kafka_writer fmt = \<lparr>mw_WriteMessages = aw_WriteMessages, mw_Format = fmt, lt_Now = aw_Now\<rparr>"

lemma kafka_writer_simps [simp]:
  "mw_WriteMessages (kafka_writer fmt) = aw_WriteMessages" "mw_Format (kafka_writer fmt) = fmt"
  "lt_Now (kafka_writer fmt) = aw_Now"
  by (simp_all add: kafka_writer_def)

interpretation kafka: message_writer "kafka_writer fmt" aw_written
proof
  fix ms and w w' :: api_world and err :: error
  assume "mw_WriteMessages (kafka_writer fmt) ms w = (Some err, w')"
  then show "\<exists>ps. aw_written w' = aw_written w @ ps \<and> set (concat ps) \<subseteq> set ms"
    by (auto simp: aw_WriteMessages_def Let_def split: option.splits if_splits
        intro: exI [of _ "[map (\<lambda>i. ms ! i) (filter (\<lambda>i. i < length ms) (aw_kept w (aw_writes w)))]"])
qed (auto simp: aw_WriteMessages_def aw_Now_def Let_def split: option.splits)

definition sample_api :: "db \<Rightarrow> api_world" where
  "sample_api s = pg_world.extend (sample_world s)
     \<lparr>aw_written = [], aw_outcome = (\<lambda>_. None), aw_kept = (\<lambda>_. []), aw_writes = 0, aw_clock = (\<lambda>n. 7000 + int n), aw_clocks = 0,
      aw_received = 0\<rparr>"

text \<open>The load-test producer buffers without loss: when it succeeds, the writes it has made, none
  empty and none longer than a thousand, put together are one message for each index, in the
  order of the indices, with the types in turn.\<close>

lemma produce_is_complete:
  assumes "produceWithPrefix (kafka_writer fmt) cnt numTypes typePrefix w = (None, w')"
  shows "\<exists>ws. aw_written w' = aw_written w @ ws \<and> list_all (\<lambda>b. b \<noteq> [] \<and> length b \<le> 1000) ws
    \<and> list_all2 (\<lambda>i m. \<exists>now val. let e = loadtest_event ''evt_multi_''
            (typePrefix @ ''.'' @ FormatInt (i smod numTypes + 1)) now i
          in marshal_event fmt e = Inr val \<and> m = new_message e val []) [0 .. cnt - 1] (concat ws)"
proof -
  from kafka.produce_written [OF assms [unfolded produceWithPrefix_def]]
  obtain ws where ws: "aw_written w' = aw_written w @ ws" "list_all (\<lambda>b. b \<noteq> [] \<and> length b \<le> 1000) ws"
    "list_all2 (kafka.produced fmt ''evt_multi_'' (\<lambda>i. if numTypes = 0 then None
            else Some (typePrefix @ ''.'' @ FormatInt (i smod numTypes + 1)))) [0 .. cnt - 1] (concat ws)" by blast
  from ws(3) have "list_all2 (\<lambda>i m. \<exists>now val. let e = loadtest_event ''evt_multi_''
            (typePrefix @ ''.'' @ FormatInt (i smod numTypes + 1)) now i
          in marshal_event fmt e = Inr val \<and> m = new_message e val []) [0 .. cnt - 1] (concat ws)"
    by (rule list_all2_mono) (auto simp: kafka.produced_def Let_def split: if_splits)
  with ws show ?thesis by blast
qed

lemma loadtest_marshals:
  assumes "json_valid (em_Data (loadtest_event pre et now i))"
  shows "\<exists>val. marshal_event fmt (loadtest_event pre et now i) = Inr val"
  using assms by (auto simp: marshal_event_def marshal_raw_def loadtest_event_def zero_event_def)

end
