(* ===== verification/Consumer.thy ===== *)
theory Consumer
  imports Producer Delivery_Runtime
begin

text \<open>
  \<^verbatim>\<open>internal/kafka/consumer.go\<close>: collecting a batch from Kafka, processing it and committing its
  offsets.

  What the loop meets from outside is a list: for every turn of the collecting loop a \<open>poll\<close>
  (the clock, the stop signals, what a fetch with the given timeout returns), for every turn
  of the consuming loop a \<open>round\<close>.  A collection that is not over when its polls are used up
  is still running, which is the value \<open>None\<close>.  The reader's commit and the handler are
  operations on a world \<open>'w\<close>, and \<open>c_ParseTime\<close> is the text of a time (see \<^verbatim>\<open>Event_Codec\<close>).

  The locale \<open>event_handler\<close> is the consumer's contract with its handler and its reader; it is
  interpreted on the delivery handler over PostgreSQL.  The lemmas show that a collection
  ends, that batch and events agree, and what every commit request rests on.
\<close>

record 'w Consumer =
  c_BatchTimeout :: Duration
  c_ProcessBatch :: "EventMessage list \<Rightarrow> 'w \<Rightarrow> (error + categorized) \<times> 'w"
  c_CommitMessages :: "Message list \<Rightarrow> 'w \<Rightarrow> error option \<times> 'w"
  c_ParseTime :: "string \<Rightarrow> time option"

record poll =
  po_now :: time
  po_ctxDone :: bool
  po_shutdown :: bool
  po_until :: time
  po_Fetch :: "Duration \<Rightarrow> error + Message"

record round =
  rd_ctxDone :: bool
  rd_shutdown :: bool
  rd_now :: time
  rd_polls :: "poll list"

definition commitMessages :: "'w Consumer \<Rightarrow> Message list \<Rightarrow> 'w \<Rightarrow> error option \<times> 'w" where
  "commitMessages c messages w = (if length messages = 0 then (None, w) else c_CommitMessages c messages w)"

text \<open>The first header with the trace key sets the trace identifier.\<close>

definition with_trace :: "Message \<Rightarrow> EventMessage \<Rightarrow> EventMessage" where
  "with_trace msg event =
     (case find (\<lambda>h. fst h = TraceIDHeader) (km_Headers msg) of
        Some h \<Rightarrow> event\<lparr>em_TraceID := snd h\<rparr>
      | None \<Rightarrow> event)"

definition decode_message :: "(string \<Rightarrow> time option) \<Rightarrow> Message \<Rightarrow> EventMessage option" where
  "decode_message parse msg = map_option (with_trace msg) (unmarshal_event parse (km_Value msg))"

text \<open>One turn of the collecting loop: it stops, has nothing to add, meets a message that cannot be
  decoded, or adds one.  Timeouts and other errors of a fetch differ only in what is logged.\<close>

datatype turn = TurnStop | TurnNothing | TurnBad Message | TurnEvent Message EventMessage

definition collect_turn :: "'w Consumer \<Rightarrow> time \<Rightarrow> poll \<Rightarrow> turn" where
  "collect_turn c deadline p =
     (if \<not> po_now p < deadline then TurnStop
      else if po_ctxDone p then TurnStop
      else if po_shutdown p then TurnStop
      else
        (let remaining = deadline - po_until p
         in if remaining \<le> 0 then TurnStop
            else
              (let remaining = (if remaining > 10 * Millisecond then 10 * Millisecond else remaining)
               in case po_Fetch p remaining of
                    Inl err \<Rightarrow> TurnNothing
                  | Inr msg \<Rightarrow>
                      (case decode_message (c_ParseTime c) msg of
                         None \<Rightarrow> TurnBad msg
                       | Some event \<Rightarrow> TurnEvent msg event))))"

fun collect_loop ::
  "'w Consumer \<Rightarrow> time \<Rightarrow> poll list \<Rightarrow> Message list \<Rightarrow> EventMessage list \<Rightarrow> 'w
     \<Rightarrow> (Message list \<times> EventMessage list) option \<times> 'w" where
  "collect_loop c deadline [] batch es w = (None, w)"
| "collect_loop c deadline (p # ps) batch es w =
     (case collect_turn c deadline p of
        TurnStop \<Rightarrow> (Some (batch, es), w)
      | TurnNothing \<Rightarrow> collect_loop c deadline ps batch es w
      | TurnBad msg \<Rightarrow>
          (let (_, w) = commitMessages c [msg] w in collect_loop c deadline ps batch es w)
      | TurnEvent msg event \<Rightarrow> collect_loop c deadline ps (batch @ [msg]) (es @ [event]) w)"

definition collectBatch ::
  "'w Consumer \<Rightarrow> time \<Rightarrow> poll list \<Rightarrow> 'w \<Rightarrow> (Message list \<times> EventMessage list) option \<times> 'w" where
  "collectBatch c now polls w = collect_loop c (now + c_BatchTimeout c) polls [] [] w"

definition processBatchAndCommit :: "'w Consumer \<Rightarrow> Message list \<Rightarrow> EventMessage list \<Rightarrow> 'w \<Rightarrow> 'w" where
  "processBatchAndCommit c messages es w =
     (if length es = 0 then w
      else
        (case c_ProcessBatch c es w of
           (Inl err, w) \<Rightarrow> w
         | (Inr _, w) \<Rightarrow> snd (commitMessages c messages w)))"

text \<open>The flag says whether the loop has returned.\<close>

fun consumeLoop :: "'w Consumer \<Rightarrow> round list \<Rightarrow> 'w \<Rightarrow> bool \<times> 'w" where
  "consumeLoop c [] w = (False, w)"
| "consumeLoop c (r # rs) w =
     (if rd_ctxDone r then (True, w)
      else if rd_shutdown r then (True, w)
      else
        (case collectBatch c (rd_now r) (rd_polls r) w of
           (None, w) \<Rightarrow> (False, w)
         | (Some (batch, es), w) \<Rightarrow>
             consumeLoop c rs (if length batch > 0 then processBatchAndCommit c batch es w else w)))"

subsection \<open>Collecting\<close>

text \<open>Batch and events go together.\<close>

lemma collect_turn_decodes:
  "collect_turn c deadline p = TurnBad m \<Longrightarrow> decode_message (c_ParseTime c) m = None"
  "collect_turn c deadline p = TurnEvent m e \<Longrightarrow> decode_message (c_ParseTime c) m = Some e"
  by (auto simp: collect_turn_def Let_def split: if_splits sum.splits option.splits)

lemma collect_loop_decodes:
  assumes "collect_loop c deadline ps batch es w = (Some (batch', es'), w')"
    and "list_all2 (\<lambda>m e. decode_message (c_ParseTime c) m = Some e) batch es"
  shows "list_all2 (\<lambda>m e. decode_message (c_ParseTime c) m = Some e) batch' es'"
  using assms
proof (induction ps arbitrary: batch es w)
  case (Cons p ps)
  show ?case
  proof (cases "collect_turn c deadline p")
    case (TurnEvent m e)
    with Cons collect_turn_decodes(2) [OF TurnEvent] show ?thesis by (simp add: list_all2_appendI)
  qed (use Cons in \<open>auto split: prod.splits\<close>)
qed simp

text \<open>A collection ends with the first poll at which the clock has reached the deadline.\<close>

lemma collect_loop_ends:
  assumes "p \<in> set ps" "deadline \<le> po_now p"
  shows "\<exists>b w'. collect_loop c deadline ps batch es w = (Some b, w')"
  using assms(1)
proof (induction ps arbitrary: batch es w)
  case (Cons q ps)
  have "collect_turn c deadline p = TurnStop" using assms(2) by (simp add: collect_turn_def)
  with Cons show ?case by (cases "q = p") (auto split: turn.split prod.split)
qed simp

subsection \<open>The contract with the handler and the reader\<close>

text \<open>\<open>log\<close> are the commit requests made, each with the identifiers of the events that had a row
  when it was made.\<close>

locale event_handler =
  fixes c :: "'w Consumer" and ok :: "'w \<Rightarrow> bool" and has_event :: "string \<Rightarrow> 'w \<Rightarrow> bool"
    and commit_log :: "'w \<Rightarrow> (Message list \<times> string set) list"
  assumes process_ok: "ok w \<Longrightarrow> c_ProcessBatch c es w = (r, w') \<Longrightarrow> ok w'"
    and process_log: "c_ProcessBatch c es w = (r, w') \<Longrightarrow> commit_log w' = commit_log w"
    and process_durable: "ok w \<Longrightarrow> c_ProcessBatch c es w = (Inr cat, w') \<Longrightarrow> e \<in> set es \<Longrightarrow> has_event (em_ID e) w'"
    and commit_ok: "ok w \<Longrightarrow> c_CommitMessages c ms w = (r', w') \<Longrightarrow> ok w'"
    and commit_logged: "c_CommitMessages c ms w = (r', w') \<Longrightarrow>
      commit_log w' = commit_log w @ [(ms, {i. has_event i w})]"
begin

text \<open>What a commit request may rest on: every message in it is undecodable or stored.\<close>

definition justified :: "Message list \<times> string set \<Rightarrow> bool" where
  "justified r \<longleftrightarrow> (\<forall>m \<in> set (fst r). case decode_message (c_ParseTime c) m of
     None \<Rightarrow> True | Some e \<Rightarrow> em_ID e \<in> snd r)"

definition good :: "'w \<Rightarrow> bool" where
  "good w \<longleftrightarrow> ok w \<and> list_all justified (commit_log w)"

lemma commit_good:
  assumes "good w" "justified (ms, {i. has_event i w})" "commitMessages c ms w = (r, w')"
  shows "good w'"
  using assms commit_ok [of w ms r w'] commit_logged [of ms w r w']
  by (auto simp: good_def commitMessages_def split: if_splits)

lemma collect_good: "good w \<Longrightarrow> collect_loop c deadline ps batch es w = (r, w') \<Longrightarrow> good w'"
proof (induction ps arbitrary: batch es w)
  case (Cons p ps)
  show ?case
  proof (cases "collect_turn c deadline p")
    case (TurnBad m)
    obtain x w1 where w1: "commitMessages c [m] w = (x, w1)" by fastforce
    then have "good w1"
      using commit_good [OF Cons.prems(1) _ w1] collect_turn_decodes(1) [OF TurnBad] by (simp add: justified_def)
    with Cons TurnBad w1 show ?thesis by simp
  qed (use Cons in auto)
qed simp

lemma process_good:
  assumes "good w" "list_all2 (\<lambda>m e. decode_message (c_ParseTime c) m = Some e) ms es"
  shows "good (processBatchAndCommit c ms es w)"
proof -
  obtain r w1 where p: "c_ProcessBatch c es w = (r, w1)" by fastforce
  have w1: "good w1" using assms(1) process_ok [OF _ p] process_log [OF p] by (simp add: good_def)
  show ?thesis
  proof (cases r)
    case (Inr cat)
    have "\<exists>e \<in> set es. decode_message (c_ParseTime c) m = Some e" if "m \<in> set ms" for m
      using assms(2) that by (auto simp: list_all2_conv_all_nth in_set_conv_nth)
    then have "justified (ms, {i. has_event i w1})"
      using process_durable [OF _ p [unfolded Inr]] assms(1) by (fastforce simp: justified_def good_def)
    from commit_good [OF w1 this prod.collapse [symmetric]] p Inr assms(1) show ?thesis
      by (simp add: processBatchAndCommit_def)
  qed (use p w1 assms(1) in \<open>simp add: processBatchAndCommit_def\<close>)
qed

lemma consume_good: "good w \<Longrightarrow> consumeLoop c rs w = (b, w') \<Longrightarrow> good w'"
proof (induction rs arbitrary: w)
  case (Cons r rs)
  obtain x w1 where col: "collectBatch c (rd_now r) (rd_polls r) w = (x, w1)" by fastforce
  then have w1: "good w1" using Cons.prems(1) collect_good unfolding collectBatch_def by blast
  show ?case
  proof (cases x)
    case (Some y)
    obtain batch es where y: "y = (batch, es)" by fastforce
    have "list_all2 (\<lambda>m e. decode_message (c_ParseTime c) m = Some e) batch es"
      using collect_loop_decodes [of c _ "rd_polls r" "[]" "[]" w batch es w1] col Some y by (simp add: collectBatch_def)
    with Cons col w1 Some y process_good show ?thesis by (auto split: if_splits)
  qed (use Cons col w1 in \<open>auto split: if_splits\<close>)
qed simp

end

subsection \<open>The consumer of the worker\<close>

text \<open>The worker's world and the commit requests of its consumer; the outcomes of the requests are
  arbitrary.\<close>

record consumer_world =
  cw_worker :: worker_world
  cw_commits :: "(Message list \<times> string set) list"
  cw_outcome :: "nat \<Rightarrow> error option"

definition cw_ProcessBatch ::
  "worker_config \<Rightarrow> EventMessage list \<Rightarrow> consumer_world \<Rightarrow> (error + categorized) \<times> consumer_world" where
  "cw_ProcessBatch cfg es w =
     (let (r, ww) = ProcessBatch (worker_handler cfg) [] es (cw_worker w) in (r, w\<lparr>cw_worker := ww\<rparr>))"

definition cw_CommitMessages :: "Message list \<Rightarrow> consumer_world \<Rightarrow> error option \<times> consumer_world" where
  "cw_CommitMessages ms w =
     (cw_outcome w (length (cw_commits w)),
      w\<lparr>cw_commits := cw_commits w @ [(ms, event_ids (pw_db (cw_worker w)))]\<rparr>)"

definition worker_consumer ::
  "Duration \<Rightarrow> (string \<Rightarrow> time option) \<Rightarrow> worker_config \<Rightarrow> consumer_world Consumer" where
  "worker_consumer timeout parse cfg = \<lparr>c_BatchTimeout = timeout, c_ProcessBatch = cw_ProcessBatch cfg,
     c_CommitMessages = cw_CommitMessages, c_ParseTime = parse\<rparr>"

lemma worker_consumer_simps [simp]:
  "c_BatchTimeout (worker_consumer d parse cfg) = d" "c_ProcessBatch (worker_consumer d parse cfg) = cw_ProcessBatch cfg"
  "c_CommitMessages (worker_consumer d parse cfg) = cw_CommitMessages" "c_ParseTime (worker_consumer d parse cfg) = parse"
  by (simp_all add: worker_consumer_def)

interpretation consumer: event_handler "worker_consumer d parse cfg" "\<lambda>w. pw_ok (cw_worker w)"
  "\<lambda>i w. pw_has_event i (cw_worker w)" cw_commits
proof
  show "pw_ok (cw_worker w')" if "pw_ok (cw_worker w)" "c_ProcessBatch (worker_consumer d parse cfg) es w = (r, w')" for w es r w'
    using that worker.ProcessBatch_pres
    by (fastforce simp: cw_ProcessBatch_def ww_pres_def split: prod.splits)
  show "pw_has_event (em_ID e) (cw_worker w')"
    if "pw_ok (cw_worker w)" "c_ProcessBatch (worker_consumer d parse cfg) es w = (Inr cat, w')" "e \<in> set es" for w es cat w' e
    using that worker.ProcessBatch_durable
    by (fastforce simp: cw_ProcessBatch_def split: prod.splits)
qed (auto simp: cw_ProcessBatch_def cw_CommitMessages_def pw_has_event_def split: prod.splits)

subsection \<open>Properties\<close>

text \<open>C28 Every message of every commit request, over a whole run of the consumer with any environment,
  is either no event at all or an event that already had its row in the database when the request
  was made.\<close>

theorem commits_rest_on_storage:
  assumes "pw_ok (cw_worker w)" "cw_commits w = []"
    and "consumeLoop (worker_consumer d parse cfg) rs w = (returned, w')"
    and "(ms, stored) \<in> set (cw_commits w')" "m \<in> set ms"
  shows "decode_message parse m = None \<or> (\<exists>e. decode_message parse m = Some e \<and> em_ID e \<in> stored)"
proof -
  have "consumer.good d parse cfg w" using assms(1,2) by (simp add: consumer.good_def)
  from consumer.consume_good [OF this assms(3)] have "consumer.justified d parse cfg (ms, stored)"
    using assms(4) by (auto simp: consumer.good_def list_all_iff)
  with assms(5) show ?thesis by (auto simp: consumer.justified_def split: option.splits)
qed

text \<open>Publishing and consuming agree: a consumer that reads the message of an event gets the event
  with its trace identifier and its data compacted.\<close>

lemma message_is_consumed:
  assumes "marshal_event fmt e = Inr val" and "em_NextAttemptAt e = None"
    and "utf8_valid (em_ID e)" "utf8_valid (em_Type e)" "utf8_valid (em_Source e)" "utf8_valid (em_LastError e)"
    and "int64 (em_MaxAttempts e)" "int64 (em_Attempt e)"
  shows "\<exists>data. marshal_raw (em_Data e) = Inr data
    \<and> decode_message parse (new_message e val (trace_headers traceID)) = Some (e\<lparr>em_Data := data, em_TraceID := traceID\<rparr>)"
proof -
  obtain data where "marshal_raw (em_Data e) = Inr data"
    "unmarshal_event parse val = Some (e\<lparr>em_Data := data, em_TraceID := []\<rparr>)"
    using event_roundtrip [OF assms] by blast
  then show ?thesis by (simp add: decode_message_def with_trace_def new_message_def trace_headers_def)
qed

text \<open>C29 Collecting a batch ends when the clock reaches the deadline, with messages and decoded
  events side by side.\<close>

theorem collect_terminates:
  assumes "p \<in> set polls" "now + c_BatchTimeout c \<le> po_now p"
  shows "\<exists>batch es w'. collectBatch c now polls w = (Some (batch, es), w')
     \<and> list_all2 (\<lambda>m e. decode_message (c_ParseTime c) m = Some e) batch es"
proof -
  from collect_loop_ends [OF assms, of c "[]" "[]" w] obtain b w' where b: "collect_loop c (now + c_BatchTimeout c) polls [] [] w = (Some b, w')"
    by blast
  then show ?thesis using collect_loop_decodes [of c _ polls "[]" "[]" w "fst b" "snd b" w']
    unfolding collectBatch_def by (cases b) simp
qed

subsection \<open>Sample runs\<close>

text \<open>A record of partition 0 that carries an event, a turn that fetches it, a turn at the deadline.\<close>

definition sample_record :: "int \<Rightarrow> EventMessage \<Rightarrow> Message" where
  "sample_record n e = \<lparr>km_Key = em_ID e, km_Value = CHR ''{'' # member_texts (event_members (em_Data e) [] e),
     km_Headers = [], km_Partition = 0, km_Offset = n\<rparr>"

definition sample_poll :: "Message \<Rightarrow> poll" where
  "sample_poll m = \<lparr>po_now = 0, po_ctxDone = False, po_shutdown = False, po_until = 0, po_Fetch = (\<lambda>_. Inr m)\<rparr>"

definition sample_end :: poll where
  "sample_end = \<lparr>po_now = 100 * Millisecond, po_ctxDone = False, po_shutdown = False, po_until = 0,
     po_Fetch = (\<lambda>_. Inl (ErrText ''timeout''))\<rparr>"

definition sample_round :: "Message \<Rightarrow> round" where
  "sample_round m = \<lparr>rd_ctxDone = False, rd_shutdown = False, rd_now = 0, rd_polls = [sample_poll m, sample_end]\<rparr>"

definition sample_consumer :: "worker_world \<Rightarrow> consumer_world" where
  "sample_consumer w = \<lparr>cw_worker = w, cw_commits = [], cw_outcome = (\<lambda>_. None)\<rparr>"

abbreviation sample_loop :: "round list \<Rightarrow> consumer_world \<Rightarrow> bool \<times> consumer_world" where
  "sample_loop \<equiv> consumeLoop (worker_consumer (100 * Millisecond) (\<lambda>_. None) (sample_config True))"

lemma sample_record_decodes:
  assumes "utf8_valid i"
  shows "decode_message parse (sample_record n (sample_message\<lparr>em_ID := i\<rparr>)) = Some (sample_message\<lparr>em_ID := i\<rparr>)"
proof -
  let ?e = "sample_message\<lparr>em_ID := i\<rparr>"
  have raw: "marshal_raw ''{}'' = Inr ''{}''" and utf8: "utf8_valid ''user.created''" "utf8_valid ''crm''"
    by code_simp+
  have m: "marshal_event (\<lambda>_. Inr []) ?e = Inr (km_Value (sample_record n ?e))"
    using raw by (simp add: marshal_event_def sample_message_def sample_record_def)
  have "\<exists>data. marshal_raw (em_Data ?e) = Inr data \<and> unmarshal_event parse (km_Value (sample_record n ?e))
      = Some (?e\<lparr>em_Data := data, em_TraceID := []\<rparr>)"
    by (rule event_roundtrip [OF m]) (simp_all add: sample_message_def assms utf8 int64_def del: utf8_valid.simps(2))
  then show ?thesis using raw by (simp add: decode_message_def with_trace_def sample_record_def sample_message_def)
qed

lemma sample_message_id: "sample_message\<lparr>em_ID := ''evt_2''\<rparr> = sample_message" "utf8_valid ''evt_2''"
proof -
  show "utf8_valid ''evt_2''" by code_simp
qed (simp add: sample_message_def)

lemma sample_collect:
  assumes "utf8_valid i"
  shows "collectBatch (worker_consumer (100 * Millisecond) (\<lambda>_. None) cfg) 0
       [sample_poll (sample_record n (sample_message\<lparr>em_ID := i\<rparr>)), sample_end] w
     = (Some ([sample_record n (sample_message\<lparr>em_ID := i\<rparr>)], [sample_message\<lparr>em_ID := i\<rparr>]), w)"
  by (simp add: collectBatch_def collect_turn_def sample_poll_def sample_end_def sample_record_decodes [OF assms])

lemma sample_round_step:
  assumes "utf8_valid i"
  shows "sample_loop (sample_round (sample_record n (sample_message\<lparr>em_ID := i\<rparr>)) # rs) w =
     sample_loop rs (case cw_ProcessBatch (sample_config True) [sample_message\<lparr>em_ID := i\<rparr>] w of
        (Inl err, w) \<Rightarrow> w
      | (Inr cat, w) \<Rightarrow> snd (cw_CommitMessages [sample_record n (sample_message\<lparr>em_ID := i\<rparr>)] w))"
  using sample_collect [OF assms, simplified]
  by (simp add: sample_round_def processBatchAndCommit_def commitMessages_def split: prod.split sum.split)

abbreviation sample_idle :: worker_world where
  "sample_idle \<equiv> sample_worker (sample_db [sample_row]) (Inl (ErrText ''timeout'')) \<lparr>Allowed = True, RetryAfter = 0\<rparr>"

theorem commits_rest_on_storage_witness:
  "\<exists>w' stored. sample_loop [sample_round (sample_record 0 sample_message)] (sample_consumer sample_idle) = (False, w')
     \<and> cw_commits w' = [([sample_record 0 sample_message], stored)] \<and> ''evt_2'' \<in> stored"
proof -
  obtain cat ww where b: "ProcessBatch (worker_handler (sample_config True)) [] [sample_message] sample_idle = (Inr cat, ww)"
    using sample_unmatched by blast
  obtain w' stored where run: "sample_loop [sample_round (sample_record 0 sample_message)] (sample_consumer sample_idle) = (False, w')"
    "cw_commits w' = [([sample_record 0 sample_message], stored)]"
    using b sample_round_step [OF sample_message_id(2), of 0 "[]" "sample_consumer sample_idle"]
    by (simp add: sample_message_id cw_ProcessBatch_def cw_CommitMessages_def sample_consumer_def)
  have "\<exists>e. decode_message (\<lambda>_. None) (sample_record 0 sample_message) = Some e \<and> em_ID e \<in> stored"
    using commits_rest_on_storage [OF _ _ run(1), of "[sample_record 0 sample_message]" stored] run(2)
      sample_record_decodes [OF sample_message_id(2)] sample_worker_ok [OF sample_db_ok(1)]
    by (simp add: sample_consumer_def sample_message_id)
  with run show ?thesis using sample_record_decodes [OF sample_message_id(2)]
    by (auto simp: sample_message_id) (simp add: sample_message_def)
qed

theorem collect_terminates_witness:
  "\<exists>batch es w'. collectBatch (worker_consumer (100 * Millisecond) (\<lambda>_. None) (sample_config True)) 0 [sample_end] (sample_consumer sample_idle)
     = (Some (batch, es), w')"
  using collect_terminates [of sample_end "[sample_end]" 0 "worker_consumer (100 * Millisecond) (\<lambda>_. None) (sample_config True)"
      "sample_consumer sample_idle"]
  by (auto simp: sample_end_def)

subsection \<open>Messages that are passed over\<close>

text \<open>The sample worker with a database that is down for its first statement.\<close>

definition sample_outage :: worker_world where
  "sample_outage = sample_idle\<lparr>pw_env := (\<lambda>n. (pw_env sample_idle n)\<lparr>ce_flt := (\<lambda>_. if n = 0 then Some ''down'' else None)\<rparr>)\<rparr>"

lemma outage_first:
  "\<exists>err. ProcessBatch (worker_handler (sample_config True)) [] [m] sample_outage = (Inl err, sample_outage\<lparr>pw_calls := 1\<rparr>)"
  by (simp add: ProcessBatch_def subscriptionsForMessages_def pg_GetByEventTypes_def read_def call_def
      GetByEventTypes_def sample_outage_def sample_worker_defs Let_def)

lemma outage_second:
  "\<exists>cat w'. ProcessBatch (worker_handler (sample_config True)) [] [sample_message] (sample_outage\<lparr>pw_calls := 1\<rparr>) = (Inr cat, w')
     \<and> ''evt_9'' \<notin> event_ids (pw_db w')"
  by (simp add: ProcessBatch_def subscriptionsForMessages_def pg_GetByEventTypes_def read_def call_def
      GetByEventTypes_def MatchesEventType_def matchWildcard_def default_attempts_def eventFromMessage_def
      pg_Initialize_def InitializeEventDeliveries_def prepare_event_def initial_event_def IsZero_def
      insert_event_def getDeliveriesByEventID_def deliveries_of_def commit_def claim_and_process_def
      pg_GetDeliveries_def GetDeliveriesByEventID_def ww_Now_def sample_worker_defs sample_message_def
      pg_int_def text_column_def DefaultPolicy_def sample_outage_def sample_defs event_ids_def Let_def)

text \<open>The commit requests the broker has accepted.\<close>

definition accepted_requests :: "consumer_world \<Rightarrow> Message list list" where
  "accepted_requests w =
     map (\<lambda>n. fst (cw_commits w ! n)) (filter (\<lambda>n. cw_outcome w n = None) [0..<length (cw_commits w)])"

lemma accepted_commit:
  assumes "cw_outcome w (length (cw_commits w)) = None" "cw_CommitMessages ms w = (r, w')"
  shows "ms \<in> set (accepted_requests w')"
  using assms by (auto simp: accepted_requests_def cw_CommitMessages_def intro!: image_eqI [of _ _ "length (cw_commits w)"])

text \<open>C30 A batch whose processing fails is passed over.  The running consumer does not try it again
  and does not commit it, but goes on with the next batch.  When that one is processed and the
  broker accepts its offsets, the position from which the group resumes is behind every message of
  the failed batch that has a smaller offset in the same partition, although nothing has been done
  for it since.  \<open>resume\<close> is the broker's position for the requests it has accepted, of which only
  the documented rule is used that it lies behind every committed message.\<close>

theorem failed_batch_is_passed_over:
  assumes "\<not> rd_ctxDone r1" "\<not> rd_shutdown r1" "\<not> rd_ctxDone r2" "\<not> rd_shutdown r2"
    and "collectBatch (worker_consumer d parse cfg) (rd_now r1) (rd_polls r1) w = (Some (b1, es1), w1)"
    and "cw_ProcessBatch cfg es1 w1 = (Inl err, w2)"
    and "collectBatch (worker_consumer d parse cfg) (rd_now r2) (rd_polls r2) w2 = (Some (b2, es2), w3)"
    and "cw_ProcessBatch cfg es2 w3 = (Inr cat, w4)" "cw_outcome w4 (length (cw_commits w4)) = None"
    and "m1 \<in> set b1" "m2 \<in> set b2" "km_Partition m1 = km_Partition m2" "km_Offset m1 < km_Offset m2"
    and resume: "\<And>reqs ms m. ms \<in> set reqs \<Longrightarrow> m \<in> set ms \<Longrightarrow> km_Offset m < resume reqs (km_Partition m)"
  shows "\<exists>w5. consumeLoop (worker_consumer d parse cfg) (r1 # r2 # rs) w = consumeLoop (worker_consumer d parse cfg) rs w5
     \<and> cw_commits w2 = cw_commits w1
     \<and> cw_commits w5 = cw_commits w4 @ [(b2, event_ids (pw_db (cw_worker w4)))] \<and> cw_worker w5 = cw_worker w4
     \<and> km_Offset m1 < resume (accepted_requests w5) (km_Partition m1)"
proof -
  let ?c = "worker_consumer d parse cfg"
  obtain r w5 where commit: "cw_CommitMessages b2 w4 = (r, w5)" by fastforce
  have es: "length es1 = length b1" "length es2 = length b2"
    using collect_loop_decodes [of ?c _ _ "[]" "[]"] assms(5,7) unfolding collectBatch_def
    by (metis list_all2_Nil list_all2_lengthD)+
  then have ne: "es1 \<noteq> []" "es2 \<noteq> []" "b1 \<noteq> []" "b2 \<noteq> []" using assms(10,11) by auto
  have "processBatchAndCommit ?c b1 es1 w1 = w2" "processBatchAndCommit ?c b2 es2 w3 = w5"
    using ne assms(6,8) commit by (simp_all add: processBatchAndCommit_def commitMessages_def)
  then have "consumeLoop ?c (r1 # r2 # rs) w = consumeLoop ?c rs w5" using assms(1-5,7) ne by simp
  moreover have "cw_commits w2 = cw_commits w1" using assms(6) by (auto simp: cw_ProcessBatch_def split: prod.splits)
  moreover have "cw_commits w5 = cw_commits w4 @ [(b2, event_ids (pw_db (cw_worker w4)))]" "cw_worker w5 = cw_worker w4"
    using commit by (auto simp: cw_CommitMessages_def)
  moreover have "km_Offset m2 < resume (accepted_requests w5) (km_Partition m2)"
    using resume [OF accepted_commit [OF assms(9) commit] assms(11)] .
  ultimately show ?thesis using assms(12,13) by auto
qed

text \<open>A broker that resumes behind the greatest committed offset.\<close>

definition sample_resume :: "Message list list \<Rightarrow> int \<Rightarrow> int" where
  "sample_resume reqs part = 1 + Max (insert (-1) (km_Offset ` {m \<in> set (concat reqs). km_Partition m = part}))"

lemma sample_resume_behind:
  assumes "ms \<in> set reqs" "m \<in> set ms"
  shows "km_Offset m < sample_resume reqs (km_Partition m)"
proof -
  have "m \<in> {k \<in> set (concat reqs). km_Partition k = km_Partition m}" using assms by auto
  then have "km_Offset m \<le> Max (insert (-1) (km_Offset ` {k \<in> set (concat reqs). km_Partition k = km_Partition m}))"
    by (intro Max_ge) auto
  then show ?thesis by (simp add: sample_resume_def)
qed

theorem failed_batch_is_passed_over_witness:
  "\<exists>m1 m2 w'. sample_loop [sample_round m1, sample_round m2] (sample_consumer sample_outage) = (False, w')
     \<and> decode_message (\<lambda>_. None) m1 = Some (sample_message\<lparr>em_ID := ''evt_9''\<rparr>)
     \<and> ''evt_9'' \<notin> event_ids (pw_db (cw_worker w'))
     \<and> km_Offset m1 < sample_resume (accepted_requests w') (km_Partition m1)"
proof -
  let ?e1 = "sample_message\<lparr>em_ID := ''evt_9''\<rparr>"
  let ?m1 = "sample_record 0 ?e1" and ?m2 = "sample_record 1 sample_message"
  let ?c = "worker_consumer (100 * Millisecond) (\<lambda>_. None) (sample_config True)"
  let ?w = "sample_consumer sample_outage" and ?w2 = "sample_consumer (sample_outage\<lparr>pw_calls := 1\<rparr>)"
  have utf8: "utf8_valid ''evt_9''" by code_simp
  obtain err where first: "cw_ProcessBatch (sample_config True) [?e1] ?w = (Inl err, ?w2)"
    using outage_first [of ?e1] by (auto simp: cw_ProcessBatch_def sample_consumer_def)
  obtain cat ww where ww: "ProcessBatch (worker_handler (sample_config True)) [] [sample_message] (sample_outage\<lparr>pw_calls := 1\<rparr>) = (Inr cat, ww)"
    "''evt_9'' \<notin> event_ids (pw_db ww)" using outage_second by blast
  have second: "cw_ProcessBatch (sample_config True) [sample_message] ?w2 = (Inr cat, sample_consumer ww)"
    using ww(1) by (simp add: cw_ProcessBatch_def sample_consumer_def)
  have c1: "collectBatch ?c (rd_now (sample_round ?m1)) (rd_polls (sample_round ?m1)) ?w = (Some ([?m1], [?e1]), ?w)"
    using sample_collect [OF utf8] by (simp add: sample_round_def)
  have c2: "collectBatch ?c (rd_now (sample_round ?m2)) (rd_polls (sample_round ?m2)) ?w2
      = (Some ([?m2], [sample_message]), ?w2)"
    using sample_collect [OF sample_message_id(2), of "sample_config True" 1 ?w2]
    by (simp add: sample_round_def sample_message_id)
  have "\<exists>w5. sample_loop [sample_round ?m1, sample_round ?m2] ?w = sample_loop [] w5
      \<and> cw_commits ?w2 = cw_commits ?w
      \<and> cw_commits w5 = cw_commits (sample_consumer ww) @ [([?m2], event_ids (pw_db (cw_worker (sample_consumer ww))))]
      \<and> cw_worker w5 = cw_worker (sample_consumer ww)
      \<and> km_Offset ?m1 < sample_resume (accepted_requests w5) (km_Partition ?m1)"
    by (rule failed_batch_is_passed_over [OF _ _ _ _ c1 first c2 second, where resume = sample_resume])
      (auto simp: sample_round_def sample_record_def sample_consumer_def intro: sample_resume_behind)
  moreover have "decode_message (\<lambda>_. None) ?m1 = Some ?e1" by (rule sample_record_decodes [OF utf8])
  moreover have "sample_loop [] v = (False, v)" for v by simp
  moreover have "cw_worker (sample_consumer ww) = ww" by (simp add: sample_consumer_def)
  ultimately show ?thesis using ww(2) by metis
qed

end
