(* ===== verification/Api_Handler.thy ===== *)
theory Api_Handler
  imports Consumer Request_Context
begin

text \<open>
  \<^verbatim>\<open>internal/api/handler.go\<close>: the endpoints of the HTTP API, and the part of
  \<^verbatim>\<open>observability.LoggingMiddleware\<close> that gives every request its trace identifier.

  A request is what the handlers read of it: the path parameter, the body, the trace header,
  the random bytes \<open>NewTraceID\<close> would draw, and what the middleware logs of it.  A response is its status, its trace header and
  the value handed to the JSON encoder; \<open>subscriptionResponse\<close> and the other response structs are
  values of \<open>response_body\<close>, whose encoding is that of their struct tags.  The publisher, the
  repositories, the clock and the counter are operations on a world \<open>'w\<close>; the locale
  \<open>api_environment\<close> is what the endpoints rely on, and it is interpreted on the Kafka writer and
  the PostgreSQL repositories.
\<close>

subsection \<open>Requests and responses\<close>

record http_request =
  hq_id :: string
  hq_body :: string
  hq_trace :: string
  hq_random :: "int list"
  hq_attrs :: logger

record CreateEventRequest =
  cr_ID :: string
  cr_Type :: string
  cr_Source :: string
  cr_Data :: string

definition put_create_event :: "string \<Rightarrow> string \<Rightarrow> CreateEventRequest \<Rightarrow> CreateEventRequest option" where
  "put_create_event name raw r =
     (if name = ''id'' then map_option (\<lambda>x. r\<lparr>cr_ID := x\<rparr>) (string_field raw (cr_ID r))
      else if name = ''type'' then map_option (\<lambda>x. r\<lparr>cr_Type := x\<rparr>) (string_field raw (cr_Type r))
      else if name = ''source'' then map_option (\<lambda>x. r\<lparr>cr_Source := x\<rparr>) (string_field raw (cr_Source r))
      else if name = ''data'' then Some (r\<lparr>cr_Data := raw\<rparr>)
      else Some r)"

record CreateSubscriptionRequest =
  cs_ID :: string
  cs_URL :: string
  cs_EventTypes :: "string list"
  cs_Secret :: "string option"
  cs_MaxDeliveryRate :: int

definition put_create_subscription ::
  "string \<Rightarrow> string \<Rightarrow> CreateSubscriptionRequest \<Rightarrow> CreateSubscriptionRequest option" where
  "put_create_subscription name raw r =
     (if name = ''id'' then map_option (\<lambda>x. r\<lparr>cs_ID := x\<rparr>) (string_field raw (cs_ID r))
      else if name = ''url'' then map_option (\<lambda>x. r\<lparr>cs_URL := x\<rparr>) (string_field raw (cs_URL r))
      else if name = ''event_types'' then map_option (\<lambda>x. r\<lparr>cs_EventTypes := x\<rparr>) (strings_field raw)
      else if name = ''secret'' then map_option (\<lambda>x. r\<lparr>cs_Secret := x\<rparr>) (string_ptr_field raw)
      else if name = ''max_delivery_rate'' then
        map_option (\<lambda>x. r\<lparr>cs_MaxDeliveryRate := x\<rparr>) (int_field raw (cs_MaxDeliveryRate r))
      else Some r)"

definition put_rotate_secret :: "string \<Rightarrow> string \<Rightarrow> string \<Rightarrow> string option" where
  "put_rotate_secret name raw secret = (if name = ''secret'' then string_field raw secret else Some secret)"

record SubscriptionResponse =
  sp_ID :: string
  sp_URL :: string
  sp_EventTypes :: "string list"
  sp_MaxDeliveryRate :: int
  sp_CreatedAt :: time
  sp_Active :: bool

datatype response_body =
    NoBody
  | ErrorBody string
  | CreateEventBody string string time
  | EventBody Event
  | AttemptsBody "DeliveryAttempt list"
  | DeliveriesBody "Delivery list"
  | SubscriptionBody SubscriptionResponse
  | SubscriptionsBody "SubscriptionResponse list"
  | SecretRotatedBody string bool
  | ReplayBody string string DeliveryStatus int time

record http_response =
  hp_status :: int
  hp_body :: response_body

definition respondJSON :: "int \<Rightarrow> response_body \<Rightarrow> http_response" where
  "respondJSON status data = \<lparr>hp_status = status, hp_body = data\<rparr>"

definition respondError :: "int \<Rightarrow> string \<Rightarrow> http_response" where
  "respondError status message = respondJSON status (ErrorBody message)"

definition subscriptionResponse :: "Subscription \<Rightarrow> SubscriptionResponse" where
  "subscriptionResponse sub =
     \<lparr>sp_ID = sub_ID sub, sp_URL = sub_URL sub, sp_EventTypes = sub_EventTypes sub,
      sp_MaxDeliveryRate = sub_MaxDeliveryRate sub, sp_CreatedAt = sub_CreatedAt sub, sp_Active = sub_Active sub\<rparr>"

subsection \<open>The handler\<close>

record 'w Handler =
  ah_Publish :: "string \<Rightarrow> EventMessage \<Rightarrow> 'w \<Rightarrow> error option \<times> 'w"
  ah_GetByID :: "string \<Rightarrow> 'w \<Rightarrow> (error + Event) \<times> 'w"
  ah_GetAttempts :: "string \<Rightarrow> 'w \<Rightarrow> (error + DeliveryAttempt list) \<times> 'w"
  ah_GetDeliveries :: "string \<Rightarrow> 'w \<Rightarrow> (error + Delivery list) \<times> 'w"
  ah_Replay :: "string \<Rightarrow> time \<Rightarrow> 'w \<Rightarrow> (error + Delivery) \<times> 'w"
  ah_Create :: "Subscription \<Rightarrow> 'w \<Rightarrow> (error + unit) \<times> 'w"
  ah_GetActive :: "'w \<Rightarrow> (error + Subscription list) \<times> 'w"
  ah_Delete :: "string \<Rightarrow> 'w \<Rightarrow> (error + unit) \<times> 'w"
  ah_UpdateSecret :: "string \<Rightarrow> string \<Rightarrow> 'w \<Rightarrow> (error + unit) \<times> 'w"
  ah_Now :: "'w \<Rightarrow> time \<times> 'w"
  ah_EventsReceived :: "('w \<Rightarrow> 'w) option"

definition message_of :: "CreateEventRequest \<Rightarrow> EventMessage" where
  "message_of req = zero_event\<lparr>em_ID := cr_ID req, em_Type := cr_Type req, em_Source := cr_Source req,
     em_Data := cr_Data req, em_MaxAttempts := 5\<rparr>"

definition CreateEvent :: "'w Handler \<Rightarrow> string \<Rightarrow> http_request \<Rightarrow> 'w \<Rightarrow> http_response \<times> 'w" where
  "CreateEvent h traceID r w =
     (case Decode put_create_event (hq_body r) \<lparr>cr_ID = [], cr_Type = [], cr_Source = [], cr_Data = []\<rparr> of
        None \<Rightarrow> (respondError 400 ''invalid request body'', w)
      | Some req \<Rightarrow>
          if cr_ID req = [] \<or> cr_Type req = [] \<or> cr_Source req = []
          then (respondError 400 ''id, type, and source are required'', w)
          else
            (case ah_Publish h traceID (message_of req) w of
               (Some err, w) \<Rightarrow> (respondError 500 ''failed to publish event'', w)
             | (None, w) \<Rightarrow>
                 (let w = (case ah_EventsReceived h of None \<Rightarrow> w | Some inc \<Rightarrow> inc w);
                      (now, w) = ah_Now h w
                  in (respondJSON 202 (CreateEventBody (cr_ID req) ''pending'' now), w))))"

definition GetEvent :: "'w Handler \<Rightarrow> http_request \<Rightarrow> 'w \<Rightarrow> http_response \<times> 'w" where
  "GetEvent h r w =
     (if hq_id r = [] then (respondError 400 ''event id is required'', w)
      else
        (case ah_GetByID h (hq_id r) w of
           (Inl err, w) \<Rightarrow>
             (if errors_Is err ErrNotFound then respondError 404 ''event not found''
              else respondError 500 ''failed to get event'', w)
         | (Inr event, w) \<Rightarrow> (respondJSON 200 (EventBody event), w)))"

definition GetEventAttempts :: "'w Handler \<Rightarrow> http_request \<Rightarrow> 'w \<Rightarrow> http_response \<times> 'w" where
  "GetEventAttempts h r w =
     (if hq_id r = [] then (respondError 400 ''event id is required'', w)
      else
        (case ah_GetAttempts h (hq_id r) w of
           (Inl err, w) \<Rightarrow> (respondError 500 ''failed to get attempts'', w)
         | (Inr attempts, w) \<Rightarrow> (respondJSON 200 (AttemptsBody attempts), w)))"

definition GetEventDeliveries :: "'w Handler \<Rightarrow> http_request \<Rightarrow> 'w \<Rightarrow> http_response \<times> 'w" where
  "GetEventDeliveries h r w =
     (if hq_id r = [] then (respondError 400 ''event id is required'', w)
      else
        (case ah_GetDeliveries h (hq_id r) w of
           (Inl err, w) \<Rightarrow> (respondError 500 ''failed to get deliveries'', w)
         | (Inr ds, w) \<Rightarrow> (respondJSON 200 (DeliveriesBody ds), w)))"

definition maxSubscriptionSecretBytes :: nat where
  "maxSubscriptionSecretBytes = 4096"

definition CreateSubscription :: "'w Handler \<Rightarrow> http_request \<Rightarrow> 'w \<Rightarrow> http_response \<times> 'w" where
  "CreateSubscription h r w =
     (case Decode put_create_subscription (hq_body r)
         \<lparr>cs_ID = [], cs_URL = [], cs_EventTypes = [], cs_Secret = None, cs_MaxDeliveryRate = 0\<rparr> of
        None \<Rightarrow> (respondError 400 ''invalid request body'', w)
      | Some req \<Rightarrow>
          if cs_ID req = [] \<or> cs_URL req = [] \<or> length (cs_EventTypes req) = 0
          then (respondError 400 ''id, url, and event_types are required'', w)
          else if (case cs_Secret req of None \<Rightarrow> False
                   | Some s \<Rightarrow> s = [] \<or> length s > maxSubscriptionSecretBytes)
          then (respondError 400 ''secret must be between 1 and 4096 bytes'', w)
          else
            (let maxDeliveryRate = cs_MaxDeliveryRate req;
                 maxDeliveryRate = (if maxDeliveryRate \<le> 0 then DefaultSubscriptionMaxDeliveryRate else maxDeliveryRate);
                 (now, w) = ah_Now h w;
                 sub = \<lparr>sub_ID = cs_ID req, sub_URL = cs_URL req, sub_EventTypes = cs_EventTypes req,
                        sub_Secret = cs_Secret req, sub_MaxDeliveryRate = maxDeliveryRate,
                        sub_CreatedAt = now, sub_Active = True\<rparr>
             in case ah_Create h sub w of
                  (Inl err, w) \<Rightarrow> (respondError 500 ''failed to create subscription'', w)
                | (Inr _, w) \<Rightarrow> (respondJSON 201 (SubscriptionBody (subscriptionResponse sub)), w)))"

definition GetSubscriptions :: "'w Handler \<Rightarrow> 'w \<Rightarrow> http_response \<times> 'w" where
  "GetSubscriptions h w =
     (case ah_GetActive h w of
        (Inl err, w) \<Rightarrow> (respondError 500 ''failed to get subscriptions'', w)
      | (Inr subs, w) \<Rightarrow> (respondJSON 200 (SubscriptionsBody (map subscriptionResponse subs)), w))"

definition RotateSubscriptionSecret :: "'w Handler \<Rightarrow> http_request \<Rightarrow> 'w \<Rightarrow> http_response \<times> 'w" where
  "RotateSubscriptionSecret h r w =
     (if hq_id r = [] then (respondError 400 ''subscription id is required'', w)
      else
        (case Decode put_rotate_secret (hq_body r) [] of
           None \<Rightarrow> (respondError 400 ''invalid request body'', w)
         | Some secret \<Rightarrow>
             if secret = [] \<or> length secret > maxSubscriptionSecretBytes
             then (respondError 400 ''secret must be between 1 and 4096 bytes'', w)
             else
               (case ah_UpdateSecret h (hq_id r) secret w of
                  (Inl err, w) \<Rightarrow>
                    (if errors_Is err ErrNotFound then respondError 404 ''subscription not found''
                     else respondError 500 ''failed to rotate subscription secret'', w)
                | (Inr _, w) \<Rightarrow> (respondJSON 200 (SecretRotatedBody (hq_id r) True), w))))"

text \<open>The response reads \<open>*delivery.NextAttemptAt\<close>; a nil pointer there would panic.\<close>

definition ReplayDelivery :: "'w Handler \<Rightarrow> http_request \<Rightarrow> 'w \<Rightarrow> http_response option \<times> 'w" where
  "ReplayDelivery h r w =
     (if hq_id r = [] then (Some (respondError 400 ''delivery id is required''), w)
      else
        (let (scheduledAt, w) = ah_Now h w
         in case ah_Replay h (hq_id r) scheduledAt w of
              (Inl err, w) \<Rightarrow>
                (Some (if errors_Is err ErrNotFound then respondError 404 ''delivery not found''
                       else if errors_Is err ErrReplayNotEligible then respondError 409 ''delivery is not failed''
                       else respondError 500 ''failed to replay delivery''), w)
            | (Inr d, w) \<Rightarrow>
                (map_option (\<lambda>at'. respondJSON 202
                    (ReplayBody (dl_ID d) (dl_EventID d) (dl_Status d) (dl_Generation d) at')) (dl_NextAttemptAt d), w)))"

definition DeleteSubscription :: "'w Handler \<Rightarrow> http_request \<Rightarrow> 'w \<Rightarrow> http_response \<times> 'w" where
  "DeleteSubscription h r w =
     (if hq_id r = [] then (respondError 400 ''subscription id is required'', w)
      else
        (case ah_Delete h (hq_id r) w of
           (Inl err, w) \<Rightarrow>
             (if errors_Is err ErrNotFound then respondError 404 ''subscription not found''
              else respondError 500 ''failed to delete subscription'', w)
         | (Inr _, w) \<Rightarrow> (\<lparr>hp_status = 204, hp_body = NoBody\<rparr>, w)))"

subsection \<open>Routes and the trace of a request\<close>

text \<open>The route table of \<^verbatim>\<open>internal/api/routes.go\<close>: which method answers which endpoint.  \<open>None\<close> is a
  panic, which the recovering middleware turns into status 500.\<close>

datatype endpoint =
    PostEvents
  | GetEventsId
  | GetEventsIdAttempts
  | GetEventsIdDeliveries
  | PostDeliveriesIdReplay
  | PostSubscriptions
  | ListSubscriptions
  | PutSubscriptionsIdSecret
  | DeleteSubscriptionsId

definition serve :: "'w Handler \<Rightarrow> endpoint \<Rightarrow> string \<Rightarrow> http_request \<Rightarrow> 'w \<Rightarrow> http_response option \<times> 'w" where
  "serve h ep traceID r w =
     (case ep of
        PostEvents \<Rightarrow> apfst Some (CreateEvent h traceID r w)
      | GetEventsId \<Rightarrow> apfst Some (GetEvent h r w)
      | GetEventsIdAttempts \<Rightarrow> apfst Some (GetEventAttempts h r w)
      | GetEventsIdDeliveries \<Rightarrow> apfst Some (GetEventDeliveries h r w)
      | PostDeliveriesIdReplay \<Rightarrow> ReplayDelivery h r w
      | PostSubscriptions \<Rightarrow> apfst Some (CreateSubscription h r w)
      | ListSubscriptions \<Rightarrow> apfst Some (GetSubscriptions h w)
      | PutSubscriptionsIdSecret \<Rightarrow> apfst Some (RotateSubscriptionSecret h r w)
      | DeleteSubscriptionsId \<Rightarrow> apfst Some (DeleteSubscription h r w))"

definition NewTraceID :: "int list \<Rightarrow> string" where
  "NewTraceID random = hex_encode random"

text \<open>The middleware answers with the trace identifier it hands on in the context, together with the
  logger of the request; \<open>hq_attrs\<close> are the other attributes of that logger.\<close>

definition LoggingMiddleware ::
  "logger \<Rightarrow> (request_ctx \<Rightarrow> 'w \<Rightarrow> http_response option \<times> 'w) \<Rightarrow> http_request \<Rightarrow> 'w
     \<Rightarrow> ((string \<times> string) list \<times> http_response option) \<times> 'w" where
  "LoggingMiddleware lg handle r w =
     (let traceID = hq_trace r;
          traceID = (if traceID = [] then NewTraceID (hq_random r) else traceID);
          reqLogger = lg @ (''trace_id'', traceID) # hq_attrs r;
          ctx = ContextWithLogger fresh_ctx reqLogger;
          ctx = ContextWithTraceID ctx traceID;
          (resp, w) = handle ctx w
      in (([(TraceIDHeader, traceID)], resp), w))"

abbreviation answer :: "logger \<Rightarrow> 'w Handler \<Rightarrow> endpoint \<Rightarrow> http_request \<Rightarrow> 'w
    \<Rightarrow> ((string \<times> string) list \<times> http_response option) \<times> 'w" where
  "answer lg h ep r \<equiv> LoggingMiddleware lg (\<lambda>ctx. serve h ep (TraceIDFromContext ctx) r) r"

subsection \<open>What the endpoints rely on\<close>

text \<open>What the API accepts as a subscription, and the two ways \<open>CreateSubscription\<close> can go.\<close>

definition subscription_valid :: "Subscription \<Rightarrow> bool" where
  "subscription_valid u \<longleftrightarrow>
     sub_ID u \<noteq> [] \<and> sub_URL u \<noteq> [] \<and> sub_EventTypes u \<noteq> [] \<and> 0 < sub_MaxDeliveryRate u
     \<and> (case sub_Secret u of None \<Rightarrow> True | Some x \<Rightarrow> x \<noteq> [] \<and> length x \<le> maxSubscriptionSecretBytes)"

lemma CreateSubscription_cases:
  obtains (refused) m where "CreateSubscription h r w = (respondError 400 m, w)"
  | (asked) now w1 u where "ah_Now h w = (now, w1)" "subscription_valid u"
      "CreateSubscription h r w = (case ah_Create h u w1 of
         (Inl err, w) \<Rightarrow> (respondError 500 ''failed to create subscription'', w)
       | (Inr _, w) \<Rightarrow> (respondJSON 201 (SubscriptionBody (subscriptionResponse u)), w))"
      "sub_Active u"
proof (cases "Decode put_create_subscription (hq_body r)
    \<lparr>cs_ID = [], cs_URL = [], cs_EventTypes = [], cs_Secret = None, cs_MaxDeliveryRate = 0\<rparr>")
  case None
  then show ?thesis using refused by (simp add: CreateSubscription_def)
next
  case (Some req)
  obtain now w1 where n: "ah_Now h w = (now, w1)" by fastforce
  let ?rate = "if cs_MaxDeliveryRate req \<le> 0 then DefaultSubscriptionMaxDeliveryRate else cs_MaxDeliveryRate req"
  let ?u = "\<lparr>sub_ID = cs_ID req, sub_URL = cs_URL req, sub_EventTypes = cs_EventTypes req,
      sub_Secret = cs_Secret req, sub_MaxDeliveryRate = ?rate, sub_CreatedAt = now, sub_Active = True\<rparr>"
  show ?thesis
  proof (cases "subscription_valid ?u")
    case True
    then show ?thesis
      using Some n
      by (intro asked [OF n True]) (auto simp: CreateSubscription_def subscription_valid_def not_less Let_def split: option.split)
  next
    case False
    then have "(cs_ID req = [] \<or> cs_URL req = [] \<or> length (cs_EventTypes req) = 0)
      \<or> (case cs_Secret req of None \<Rightarrow> False | Some s \<Rightarrow> s = [] \<or> length s > maxSubscriptionSecretBytes)"
      by (auto simp: subscription_valid_def DefaultSubscriptionMaxDeliveryRate_def not_le split: option.splits if_splits)
    then have "\<exists>m. CreateSubscription h r w = (respondError 400 m, w)"
      using Some by (cases "cs_ID req = [] \<or> cs_URL req = [] \<or> length (cs_EventTypes req) = 0") (auto simp: CreateSubscription_def)
    then show ?thesis using refused by blast
  qed
qed

locale api_environment = preserved pres
  for pres :: "'w \<Rightarrow> 'w \<Rightarrow> bool" +
  fixes h :: "'w Handler"
  assumes publish_pres: "pres w (snd (ah_Publish h tr e w))"
    and get_pres: "pres w (snd (ah_GetByID h i w))" "pres w (snd (ah_GetAttempts h i w))"
      "pres w (snd (ah_GetDeliveries h i w))" "pres w (snd (ah_GetActive h w))"
    and replay_pres: "pres w (snd (ah_Replay h i t w))"
    and create_pres: "subscription_valid u \<Longrightarrow> pres w (snd (ah_Create h u w))"
    and delete_pres: "pres w (snd (ah_Delete h i w))"
    and update_pres: "secret \<noteq> [] \<Longrightarrow> length secret \<le> maxSubscriptionSecretBytes
      \<Longrightarrow> pres w (snd (ah_UpdateSecret h i secret w))"
    and now_pres: "pres w (snd (ah_Now h w))"
    and inc_pres: "ah_EventsReceived h = Some inc \<Longrightarrow> pres w (inc w)"
begin

lemma CreateEvent_keeps: "pres w (snd (CreateEvent h tr r w))"
proof -
  have "pres w (snd (case ah_Publish h tr e w of (Some err, w) \<Rightarrow> (respondError 500 m, w)
    | (None, w) \<Rightarrow> (let w = (case ah_EventsReceived h of None \<Rightarrow> w | Some inc \<Rightarrow> inc w); (now, w) = ah_Now h w
                    in (f now, w))))" for e m f
  proof -
    obtain q w1 where p: "ah_Publish h tr e w = (q, w1)" by fastforce
    let ?w2 = "case ah_EventsReceived h of None \<Rightarrow> w1 | Some inc \<Rightarrow> inc w1"
    have w1: "pres w w1" using publish_pres [of w tr e] p by simp
    have "pres w1 ?w2" by (cases "ah_EventsReceived h") (simp_all add: pres_refl inc_pres)
    from pres_trans [OF w1 pres_trans [OF this now_pres]] w1 p show ?thesis
      by (cases q) (auto simp: Let_def split: prod.splits)
  qed
  then show ?thesis by (simp add: CreateEvent_def pres_refl split: option.split)
qed

lemma CreateSubscription_keeps: "pres w (snd (CreateSubscription h r w))"
proof (cases rule: CreateSubscription_cases [where h = h and r = r and w = w])
  case (asked now w1 u)
  from now_pres [of w] asked(1) have "pres w w1" by simp
  from pres_trans [OF this create_pres [OF asked(2)]] show ?thesis
    unfolding asked(3) by (auto split: prod.splits sum.splits)
qed (simp add: pres_refl)

lemma RotateSubscriptionSecret_keeps: "pres w (snd (RotateSubscriptionSecret h r w))"
proof -
  have "pres w w'" if "secret \<noteq> []" "\<not> length secret > maxSubscriptionSecretBytes"
    "ah_UpdateSecret h i secret w = (q, w')" for secret i q w'
    using update_pres [of secret w i] that by simp
  then show ?thesis
    by (auto simp: RotateSubscriptionSecret_def pres_refl split: option.split prod.split sum.split)
qed

lemma ReplayDelivery_keeps: "pres w (snd (ReplayDelivery h r w))"
proof -
  obtain now w1 where n: "ah_Now h w = (now, w1)" by fastforce
  then have w1: "pres w w1" using now_pres [of w] by simp
  from pres_trans [OF this replay_pres [of w1 "hq_id r" now]] n show ?thesis
    by (auto simp: ReplayDelivery_def pres_refl split: prod.splits sum.splits)
qed

lemma reads_keep:
  "pres w (snd (GetEvent h r w))" "pres w (snd (GetEventAttempts h r w))" "pres w (snd (GetEventDeliveries h r w))"
  "pres w (snd (GetSubscriptions h w))"
  using get_pres(1-3) [of w "hq_id r"] get_pres(4) [of w]
  by (auto simp: GetEvent_def GetEventAttempts_def GetEventDeliveries_def GetSubscriptions_def pres_refl
      split: prod.splits sum.splits)

lemma DeleteSubscription_keeps: "pres w (snd (DeleteSubscription h r w))"
  using delete_pres [of w "hq_id r"]
  by (auto simp: DeleteSubscription_def pres_refl split: prod.splits sum.splits)

lemma serve_keeps: "pres w (snd (serve h ep tr r w))"
  by (cases ep) (simp_all add: serve_def CreateEvent_keeps CreateSubscription_keeps RotateSubscriptionSecret_keeps
      ReplayDelivery_keeps reads_keep DeleteSubscription_keeps)

lemma LoggingMiddleware_keeps: "answer lg h ep r w = (resp, w') \<Longrightarrow> pres w w'"
proof -
  have *: "snd (answer lg h ep r w) =
     snd (serve h ep (if hq_trace r = [] then NewTraceID (hq_random r) else hq_trace r) r w)"
    by (simp add: LoggingMiddleware_def Let_def split: prod.split)
  assume "answer lg h ep r w = (resp, w')"
  with * serve_keeps [of w ep "if hq_trace r = [] then NewTraceID (hq_random r) else hq_trace r" r] show ?thesis
    by (metis snd_conv)
qed

end

subsection \<open>Kafka and PostgreSQL provide it\<close>

definition pg_GetByID :: "string \<Rightarrow> 'm pg_world_scheme \<Rightarrow> (error + Event) \<times> 'm pg_world_scheme" where
  "pg_GetByID i = read (\<lambda>c. GetByID (ce_flt c) i)"

definition pg_GetAttempts :: "string \<Rightarrow> 'm pg_world_scheme \<Rightarrow> (error + DeliveryAttempt list) \<times> 'm pg_world_scheme" where
  "pg_GetAttempts i = read (\<lambda>c. GetAttemptsByEventID (ce_flt c) i)"

definition pg_Replay :: "string \<Rightarrow> time \<Rightarrow> 'm pg_world_scheme \<Rightarrow> (error + Delivery) \<times> 'm pg_world_scheme" where
  "pg_Replay i t = call (\<lambda>c. ReplayFailedDelivery (ce_flt c) (ce_nows c 0) (ce_now c) i t)"

definition pg_Create :: "Subscription \<Rightarrow> 'm pg_world_scheme \<Rightarrow> (error + unit) \<times> 'm pg_world_scheme" where
  "pg_Create u = call (\<lambda>c. Create (ce_flt c) u)"

definition pg_GetActive :: "'m pg_world_scheme \<Rightarrow> (error + Subscription list) \<times> 'm pg_world_scheme" where
  "pg_GetActive = read (\<lambda>c. GetActive (ce_flt c))"

definition pg_Delete :: "string \<Rightarrow> 'm pg_world_scheme \<Rightarrow> (error + unit) \<times> 'm pg_world_scheme" where
  "pg_Delete i = call (\<lambda>c. Delete (ce_flt c) i)"

definition pg_UpdateSecret :: "string \<Rightarrow> string \<Rightarrow> 'm pg_world_scheme \<Rightarrow> (error + unit) \<times> 'm pg_world_scheme" where
  "pg_UpdateSecret i secret = call (\<lambda>c. UpdateSecret (ce_flt c) i secret)"

definition api_handler :: "(time \<Rightarrow> error + string) \<Rightarrow> api_world Handler" where
  "api_handler fmt =
     \<lparr>ah_Publish = Publish (kafka_writer fmt), ah_GetByID = pg_GetByID, ah_GetAttempts = pg_GetAttempts,
      ah_GetDeliveries = pg_GetDeliveries, ah_Replay = pg_Replay, ah_Create = pg_Create, ah_GetActive = pg_GetActive,
      ah_Delete = pg_Delete, ah_UpdateSecret = pg_UpdateSecret, ah_Now = aw_Now,
      ah_EventsReceived = Some (\<lambda>w. w\<lparr>aw_received := Suc (aw_received w)\<rparr>)\<rparr>"

lemma api_handler_simps [simp]:
  "ah_Publish (api_handler fmt) = Publish (kafka_writer fmt)" "ah_GetByID (api_handler fmt) = pg_GetByID"
  "ah_GetAttempts (api_handler fmt) = pg_GetAttempts" "ah_GetDeliveries (api_handler fmt) = pg_GetDeliveries"
  "ah_Replay (api_handler fmt) = pg_Replay" "ah_Create (api_handler fmt) = pg_Create"
  "ah_GetActive (api_handler fmt) = pg_GetActive" "ah_Delete (api_handler fmt) = pg_Delete"
  "ah_UpdateSecret (api_handler fmt) = pg_UpdateSecret" "ah_Now (api_handler fmt) = aw_Now"
  "ah_EventsReceived (api_handler fmt) = Some (\<lambda>w. w\<lparr>aw_received := Suc (aw_received w)\<rparr>)"
  by (simp_all add: api_handler_def)

text \<open>The invariant of the API: that of the database, and that every subscription is one the API
  accepts; the other processes keep it too.\<close>

definition subs_ok :: "db \<Rightarrow> bool" where
  "subs_ok s \<longleftrightarrow> (\<forall>u \<in> set (subscriptions s). subscription_valid u)"

definition api_ok :: "'m pg_world_scheme \<Rightarrow> bool" where
  "api_ok w \<longleftrightarrow> pw_ok w \<and> subs_ok (pw_db w)
     \<and> (\<forall>n s. db_ok s \<longrightarrow> subs_ok s \<longrightarrow> subs_ok (ce_others (pw_env w n) s))"

definition api_pres :: "'m pg_world_scheme \<Rightarrow> 'm pg_world_scheme \<Rightarrow> bool" where
  "api_pres w w' \<longleftrightarrow> (api_ok w \<longrightarrow> api_ok w' \<and> (\<forall>i. pw_has_event i w \<longrightarrow> pw_has_event i w'))"

lemma api_pres_call:
  assumes "\<And>c s r t. db_ok s \<Longrightarrow> f c s = (r, t) \<Longrightarrow> db_ok t \<and> event_ids s \<subseteq> event_ids t \<and> (subs_ok s \<longrightarrow> subs_ok t)"
  shows "api_pres w (snd (call f w))"
proof -
  obtain r w' where c: "call f w = (r, w')" by fastforce
  have db: "db_ok t \<and> event_ids s \<subseteq> event_ids t" if "db_ok s" "f c s = (r, t)" for c s t using assms that by blast
  have "api_ok w'" if ok: "api_ok w"
  proof -
    let ?c = "pw_env w (pw_calls w)"
    have pw: "pw_ok w" using ok by (simp add: api_ok_def)
    obtain r' t where f: "f ?c (ce_others ?c (pw_db w)) = (r', t)" by fastforce
    then have w': "w' = w\<lparr>pw_db := t, pw_calls := Suc (pw_calls w)\<rparr>" using c by (simp add: call_def Let_def)
    have "db_ok (ce_others ?c (pw_db w))" "subs_ok (ce_others ?c (pw_db w))"
      using ok by (auto simp: api_ok_def pw_ok_def others_ok_def)
    with assms [OF _ f] have "subs_ok t" by blast
    moreover have "pw_ok w'" by (rule call_ok(1) [OF pw c db])
    ultimately show ?thesis using ok by (simp add: w' api_ok_def)
  qed
  moreover have "pw_has_event i w'" if "api_ok w" "pw_has_event i w" for i
    using call_ok(2) [OF _ c db that(2)] that(1) by (simp add: api_ok_def)
  ultimately show ?thesis by (simp add: c api_pres_def)
qed

lemma api_pres_read: "api_pres w (snd (read f w))"
  unfolding read_def by (rule api_pres_call) auto

lemma api_pres_env: "pw_db w' = pw_db w \<Longrightarrow> pw_env w' = pw_env w \<Longrightarrow> api_pres w w'"
  by (simp add: api_pres_def api_ok_def pw_ok_def pw_has_event_def)

lemma replay_keeps_tables:
  assumes "db_ok s" "ReplayFailedDelivery flt gonow now i t' s = (r, t)"
  shows "event_ids t = event_ids s" "subscriptions t = subscriptions s"
  using assms
  by (cases rule: Replay_cases; auto simp: event_ids_def replay_written_def image_update_where)+

lemma subscription_valid_update [simp]:
  "subscription_valid (u\<lparr>sub_Active := a\<rparr>) = subscription_valid u"
  "subscription_valid (subscription_columns u) = subscription_valid u"
  "x \<noteq> [] \<Longrightarrow> length x \<le> maxSubscriptionSecretBytes \<Longrightarrow> subscription_valid u \<Longrightarrow> subscription_valid (u\<lparr>sub_Secret := Some x\<rparr>)"
  by (simp_all add: subscription_valid_def subscription_columns_def)

lemma subscription_tables:
  "Create flt u s = (r, t) \<Longrightarrow> events t = events s \<and> (subscription_valid u \<longrightarrow> subs_ok s \<longrightarrow> subs_ok t)"
  "Delete flt i s = (r, t) \<Longrightarrow> events t = events s \<and> (subs_ok s \<longrightarrow> subs_ok t)"
  "UpdateSecret flt i x s = (r, t) \<Longrightarrow> events t = events s
     \<and> (x \<noteq> [] \<longrightarrow> length x \<le> maxSubscriptionSecretBytes \<longrightarrow> subs_ok s \<longrightarrow> subs_ok t)"
  by (auto simp: Create_def Delete_def UpdateSecret_def subs_ok_def set_update_where split: option.splits if_splits)

interpretation api: api_environment api_pres "api_handler fmt"
proof
  show "api_pres u w" if "api_pres u v" "api_pres v w" for u v w :: api_world using that by (simp add: api_pres_def)
  show "api_pres w (snd (ah_Publish (api_handler fmt) tr e w))" for w tr e
    by (rule api_pres_env; cases "aw_outcome w (aw_writes w)"; simp add: Publish_def aw_WriteMessages_def Let_def split: sum.split)
  show "api_pres w (snd (ah_Replay (api_handler fmt) i t w))" for w i t
    unfolding api_handler_simps pg_Replay_def
    by (rule api_pres_call) (metis ReplayFailedDelivery_ok replay_keeps_tables order_refl subs_ok_def)
  show "api_pres w (snd (ah_Create (api_handler fmt) u w))" if "subscription_valid u" for u w
    unfolding api_handler_simps pg_Create_def
    by (rule api_pres_call) (metis Create_ok subscription_tables(1) that event_ids_def order_refl)
  show "api_pres w (snd (ah_Delete (api_handler fmt) i w))" for i w
    unfolding api_handler_simps pg_Delete_def
    by (rule api_pres_call) (metis Delete_ok subscription_tables(2) event_ids_def order_refl)
  show "api_pres w (snd (ah_UpdateSecret (api_handler fmt) i secret w))"
    if "secret \<noteq> []" "length secret \<le> maxSubscriptionSecretBytes" for i secret w
    unfolding api_handler_simps pg_UpdateSecret_def
    by (rule api_pres_call) (metis UpdateSecret_ok subscription_tables(3) that event_ids_def order_refl)
  show "api_pres w (snd (ah_Now (api_handler fmt) w))" for w by (rule api_pres_env) (simp_all add: aw_Now_def)
  show "api_pres w (inc w)" if "ah_EventsReceived (api_handler fmt) = Some inc" for inc w
    using that by (intro api_pres_env) auto
qed (simp_all add: api_pres_read pg_GetByID_def pg_GetAttempts_def pg_GetDeliveries_def pg_GetActive_def, simp_all add: api_pres_def)

subsection \<open>From the request to the consumer\<close>

text \<open>What a fold over the members of a body keeps.\<close>

lemma Decode_keeps:
  assumes "Decode put body zero = Some r" "P zero"
    and step: "\<And>name raw x y. P x \<Longrightarrow> tight_value raw \<Longrightarrow> put name raw x = Some y \<Longrightarrow> P y"
  shows "P r"
proof -
  have fold: "P y" if "foldl (\<lambda>r (k, v). Option.bind r (put (fold_name k) v)) (Some x) ms = Some y" "P x"
    "\<forall>(k, v) \<in> set ms. tight_value v" for ms x y
    using that
  proof (induction ms arbitrary: x)
    case (Cons m ms)
    obtain k v where m: "m = (k, v)" by fastforce
    have none: "foldl (\<lambda>r (k, v). Option.bind r (put (fold_name k) v)) None ms = None" by (induction ms) auto
    with Cons.prems m obtain z where z: "put (fold_name k) v x = Some z" by (cases "put (fold_name k) v x") auto
    with Cons m step show ?case by auto
  qed simp
  have "P r" if "decode_struct put raw zero = Some r" for raw
  proof -
    have "\<forall>(k, v) \<in> set (json_members (2 * length raw) (drop 1 raw)). tight_value v" using json_members_tight by blast
    with fold [OF _ assms(2)] that assms(2) show ?thesis
      by (auto simp: decode_struct_def split: if_splits)
  qed
  with assms(1) show ?thesis by (auto simp: Decode_def Let_def split: option.splits if_splits)
qed

definition request_text_ok :: "CreateEventRequest \<Rightarrow> bool" where
  "request_text_ok r \<longleftrightarrow> utf8_valid (cr_ID r) \<and> utf8_valid (cr_Type r) \<and> utf8_valid (cr_Source r)
     \<and> (cr_Data r = [] \<or> tight_value (cr_Data r))"

lemma decoded_request_text_ok:
  assumes "Decode put_create_event body \<lparr>cr_ID = [], cr_Type = [], cr_Source = [], cr_Data = []\<rparr> = Some req"
  shows "request_text_ok req"
  by (rule Decode_keeps [where P = request_text_ok, OF assms])
    (auto simp: request_text_ok_def put_create_event_def dest: string_field_utf8 split: if_splits)

lemma CreateEvent_cases:
  assumes "CreateEvent (api_handler fmt) traceID r w = (resp, w')"
  obtains (refused) "hp_status resp = 400" "aw_written w' = aw_written w"
  | (published) req q w1 where
      "Decode put_create_event (hq_body r) \<lparr>cr_ID = [], cr_Type = [], cr_Source = [], cr_Data = []\<rparr> = Some req"
      "cr_ID req \<noteq> []" "cr_Type req \<noteq> []" "cr_Source req \<noteq> []" "hp_status resp = (if q = None then 202 else 500)"
      "Publish (kafka_writer fmt) traceID (message_of req) w = (q, w1)" "aw_written w' = aw_written w1"
proof (cases "Decode put_create_event (hq_body r) \<lparr>cr_ID = [], cr_Type = [], cr_Source = [], cr_Data = []\<rparr>")
  case None
  then show ?thesis using refused assms by (auto simp: CreateEvent_def respondError_def respondJSON_def)
next
  case (Some req)
  obtain q w1 where q: "Publish (kafka_writer fmt) traceID (message_of req) w = (q, w1)" by fastforce
  show ?thesis
  proof (cases "cr_ID req = [] \<or> cr_Type req = [] \<or> cr_Source req = []")
    case True
    with Some assms refused show ?thesis
      by (auto simp: CreateEvent_def respondError_def respondJSON_def split: if_splits)
  next
    case False
    with Some q assms show ?thesis
      by (intro published [OF Some, of q w1])
        (auto simp: CreateEvent_def respondError_def respondJSON_def aw_Now_def split: option.splits)
  qed
qed

text \<open>The message of an accepted or a failed request, as the consumer reads it.\<close>

definition carries :: "(string \<Rightarrow> time option) \<Rightarrow> string \<Rightarrow> CreateEventRequest \<Rightarrow> Message \<Rightarrow> bool" where
  "carries parse traceID req m \<longleftrightarrow> km_Key m = cr_ID req
     \<and> (\<exists>data. marshal_raw (cr_Data req) = Inr data
        \<and> decode_message parse m = Some ((message_of req)\<lparr>em_Data := data, em_TraceID := traceID\<rparr>))"

lemma published_carries:
  assumes "Decode put_create_event (hq_body r) \<lparr>cr_ID = [], cr_Type = [], cr_Source = [], cr_Data = []\<rparr> = Some req"
    and "marshal_event fmt (message_of req) = Inr val"
  shows "carries parse traceID req (new_message (message_of req) val (trace_headers traceID))"
proof -
  have "request_text_ok req" by (rule decoded_request_text_ok [OF assms(1)])
  then have "\<exists>data. marshal_raw (em_Data (message_of req)) = Inr data
    \<and> decode_message parse (new_message (message_of req) val (trace_headers traceID))
        = Some ((message_of req)\<lparr>em_Data := data, em_TraceID := traceID\<rparr>)"
    by (intro message_is_consumed [OF assms(2)])
       (simp_all add: message_of_def zero_event_def request_text_ok_def int64_def)
  then show ?thesis by (auto simp: carries_def new_message_def message_of_def)
qed

text \<open>C4 An accepted event reaches the consumer as it was sent: with status 202 Kafka has
  acknowledged a write of exactly one message, whose key is the event's identifier, and a
  consumer that reads it gets the identifier, type and source of the request, its data
  compacted, five attempts and the trace of the request, for whatever text the body had.  A
  request refused with status 400 has written nothing.  With status 500 the write has failed,
  which does not exclude that the message is in Kafka; if anything is, it is that message.\<close>

theorem accepted_event_reaches_consumer:
  assumes "CreateEvent (api_handler fmt) traceID r w = (resp, w')"
  shows "\<exists>ps. aw_written w' = aw_written w @ ps \<and> hp_status resp \<in> {202, 400, 500}
    \<and> (hp_status resp = 400 \<longrightarrow> ps = [])
    \<and> (hp_status resp = 202 \<longrightarrow> (\<exists>m. ps = [[m]]))
    \<and> (concat ps \<noteq> [] \<longrightarrow>
        (\<exists>req m. Decode put_create_event (hq_body r) \<lparr>cr_ID = [], cr_Type = [], cr_Source = [], cr_Data = []\<rparr> = Some req
          \<and> cr_ID req \<noteq> [] \<and> cr_Type req \<noteq> [] \<and> cr_Source req \<noteq> []
          \<and> set (concat ps) = {m} \<and> km_Key m = cr_ID req
          \<and> (\<exists>data. marshal_raw (cr_Data req) = Inr data
              \<and> decode_message parse m = Some ((message_of req)\<lparr>em_Data := data, em_TraceID := traceID\<rparr>))))"
  using assms
proof (cases rule: CreateEvent_cases)
  case (published req q w1)
  show ?thesis
  proof (cases q)
    case None
    then obtain val where "marshal_event fmt (message_of req) = Inr val"
      "aw_written w1 = aw_written w @ [[new_message (message_of req) val (trace_headers traceID)]]"
      using kafka.Publish_written(1) [OF published(6)] by auto
    with published None published_carries [OF published(1), of fmt val parse traceID] show ?thesis
      by (auto simp: carries_def)
  next
    case (Some err)
    then obtain ps where ps: "aw_written w1 = aw_written w @ ps" "concat ps \<noteq> [] \<longrightarrow>
        (\<exists>val. marshal_event fmt (message_of req) = Inr val
          \<and> set (concat ps) \<subseteq> {new_message (message_of req) val (trace_headers traceID)})"
      using kafka.Publish_written(2) [OF published(6)] by auto
    have "\<exists>m. set (concat ps) = {m} \<and> carries parse traceID req m" if "concat ps \<noteq> []"
    proof -
      from ps(2) that obtain val where "marshal_event fmt (message_of req) = Inr val"
        "set (concat ps) \<subseteq> {new_message (message_of req) val (trace_headers traceID)}" by blast
      with that published_carries [OF published(1), of fmt val parse traceID] show ?thesis
        by (metis set_empty subset_singletonD)
    qed
    with ps(1) published Some show ?thesis unfolding carries_def by (intro exI [of _ ps]) auto
  qed
qed simp

text \<open>A request whose identifier ends in an escaped NUL.\<close>

definition sample_request :: http_request where
  "sample_request = \<lparr>hq_id = [], hq_body = CHR ''{'' # member_texts
       [(''id'', [quote_char, CHR ''a'', backslash] @ ''u0000'' @ [quote_char]), (''type'', json_string ''t''),
        (''source'', json_string ''s''), (''data'', ''{}'')],
     hq_trace = ''t1'', hq_random = [], hq_attrs = []\<rparr>"

definition sample_decoded :: CreateEventRequest where
  "sample_decoded = \<lparr>cr_ID = [CHR ''a'', CHR 0x00], cr_Type = ''t'', cr_Source = ''s'', cr_Data = ''{}''\<rparr>"

lemma sample_request_decodes:
  "Decode put_create_event (hq_body sample_request) \<lparr>cr_ID = [], cr_Type = [], cr_Source = [], cr_Data = []\<rparr>
     = Some sample_decoded"
  by code_simp

lemma sample_accepted:
  "\<exists>resp w'. CreateEvent (api_handler (\<lambda>_. Inr [])) ''t1'' sample_request (sample_api (sample_db [])) = (resp, w')
     \<and> hp_status resp = 202"
proof -
  have "marshal_raw ''{}'' = Inr ''{}''" by code_simp
  then obtain val where "marshal_event (\<lambda>_. Inr []) (message_of sample_decoded) = Inr val"
    by (simp add: marshal_event_def message_of_def zero_event_def sample_decoded_def)
  then show ?thesis
    by (simp add: CreateEvent_def sample_request_decodes Publish_def aw_WriteMessages_def aw_Now_def sample_api_def
        pg_world.extend_def respondJSON_def) (simp add: sample_decoded_def)
qed

theorem accepted_event_reaches_consumer_witness:
  "\<exists>resp w' m. CreateEvent (api_handler (\<lambda>_. Inr [])) ''t1'' sample_request (sample_api (sample_db [])) = (resp, w')
     \<and> aw_written w' = [[m]]
     \<and> decode_message (\<lambda>_. None) m = Some ((message_of sample_decoded)\<lparr>em_TraceID := ''t1''\<rparr>)"
proof -
  obtain resp w' where r: "CreateEvent (api_handler (\<lambda>_. Inr [])) ''t1'' sample_request (sample_api (sample_db [])) = (resp, w')"
    "hp_status resp = 202" using sample_accepted by blast
  have raw: "marshal_raw ''{}'' = Inr ''{}''" by code_simp
  have "aw_written (sample_api (sample_db [])) = []" by (simp add: sample_api_def pg_world.extend_def)
  with accepted_event_reaches_consumer [OF r(1), of "\<lambda>_. None"] r raw show ?thesis
    unfolding sample_request_decodes by (fastforce simp: sample_decoded_def message_of_def)
qed

subsection \<open>Events the database cannot hold\<close>

lemma insert_event_poison:
  "\<not> (pg_text (ev_ID e) \<and> pg_text (ev_Type e) \<and> pg_text (ev_Source e)) \<or> ev_Data e = [] \<Longrightarrow> \<exists>err. insert_event e s = Inl err"
  by (auto simp: insert_event_def)

definition poison :: "EventMessage \<Rightarrow> bool" where
  "poison m \<longleftrightarrow> \<not> (pg_text (em_ID m) \<and> pg_text (em_Type m) \<and> pg_text (em_Source m)) \<or> em_Data m = []"

lemma Initialize_poison:
  assumes "poison m" "InitializeEventDeliveries flt nows (Some (eventFromMessage now m)) subs s = (r, t)"
  shows "\<exists>err. r = Inl err"
  using assms(2)
proof (cases rule: Initialize_cases)
  case (applied s1 s2)
  have "\<exists>err. insert_event (initial_event (nows 0) (prepare_event (nows 0) (eventFromMessage now m)) subs) s = Inl err"
    using assms(1) by (intro insert_event_poison) (simp add: poison_def eventFromMessage_def)
  with applied(1) show ?thesis by simp
qed simp

lemma initialize_messages_poison:
  assumes "m \<in> set ms" "poison m" "initialize_messages (worker_handler c) subsMap ms n w = (r, w')"
  shows "\<exists>err. r = Inl err"
  using assms(1,3)
proof (induction ms arbitrary: n w)
  case (Cons x ms)
  obtain now w1 where now: "ww_Now w = (now, w1)" by fastforce
  let ?subs = "case subsMap (em_Type x) of Some us \<Rightarrow> map Some us | None \<Rightarrow> []"
  obtain q w2 where q: "pg_Initialize (eventFromMessage now x) ?subs w1 = (q, w2)" by fastforce
  show ?case
  proof (cases q)
    case (Inl err)
    with Cons.prems(2) now q show ?thesis by (auto simp: Let_def)
  next
    case (Inr ds)
    have "x \<noteq> m"
    proof
      assume "x = m"
      from q Initialize_poison [OF assms(2)] Inr show False
        unfolding \<open>x = m\<close> by (force simp: pg_Initialize_def call_def Let_def split: prod.splits)
    qed
    with Cons now q Inr show ?thesis by (auto simp: Let_def)
  qed
qed simp

text \<open>C35 An event the database cannot hold, one whose identifier, type or source has a NUL byte or
  one without data, fails every batch it is in, whatever else the batch has and however often it is
  tried.  The API accepts the former; an event it accepts without data is published with the data
  \<open>null\<close>, so that the latter comes from other producers.\<close>

theorem poison_event_fails_every_batch:
  assumes "m \<in> set msgs" "poison m" "ProcessBatch (worker_handler c) ctx msgs w = (r, w')"
  shows "\<exists>err. r = Inl err"
proof -
  have ne: "msgs \<noteq> []" using assms(1) by auto
  have "poison (default_attempts (worker_handler c) m)" using assms(2) by (simp add: poison_def default_attempts_def)
  moreover have "default_attempts (worker_handler c) m \<in> set (map (default_attempts (worker_handler c)) msgs)"
    using assms(1) by simp
  ultimately have init: "\<exists>err. i = Inl err"
    if "initialize_messages (worker_handler c) subsMap (map (default_attempts (worker_handler c)) msgs) 0 w1 = (i, w2)"
    for subsMap w1 i w2 using initialize_messages_poison that by blast
  show ?thesis by (rule ProcessBatch_cases [OF assms(3) ne refl]) (use init in \<open>blast, blast, blast, fastforce\<close>)
qed

theorem poison_event_fails_every_batch_witness:
  "poison (message_of sample_decoded) \<and> (\<exists>err w'.
     ProcessBatch (worker_handler (sample_config True)) [] [sample_message, message_of sample_decoded]
       (sample_worker (sample_db []) (Inl (ErrText ''timeout'')) \<lparr>Allowed = True, RetryAfter = 0\<rparr>) = (Inl err, w'))"
proof -
  let ?w = "sample_worker (sample_db []) (Inl (ErrText ''timeout'')) \<lparr>Allowed = True, RetryAfter = 0\<rparr>"
  have p: "poison (message_of sample_decoded)"
    by (simp add: poison_def message_of_def sample_decoded_def zero_event_def pg_text_def)
  obtain r w' where b: "ProcessBatch (worker_handler (sample_config True)) [] [sample_message, message_of sample_decoded] ?w = (r, w')"
    by fastforce
  from poison_event_fails_every_batch [OF _ p b] p b show ?thesis by auto
qed

subsection \<open>The invariant\<close>

lemma ReplayDelivery_answers: "fst (ReplayDelivery (api_handler fmt) r w) \<noteq> None"
proof -
  have "dl_NextAttemptAt d \<noteq> None" if "pg_Replay i t v = (Inr d, v')" for i t v d and v' :: api_world
    using that
    by (auto simp: pg_Replay_def call_def ReplayFailedDelivery_def ScheduleReplay_def commit_def Let_def
        split: option.splits prod.splits sum.splits if_splits)
  then show ?thesis by (auto simp: ReplayDelivery_def aw_Now_def split: prod.split sum.split)
qed

lemma serve_answers: "fst (serve (api_handler fmt) ep tr r w) \<noteq> None"
  using ReplayDelivery_answers [of fmt r w] by (cases ep) (simp_all add: serve_def)

text \<open>C34 Whatever is requested and whatever fails, the API answers every request, does not panic, and
  keeps the database's invariant, with subscriptions that all have an identifier, a URL, at least
  one filter, a positive rate and, if any, a secret of 1 to 4096 bytes.\<close>

theorem api_keeps_database:
  assumes "api_ok w" "answer lg (api_handler fmt) ep r w = ((hdrs, resp), w')"
  shows "api_ok w' \<and> resp \<noteq> None"
proof -
  have "api_pres w w'" by (rule api.LoggingMiddleware_keeps [OF assms(2)])
  with serve_answers show ?thesis
    using assms by (auto simp: api_pres_def LoggingMiddleware_def Let_def split: prod.splits) (metis fst_conv)
qed

theorem api_keeps_database_witness:
  "\<exists>hdrs resp w'. answer [] (api_handler (\<lambda>_. Inr [])) PostSubscriptions sample_request (sample_api (sample_db []))
     = ((hdrs, Some resp), w') \<and> subs_ok (pw_db w')"
proof -
  have "db_ok (sample_db [])" by (simp add: db_ok_def keys_ok_def refs_ok_def key_unique_def sample_db_def sample_defs)
  then have ok: "api_ok (sample_api (sample_db []))"
    by (simp add: api_ok_def pw_ok_def others_ok_def subs_ok_def subscription_valid_def sample_api_def sample_world_def
        pg_world.extend_def sample_db_def sample_sub_def maxSubscriptionSecretBytes_def)
  obtain hdrs resp w' where r: "answer [] (api_handler (\<lambda>_. Inr [])) PostSubscriptions sample_request
      (sample_api (sample_db [])) = ((hdrs, resp), w')" by (metis surj_pair)
  from api_keeps_database [OF ok r] r show ?thesis by (auto simp: api_ok_def)
qed

end
