(* ===== verification/Metrics.thy ===== *)
theory Metrics
  imports Poller Cleaner Api_Handler
begin

text \<open>
  \<^verbatim>\<open>internal/observability/metrics.go\<close>, \<^verbatim>\<open>middleware.go\<close> and the observers of
  \<^verbatim>\<open>internal/app/worker.go\<close> that feed the metrics.

  A counter is a number, a gauge an integer, a histogram the list of what it has observed; times
  that the code turns into seconds are kept as durations.  A vector is a function of its label
  values.  The registry is outside of this code: \<open>NewMetrics\<close> takes its operation as an argument,
  where \<open>None\<close> is the panic of \<open>promauto\<close>.

  The theory shows that the metrics can be registered, and that the counters of the delivery
  outcomes agree with what the handler has filed.
\<close>

subsection \<open>Registration\<close>

datatype metric_kind =
    NewCounter
  | NewGauge
  | NewHistogram "real list"
  | NewCounterVec "string list"
  | NewHistogramVec "real list" "string list"

text \<open>Name, kind, buckets and labels of every metric; \<open>defBuckets\<close> is \<open>prometheus.DefBuckets\<close>.\<close>

definition metric_table :: "real list \<Rightarrow> (string \<times> metric_kind) list" where
  "metric_table defBuckets =
     [(''events_received_total'', NewCounter),
      (''events_delivered_total'', NewCounter),
      (''events_failed_total'', NewCounter),
      (''events_retrying_total'', NewCounter),
      (''events_throttled_total'', NewCounter),
      (''delivery_duration_seconds'', NewHistogram [1 / 100, 5 / 100, 1 / 10, 25 / 100, 5 / 10, 1, 25 / 10, 5, 10, 30]),
      (''delivery_attempts_total'', NewCounter),
      (''http_requests_total'', NewCounterVec [''method'', ''path'', ''status'']),
      (''http_request_duration_seconds'', NewHistogramVec defBuckets [''method'', ''path'']),
      (''rate_limiter_rejections_total'', NewCounterVec [''subscription_id'']),
      (''retry_events_claimed_total'', NewCounter),
      (''retry_events_reclaimed_total'', NewCounter),
      (''retry_empty_polls_total'', NewCounter),
      (''retry_claim_failures_total'', NewCounter),
      (''retry_persistence_failures_total'', NewCounter),
      (''retry_stale_owner_rejections_total'', NewCounter),
      (''retry_active_batches'', NewGauge),
      (''retry_due_events'', NewGauge),
      (''retry_expired_claims'', NewGauge),
      (''retry_leased_events'', NewGauge),
      (''retry_oldest_due_age_seconds'', NewGauge),
      (''retry_scheduling_lag_seconds'', NewHistogram [1 / 100, 1 / 10, 5 / 10, 1, 25 / 10, 5, 10, 30, 60, 300]),
      (''retention_attempt_bodies_redacted_total'', NewCounter),
      (''retention_terminal_events_deleted_total'', NewCounter),
      (''retention_cleanup_failures_total'', NewCounter),
      (''retention_cleanup_duration_seconds'', NewHistogram [1 / 100, 5 / 100, 1 / 10, 5 / 10, 1, 25 / 10, 5, 10, 30]),
      (''retention_last_success_timestamp_seconds'', NewGauge)]"

fun register_all ::
  "(string \<Rightarrow> string \<Rightarrow> metric_kind \<Rightarrow> 'r \<Rightarrow> 'r option) \<Rightarrow> string \<Rightarrow> (string \<times> metric_kind) list \<Rightarrow> 'r \<Rightarrow> 'r option" where
  "register_all register namespace [] r = Some r"
| "register_all register namespace ((name, kind) # ms) r =
     (case register namespace name kind r of
        None \<Rightarrow> None
      | Some r \<Rightarrow> register_all register namespace ms r)"

definition NewMetrics ::
  "real list \<Rightarrow> (string \<Rightarrow> string \<Rightarrow> metric_kind \<Rightarrow> 'r \<Rightarrow> 'r option) \<Rightarrow> string \<Rightarrow> 'r \<Rightarrow> 'r option" where
  "NewMetrics defBuckets register namespace = register_all register namespace (metric_table defBuckets)"

subsection \<open>The metrics\<close>

record Metrics =
  EventsReceived :: nat
  EventsDelivered :: nat
  EventsFailed :: nat
  EventsRetrying :: nat
  EventsThrottled :: nat
  DeliveryDuration :: "Duration list"
  DeliveryAttempts :: nat
  HTTPRequestsTotal :: "string \<times> string \<times> string \<Rightarrow> nat"
  HTTPRequestDuration :: "string \<times> string \<Rightarrow> Duration list"
  RateLimiterRejections :: "string \<Rightarrow> nat"
  RetryEventsClaimed :: nat
  RetryEventsReclaimed :: nat
  RetryEmptyPolls :: nat
  RetryClaimFailures :: nat
  RetryPersistenceFailures :: nat
  RetryStaleOwnerRejections :: nat
  RetryActiveBatches :: int
  RetryDueEvents :: int
  RetryExpiredClaims :: int
  RetryLeasedEvents :: int
  RetryOldestDueAge :: Duration
  RetrySchedulingLag :: "Duration list"
  RetentionAttemptBodiesRedacted :: nat
  RetentionTerminalEventsDeleted :: nat
  RetentionCleanupFailures :: nat
  RetentionCleanupDuration :: "Duration list"
  RetentionLastSuccessTimestamp :: int

subsection \<open>The observers\<close>

fun deliveryMetricsObserver :: "delivery_observation \<Rightarrow> Metrics \<Rightarrow> Metrics" where
  "deliveryMetricsObserver ObsDelivered m = m\<lparr>EventsDelivered := EventsDelivered m + 1\<rparr>"
| "deliveryMetricsObserver ObsFailed m = m\<lparr>EventsFailed := EventsFailed m + 1\<rparr>"
| "deliveryMetricsObserver ObsRetrying m = m\<lparr>EventsRetrying := EventsRetrying m + 1\<rparr>"
| "deliveryMetricsObserver ObsThrottled m = m\<lparr>EventsThrottled := EventsThrottled m + 1\<rparr>"
| "deliveryMetricsObserver ObsAttemptStarted m = m\<lparr>DeliveryAttempts := DeliveryAttempts m + 1\<rparr>"
| "deliveryMetricsObserver (ObsAttemptDuration d) m = m\<lparr>DeliveryDuration := DeliveryDuration m @ [d]\<rparr>"
| "deliveryMetricsObserver (ObsRateLimited i) m =
     m\<lparr>RateLimiterRejections := (RateLimiterRejections m)(i := RateLimiterRejections m i + 1)\<rparr>"

fun pollerMetricsObserver :: "poller_observation \<Rightarrow> Metrics \<Rightarrow> Metrics" where
  "pollerMetricsObserver (ObsClaimed n) m = m\<lparr>RetryEventsClaimed := RetryEventsClaimed m + n\<rparr>"
| "pollerMetricsObserver (ObsReclaimed n) m = m\<lparr>RetryEventsReclaimed := RetryEventsReclaimed m + n\<rparr>"
| "pollerMetricsObserver ObsEmptyPoll m = m\<lparr>RetryEmptyPolls := RetryEmptyPolls m + 1\<rparr>"
| "pollerMetricsObserver ObsClaimFailure m = m\<lparr>RetryClaimFailures := RetryClaimFailures m + 1\<rparr>"
| "pollerMetricsObserver (ObsPersistenceFailure staleOwner) m =
     (let m = m\<lparr>RetryPersistenceFailures := RetryPersistenceFailures m + 1\<rparr>
      in if staleOwner then m\<lparr>RetryStaleOwnerRejections := RetryStaleOwnerRejections m + 1\<rparr> else m)"
| "pollerMetricsObserver (ObsActiveBatches delta) m = m\<lparr>RetryActiveBatches := RetryActiveBatches m + delta\<rparr>"
| "pollerMetricsObserver (ObsSchedulingLag lag) m = m\<lparr>RetrySchedulingLag := RetrySchedulingLag m @ [lag]\<rparr>"
| "pollerMetricsObserver (ObsBacklog stats age) m =
     m\<lparr>RetryDueEvents := int (bs_DueCount stats), RetryExpiredClaims := int (bs_ExpiredProcessingCount stats),
       RetryLeasedEvents := int (bs_LeasedCount stats), RetryOldestDueAge := age\<rparr>"

fun retentionMetricsObserver :: "retention_observation \<Rightarrow> Metrics \<Rightarrow> Metrics" where
  "retentionMetricsObserver (AttemptBodiesRedacted n) m =
     m\<lparr>RetentionAttemptBodiesRedacted := RetentionAttemptBodiesRedacted m + n\<rparr>"
| "retentionMetricsObserver (TerminalEventsDeleted n) m =
     m\<lparr>RetentionTerminalEventsDeleted := RetentionTerminalEventsDeleted m + n\<rparr>"
| "retentionMetricsObserver CycleFailed m = m\<lparr>RetentionCleanupFailures := RetentionCleanupFailures m + 1\<rparr>"
| "retentionMetricsObserver (CycleCompleted duration completed) m =
     m\<lparr>RetentionCleanupDuration := RetentionCleanupDuration m @ [duration],
       RetentionLastSuccessTimestamp := Unix completed\<rparr>"

text \<open>The middleware around a handler; a panic passes through it and is not recorded.  \<open>pattern\<close> is
  the route pattern of the request, empty when no route matched.\<close>

definition MetricsMiddleware ::
  "string \<Rightarrow> string \<Rightarrow> string \<Rightarrow> Duration \<Rightarrow> ('w \<Rightarrow> http_response option \<times> 'w) \<Rightarrow> 'w \<times> Metrics
     \<Rightarrow> http_response option \<times> 'w \<times> Metrics" where
  "MetricsMiddleware httpMethod pattern urlPath duration handle wm =
     (case handle (fst wm) of
        (None, w) \<Rightarrow> (None, w, snd wm)
      | (Some resp, w) \<Rightarrow>
          (let path = (if pattern = [] then urlPath else pattern);
               key = (httpMethod, path, FormatInt (hp_status resp));
               m = snd wm;
               m = m\<lparr>HTTPRequestsTotal := (HTTPRequestsTotal m)(key := HTTPRequestsTotal m key + 1)\<rparr>;
               m = m\<lparr>HTTPRequestDuration := (HTTPRequestDuration m)
                      ((httpMethod, path) := HTTPRequestDuration m (httpMethod, path) @ [duration])\<rparr>
           in (Some resp, w, m)))"

subsection \<open>Registration succeeds\<close>

text \<open>What the registry asks of a metric: increasing buckets and distinct labels.\<close>

definition kind_ok :: "metric_kind \<Rightarrow> bool" where
  "kind_ok k = (case k of NewHistogram b \<Rightarrow> sorted_wrt (<) b | NewCounterVec ls \<Rightarrow> distinct ls
     | NewHistogramVec b ls \<Rightarrow> sorted_wrt (<) b \<and> distinct ls | _ \<Rightarrow> True)"

lemma metric_table_ok:
  "distinct (map fst (metric_table b))" "sorted_wrt (<) b \<Longrightarrow> list_all (kind_ok \<circ> snd) (metric_table b)"
  by (simp_all add: metric_table_def kind_ok_def)

text \<open>\<open>names\<close> are the names a registry holds, by namespace.  A registry that accepts every
  well-formed metric under a new name accepts all of them.\<close>

lemma NewMetrics_registers:
  assumes register: "\<And>ns n k r. (ns, n) \<notin> names r \<Longrightarrow> kind_ok k
      \<Longrightarrow> \<exists>r'. register ns n k r = Some r' \<and> names r' = insert (ns, n) (names r)"
    and "sorted_wrt (<) defBuckets" and fresh: "\<forall>n. (ns, n) \<notin> names r"
  shows "\<exists>r'. NewMetrics defBuckets register ns r = Some r'
    \<and> names r' = names r \<union> {ns} \<times> fst ` set (metric_table defBuckets)"
proof -
  have "\<exists>r'. register_all register ns ms r = Some r' \<and> names r' = names r \<union> {ns} \<times> fst ` set ms"
    if "distinct (map fst ms)" "list_all (kind_ok \<circ> snd) ms" "\<forall>n \<in> fst ` set ms. (ns, n) \<notin> names r" for ms r
    using that
  proof (induction ms arbitrary: r)
    case (Cons e ms)
    obtain n k where e: "e = (n, k)" by fastforce
    with Cons.prems register [of ns n r k]
    obtain r1 where r1: "register ns n k r = Some r1" "names r1 = insert (ns, n) (names r)" by auto
    have "\<exists>r'. register_all register ns ms r1 = Some r' \<and> names r' = names r1 \<union> {ns} \<times> fst ` set ms"
      using Cons.prems r1(2) e by (intro Cons.IH) auto
    with r1 e show ?case by auto
  qed simp
  from this [OF metric_table_ok(1) metric_table_ok(2) [OF assms(2)]] fresh show ?thesis
    by (auto simp: NewMetrics_def)
qed

subsection \<open>The counters agree with the outcomes\<close>

lemma deliverWebhook_observed:
  "deliverWebhook (worker_handler c) tr sub ev w = (r, w') \<Longrightarrow> ww_observed w' = ww_observed w"
  by (auto simp: deliverWebhook_def ww_defs Let_def split: sum.splits prod.splits option.splits if_splits)

lemma deliverDelivery_observed:
  assumes "deliverDelivery (worker_handler c) tr d w = (r, w')"
  shows "\<exists>dur. ww_observed w' = ww_observed w @
    (if dr_outcome r = outcomeThrottled then [ObsThrottled, ObsRateLimited (dl_SubscriptionID d)]
     else [ObsAttemptStarted, ObsAttemptDuration dur])"
  using assms deliverWebhook_observed
  by (auto simp: deliverDelivery_def deliverToSubscription_def ww_defs Let_def failure_outcome_def
      subscriptionFromDelivery_def split: sum.splits prod.splits option.splits if_splits)

lemma pg_Persist_observed: "pg_Persist d as w = (q, w') \<Longrightarrow> ww_observed w' = ww_observed w"
  by (auto simp: pg_Persist_def call_def Let_def split: prod.splits)

lemma applyDeliveryResult_observed:
  assumes "applyDeliveryResult (worker_handler c) d r w = (d', w')"
  shows "ww_observed w' = ww_observed w @ (case dr_outcome r of outcomeSuccess \<Rightarrow> [ObsDelivered]
      | outcomeRetry \<Rightarrow> [ObsRetrying] | outcomeThrottled \<Rightarrow> [] | outcomeFailure \<Rightarrow> [ObsFailed])"
  using assms
  by (auto simp: applyDeliveryResult_def Let_def ww_defs retryDelay_def
      split: deliveryOutcome.splits if_splits prod.splits)

text \<open>What a sequence of observations adds to the counters, when the deliveries filed go from \<open>p\<close> to
  \<open>p'\<close>.\<close>

definition agrees :: "processed \<Rightarrow> processed \<Rightarrow> Metrics \<Rightarrow> Metrics \<Rightarrow> bool" where
  "agrees p p' m m' \<longleftrightarrow>
     EventsDelivered m' + length (ps_delivered p) = EventsDelivered m + length (ps_delivered p')
     \<and> EventsFailed m' + length (ps_failed p) = EventsFailed m + length (ps_failed p')
     \<and> EventsRetrying m' + EventsThrottled m' + length (ps_retrying p)
       = EventsRetrying m + EventsThrottled m + length (ps_retrying p')
     \<and> DeliveryAttempts m' + (EventsDelivered m + EventsFailed m + EventsRetrying m)
       = DeliveryAttempts m + (EventsDelivered m' + EventsFailed m' + EventsRetrying m')"

lemma agrees_refl: "agrees p p m m"
  by (simp add: agrees_def)

lemma agrees_trans: "agrees p p1 m m1 \<Longrightarrow> agrees p1 p' m1 m' \<Longrightarrow> agrees p p' m m'"
  by (simp add: agrees_def)

lemma one_delivery_agrees:
  assumes "deliverDelivery (worker_handler c) tr d w = (r, w1)" "applyDeliveryResult (worker_handler c) d r w1 = (d', w2)"
  shows "\<exists>obs. ww_observed w2 = ww_observed w @ obs
    \<and> (\<forall>m. agrees p (file_delivery d' p) m (fold deliveryMetricsObserver obs m))"
proof -
  from deliverDelivery_observed [OF assms(1)] applyDeliveryResult_observed [OF assms(2)]
    applyDeliveryResult_status(1) [OF assms(2)]
  show ?thesis
    by (cases "dr_outcome r") (auto simp: agrees_def file_delivery_def)
qed

lemma process_loop_agrees:
  "process_loop (worker_handler c) ctx traces ds p w = ((p', e), w') \<Longrightarrow>
   \<exists>obs. ww_observed w' = ww_observed w @ obs \<and> (\<forall>m. agrees p p' m (fold deliveryMetricsObserver obs m))"
proof (induction ds arbitrary: p w)
  case (Cons o1 ds)
  show ?case
  proof (cases o1)
    case (Some d)
    obtain r w1 where 1: "deliverDelivery (worker_handler c) (delivery_trace ctx traces d) d w = (r, w1)" by fastforce
    obtain d' w2 where 2: "applyDeliveryResult (worker_handler c) d r w1 = (d', w2)" by fastforce
    obtain q w3 where 3: "pg_Persist d' (dr_attempts r) w2 = (q, w3)" by fastforce
    from one_delivery_agrees [OF 1 2, of p] obtain obs where obs: "ww_observed w3 = ww_observed w @ obs"
      "\<And>m. agrees p (file_delivery d' p) m (fold deliveryMetricsObserver obs m)" using pg_Persist_observed [OF 3] by auto
    show ?thesis
    proof (cases q)
      case Inl
      with Cons.prems Some 1 2 3 obs show ?thesis by auto
    next
      case Inr
      with Cons.prems Some 1 2 3 have "process_loop (worker_handler c) ctx traces ds (file_delivery d' p) w3 = ((p', e), w')"
        by simp
      from Cons.IH [OF this] obtain obs' where "ww_observed w' = ww_observed w3 @ obs'"
        "\<And>m. agrees (file_delivery d' p) p' m (fold deliveryMetricsObserver obs' m)" by blast
      with obs agrees_trans show ?thesis by (intro exI [of _ "obs @ obs'"]) fastforce
    qed
  qed (use Cons in simp)
qed (simp add: agrees_refl)

text \<open>C40 The counters tell what the handler has filed: whatever becomes of a batch, errors of the
  database included, the delivered and the failed counters grow by the deliveries filed as such,
  the retrying and throttled ones together by those filed to be retried, and an attempt is
  counted for every outcome but a throttled one.  A delivery whose outcome could not be stored
  has been counted like the others.\<close>

theorem outcomes_are_counted:
  assumes "processDeliveries (worker_handler c) ctx traces ds w = ((p, e), w')"
  shows "\<exists>obs. ww_observed w' = ww_observed w @ obs
    \<and> (let m' = fold deliveryMetricsObserver obs m
       in EventsDelivered m' = EventsDelivered m + length (ps_delivered p)
        \<and> EventsFailed m' = EventsFailed m + length (ps_failed p)
        \<and> EventsRetrying m' + EventsThrottled m' = EventsRetrying m + EventsThrottled m + length (ps_retrying p)
        \<and> DeliveryAttempts m' + EventsThrottled m'
          = DeliveryAttempts m + EventsThrottled m
            + (length (ps_delivered p) + length (ps_failed p) + length (ps_retrying p)))"
proof -
  from process_loop_agrees [OF assms [unfolded processDeliveries_def]]
  obtain obs where obs: "ww_observed w' = ww_observed w @ obs"
    and "agrees \<lparr>ps_delivered = [], ps_retrying = [], ps_failed = []\<rparr> p m (fold deliveryMetricsObserver obs m)"
    by blast
  then show ?thesis by (intro exI [of _ obs]) (auto simp: agrees_def Let_def)
qed

definition zero_metrics :: Metrics where
  "zero_metrics = \<lparr>EventsReceived = 0, EventsDelivered = 0, EventsFailed = 0, EventsRetrying = 0, EventsThrottled = 0,
     DeliveryDuration = [], DeliveryAttempts = 0, HTTPRequestsTotal = (\<lambda>_. 0), HTTPRequestDuration = (\<lambda>_. []),
     RateLimiterRejections = (\<lambda>_. 0), RetryEventsClaimed = 0, RetryEventsReclaimed = 0, RetryEmptyPolls = 0,
     RetryClaimFailures = 0, RetryPersistenceFailures = 0, RetryStaleOwnerRejections = 0, RetryActiveBatches = 0,
     RetryDueEvents = 0, RetryExpiredClaims = 0, RetryLeasedEvents = 0, RetryOldestDueAge = 0,
     RetrySchedulingLag = [], RetentionAttemptBodiesRedacted = 0, RetentionTerminalEventsDeleted = 0,
     RetentionCleanupFailures = 0, RetentionCleanupDuration = [], RetentionLastSuccessTimestamp = 0\<rparr>"

theorem outcomes_are_counted_witness:
  "\<exists>p e w' obs. processDeliveries (worker_handler (sample_config True)) [] Map.empty [Some sample_claimed]
      (sample_worker (sample_db [sample_claimed]) (Inl (ErrText ''timeout'')) \<lparr>Allowed = False, RetryAfter = Second\<rparr>)
        = ((p, e), w')
    \<and> ww_observed w' = obs \<and> length (ps_retrying p) = 1
    \<and> (let m = fold deliveryMetricsObserver obs zero_metrics in EventsDelivered m = 0 \<and> EventsRetrying m + EventsThrottled m = 1)"
proof -
  let ?w = "sample_worker (sample_db [sample_claimed]) (Inl (ErrText ''timeout'')) \<lparr>Allowed = False, RetryAfter = Second\<rparr>"
  let ?run = "processDeliveries (worker_handler (sample_config True)) [] Map.empty [Some sample_claimed] ?w"
  obtain p e w' where r: "?run = ((p, e), w')" by (metis prod.exhaust)
  have p: "length (ps_retrying p) = 1" "ps_delivered p = []"
    using r by (auto simp: processDeliveries_def deliverDelivery_def deliverToSubscription_def applyDeliveryResult_def
        retryDelay_def MarkAsThrottled_def file_delivery_def ww_defs sample_worker_defs Let_def
        split: prod.splits sum.splits)
  have "ww_observed ?w = []" by (simp add: sample_worker_defs)
  with outcomes_are_counted [OF r, of zero_metrics] r p show ?thesis
    by (auto simp: Let_def zero_metrics_def)
qed

end
