(* ===== verification/Worker_Service.thy ===== *)
theory Worker_Service
  imports Handler_Options Lifecycle Health Metrics Config
begin

text \<open>
  \<^verbatim>\<open>internal/app/worker.go\<close> and \<^verbatim>\<open>cmd/worker/main.go\<close>: the worker process, put together from the
  delivery handler, the consumer, the retry poller and the retention cleaner; and the
  configuration and construction of the Kafka consumer in \<^verbatim>\<open>internal/kafka/consumer.go\<close>.

  \<open>worker_deps\<close> holds what the process meets outside of its code: what the drivers of PostgreSQL,
  Redis and Kafka and the operating system answer to its calls, and the operations on the
  world \<open>'w\<close> that the handler and the readiness checks are given.  Starting and stopping act on
  the trail of \<^verbatim>\<open>Lifecycle\<close>.

  The theory shows that a start that fails leaves nothing behind, that a shutdown closes
  everything in an order in which no worker loses its database, that a validated configuration
  reaches every component unchanged, and what a worker does whose Redis address cannot be
  parsed.
\<close>

subsection \<open>The Kafka consumer\<close>

record ConsumerConfig =
  cc_Brokers :: "string list"
  cc_Topic :: string
  cc_GroupID :: string
  cc_InstanceID :: string
  cc_BatchTimeout :: Duration
  cc_CommitTimeout :: Duration

definition DefaultConsumerConfig :: ConsumerConfig where
  "DefaultConsumerConfig = \<lparr>cc_Brokers = [], cc_Topic = [], cc_GroupID = [], cc_InstanceID = [],
     cc_BatchTimeout = 100 * Millisecond, cc_CommitTimeout = 5 * Second\<rparr>"

datatype start_offset = FirstOffset | LastOffset

record ReaderConfig =
  rd_Brokers :: "string list"
  rd_Topic :: string
  rd_GroupID :: string
  rd_MinBytes :: int
  rd_MaxBytes :: int
  rd_MaxWait :: Duration
  rd_CommitInterval :: Duration
  rd_StartOffset :: start_offset
  rd_GroupBalancers :: "string list"
  rd_ReadCommitted :: bool

definition reader_config :: "ConsumerConfig \<Rightarrow> ReaderConfig" where
  "reader_config config =
     \<lparr>rd_Brokers = cc_Brokers config, rd_Topic = cc_Topic config, rd_GroupID = cc_GroupID config,
      rd_MinBytes = 1, rd_MaxBytes = 10000000, rd_MaxWait = cc_BatchTimeout config, rd_CommitInterval = 0,
      rd_StartOffset = LastOffset, rd_GroupBalancers = [''range'', ''roundrobin''], rd_ReadCommitted = True\<rparr>"

text \<open>A new reader panics when its configuration is not accepted; \<open>newReader\<close> is that check.\<close>

definition NewConsumer ::
  "(ReaderConfig \<Rightarrow> error option) \<Rightarrow> ConsumerConfig \<Rightarrow> trail \<Rightarrow> (error + ReaderConfig) \<times> trail" where
  "NewConsumer newReader config tr =
     (let rc = reader_config config
      in case newReader rc of
           Some err \<Rightarrow> (Inl err, tr)
         | None \<Rightarrow> (Inr rc, tr @ [Opened KafkaReader]))"

definition Consumer_Start :: "trail \<Rightarrow> trail" where
  "Consumer_Start tr = tr @ [Spawned ConsumeLoop]"

text \<open>\<open>stopped\<close> says whether \<open>stopOnce\<close> has run.\<close>

definition Consumer_Stop :: "bool \<Rightarrow> trail \<Rightarrow> bool \<times> trail" where
  "Consumer_Stop stopped tr =
     (if stopped then (True, tr) else (True, tr @ [Joined ConsumeLoop, Closed KafkaReader]))"

subsection \<open>Dependencies\<close>

record pool_config =
  pq_conn :: string
  pq_MaxConns :: int
  pq_MinConns :: int

record redis_options =
  ro_conn :: string
  ro_DialTimeout :: Duration
  ro_ReadTimeout :: Duration
  ro_WriteTimeout :: Duration

record ('w, 'c) worker_deps =
  wd_ParseConfig :: "string \<Rightarrow> error + pool_config"
  wd_NewWithConfig :: "pool_config \<Rightarrow> error option"
  wd_Ping :: "error option"
  wd_ParseURL :: "string \<Rightarrow> error + redis_options"
  wd_Listen :: "string \<Rightarrow> error + string"
  wd_NewReader :: "ReaderConfig \<Rightarrow> error option"
  wd_poolPing :: "'w checker"
  wd_net :: "('w, 'c) kafka_net"
  wd_redisPing :: "Duration \<Rightarrow> redis_options option \<Rightarrow> 'w checker"
  wd_runtime :: "'w go_runtime"
  wd_eventRepo :: "'w DeliveryRuntimeRepository"
  wd_subRepo :: "string list \<Rightarrow> 'w \<Rightarrow> (error + (string \<rightharpoonup> Subscription list)) \<times> 'w"
  wd_localAllow :: "real \<Rightarrow> string \<Rightarrow> RatePolicy \<Rightarrow> 'w \<Rightarrow> (RateLimitDecision \<times> error option) \<times> 'w"
  wd_redisAllow :: "redis_options \<Rightarrow> RedisRateLimiter \<Rightarrow> string \<Rightarrow> RatePolicy \<Rightarrow> 'w \<Rightarrow> (RateLimitDecision \<times> error option) \<times> 'w"
  wd_observe :: "delivery_observation \<Rightarrow> 'w \<Rightarrow> 'w"

subsection \<open>The parts\<close>

definition connectDB :: "('w, 'c) worker_deps \<Rightarrow> WorkerConfig \<Rightarrow> trail \<Rightarrow> (error + pool_config) \<times> trail" where
  "connectDB d cfg tr =
     (case wd_ParseConfig d (wk_DatabaseURL cfg) of
        Inl err \<Rightarrow> (Inl err, tr)
      | Inr poolConfig \<Rightarrow>
          (let poolConfig = poolConfig\<lparr>pq_MaxConns := wk_DBMaxConns cfg, pq_MinConns := wk_DBMaxConns cfg sdiv 3\<rparr>
           in case wd_NewWithConfig d poolConfig of
                Some err \<Rightarrow> (Inl err, tr)
              | None \<Rightarrow>
                  (case wd_Ping d of
                     Some err \<Rightarrow> (Inl err, tr @ [Opened PgPool, Closed PgPool])
                   | None \<Rightarrow> (Inr poolConfig, tr @ [Opened PgPool]))))"

datatype rate_limiter =
    LocalLimiter real
  | FailClosedLimiter Duration
  | RedisLimiter redis_options RedisRateLimiter

definition DefaultRateLimiterConfig :: real where
  "DefaultRateLimiterConfig = 100"

definition DefaultRedisRateLimiterConfig :: Duration where
  "DefaultRedisRateLimiterConfig = Second"

definition configureRedisTimeouts :: "redis_options \<Rightarrow> redis_options" where
  "configureRedisTimeouts opt =
     (let timeout = 500 * Millisecond
      in opt\<lparr>ro_DialTimeout := timeout, ro_ReadTimeout := timeout, ro_WriteTimeout := timeout\<rparr>)"

text \<open>The limiter and the client, which is a pointer that may be nil.  The ping of a new client only
  decides what is logged.\<close>

definition initRateLimiter ::
  "('w, 'c) worker_deps \<Rightarrow> WorkerConfig \<Rightarrow> trail \<Rightarrow> (rate_limiter \<times> redis_options option) \<times> trail" where
  "initRateLimiter d cfg tr =
     (if wk_RedisURL cfg = [] then ((LocalLimiter DefaultRateLimiterConfig, None), tr)
      else
        (case wd_ParseURL d (wk_RedisURL cfg) of
           Inl err \<Rightarrow> ((FailClosedLimiter (NewFailClosedRateLimiter Second), None), tr)
         | Inr opt \<Rightarrow>
             (let opt = configureRedisTimeouts opt
              in ((RedisLimiter opt (NewRedisRateLimiter DefaultRedisRateLimiterConfig), Some opt),
                  tr @ [Opened RedisClient]))))"

definition limiter_Allow ::
  "('w, 'c) worker_deps \<Rightarrow> rate_limiter \<Rightarrow> string \<Rightarrow> RatePolicy \<Rightarrow> 'w \<Rightarrow> (RateLimitDecision \<times> error option) \<times> 'w" where
  "limiter_Allow d limiter sub policy w =
     (case limiter of
        LocalLimiter config \<Rightarrow> wd_localAllow d config sub policy w
      | FailClosedLimiter retryAfter \<Rightarrow> (FailClosed_Allow retryAfter sub policy, w)
      | RedisLimiter client rl \<Rightarrow> wd_redisAllow d client rl sub policy w)"

text \<open>The program has made its logger the default one.\<close>

definition buildDeliveryHandler ::
  "('w, 'c) worker_deps \<Rightarrow> WorkerConfig \<Rightarrow> rate_limiter \<Rightarrow> 'w configured_handler" where
  "buildDeliveryHandler d cfg rateLimiter =
     NewDeliveryHandler (wd_runtime d) (wd_eventRepo d) (wd_subRepo d)
       [WithRetryPolicy DefaultPolicy,
        WithClaimIdentity (wk_InstanceID cfg) (wk_RetryLeaseDuration cfg),
        WithRateLimiter (Some (limiter_Allow d rateLimiter)),
        WithLogger (gr_Logger (wd_runtime d)),
        WithDeliveryObserver (Some (wd_observe d))]"

definition startMetricsServer :: "('w, 'c) worker_deps \<Rightarrow> string \<Rightarrow> trail \<Rightarrow> (error + string) \<times> trail" where
  "startMetricsServer d addr tr =
     (case wd_Listen d addr of
        Inl err \<Rightarrow> (Inl err, tr)
      | Inr listener \<Rightarrow> (Inr listener, tr @ [Opened HttpListener, Spawned HttpServer]))"

text \<open>The routes of the metrics server; without a health handler only the first exists.\<close>

datatype observability_route = MetricsRoute | HealthRoute | ReadyRoute

definition workerObservabilityHandler :: "'w HealthHandler option \<Rightarrow> string \<Rightarrow> observability_route option" where
  "workerObservabilityHandler healthHandler path =
     (if path = ''/metrics'' then Some MetricsRoute
      else if healthHandler \<noteq> None \<and> path = ''/health'' then Some HealthRoute
      else if healthHandler \<noteq> None \<and> path = ''/ready'' then Some ReadyRoute
      else None)"

definition startConsumer :: "('w, 'c) worker_deps \<Rightarrow> WorkerConfig \<Rightarrow> trail \<Rightarrow> (error + ReaderConfig) \<times> trail" where
  "startConsumer d cfg tr =
     (let consumerConfig = DefaultConsumerConfig
            \<lparr>cc_Brokers := wk_KafkaBrokers cfg, cc_Topic := wk_KafkaTopic cfg, cc_GroupID := wk_KafkaConsumerGroup cfg,
             cc_InstanceID := wk_InstanceID cfg\<rparr>
      in case NewConsumer (wd_NewReader d) consumerConfig tr of
           (Inl err, tr) \<Rightarrow> (Inl err, tr)
         | (Inr rc, tr) \<Rightarrow> (Inr rc, Consumer_Start tr))"

definition startRetryPoller :: "WorkerConfig \<Rightarrow> trail \<Rightarrow> (error + PollerConfig) \<times> trail" where
  "startRetryPoller cfg tr =
     (let pollerConfig = DefaultPollerConfig
            \<lparr>pc_PollInterval := wk_RetryPollInterval cfg, pc_BatchSize := wk_RetryBatchSize cfg,
             pc_MaxConcurrentBatches := wk_RetryMaxConcurrentBatches cfg, pc_InstanceID := wk_InstanceID cfg,
             pc_LeaseDuration := wk_RetryLeaseDuration cfg\<rparr>
      in case NewPoller pollerConfig of
           Inl err \<Rightarrow> (Inl err, tr)
         | Inr pc \<Rightarrow> (Inr pc, tr @ [Spawned RetryPoller]))"

definition startRetentionCleaner :: "WorkerConfig \<Rightarrow> trail \<Rightarrow> RetentionConfig \<times> trail" where
  "startRetentionCleaner cfg tr =
     (NewCleaner \<lparr>rc_AttemptBodyRetention = wk_AttemptBodyRetention cfg, rc_EventRetention = wk_EventRetention cfg,
        rc_Interval = wk_RetentionCleanupInterval cfg, rc_BatchSize = wk_RetentionBatchSize cfg\<rparr>,
      tr @ [Spawned RetentionCleaner])"

subsection \<open>Start and shutdown\<close>

record 'w WorkerService =
  ws_pool :: pool_config
  ws_redisClient :: "redis_options option"
  ws_consumer :: ReaderConfig
  ws_consumerStopped :: bool
  ws_retryPoller :: PollerConfig
  ws_retentionCleaner :: RetentionConfig
  ws_listener :: string
  ws_health :: "'w HealthHandler"
  ws_handler :: "'w configured_handler"

definition worker_checks ::
  "('w, 'c) worker_deps \<Rightarrow> WorkerConfig \<Rightarrow> redis_options option \<Rightarrow> 'w ReadinessCheck list" where
  "worker_checks d cfg redisClient =
     (let readinessChecks =
            [databaseReadinessCheck (wd_poolPing d),
             kafkaReadinessCheck (wd_net d) (wk_KafkaBrokers cfg) (wk_KafkaTopic cfg)]
      in case redisReadinessCheck (wd_redisPing d) (wk_RedisURL cfg) (Pointer redisClient) of
           None \<Rightarrow> readinessChecks
         | Some redisCheck \<Rightarrow> readinessChecks @ [redisCheck])"

definition StartWorkerService ::
  "('w, 'c) worker_deps \<Rightarrow> WorkerConfig \<Rightarrow> trail \<Rightarrow> 'w WorkerService start_result \<times> trail" where
  "StartWorkerService d cfg tr =
     (case connectDB d cfg tr of
        (Inl err, tr) \<Rightarrow> (Refused err, tr @ [Cancelled])
      | (Inr pool, tr) \<Rightarrow>
          (let ((rateLimiter, redisClient), tr) = initRateLimiter d cfg tr;
               healthHandler = NewHealthHandler (worker_checks d cfg redisClient)
           in case startMetricsServer d (wk_MetricsAddr cfg) tr of
                (Inl err, tr) \<Rightarrow>
                  (Refused err,
                   tr @ [Cancelled] @ (if redisClient \<noteq> None then [Closed RedisClient] else []) @ [Closed PgPool])
              | (Inr listener, tr) \<Rightarrow>
                  (let handler = buildDeliveryHandler d cfg rateLimiter
                   in case startConsumer d cfg tr of
                        (Inl err, tr) \<Rightarrow> (Panicked err, tr)
                      | (Inr consumer, tr) \<Rightarrow>
                          (case startRetryPoller cfg tr of
                             (Inl err, tr) \<Rightarrow> (Panicked err, tr)
                           | (Inr retryPoller, tr) \<Rightarrow>
                               (let (retentionCleaner, tr) = startRetentionCleaner cfg tr;
                                    healthHandler = SetReady True healthHandler
                                in (Started \<lparr>ws_pool = pool, ws_redisClient = redisClient, ws_consumer = consumer,
                                      ws_consumerStopped = False, ws_retryPoller = retryPoller,
                                      ws_retentionCleaner = retentionCleaner, ws_listener = listener,
                                      ws_health = healthHandler, ws_handler = handler\<rparr>, tr))))))"

definition MetricsAddr :: "'w WorkerService \<Rightarrow> string" where
  "MetricsAddr w = reachable_addr (ws_listener w)"

text \<open>
  What a shutdown meets: whether the goroutines of the poller and of the cleaner have been
  scheduled by now, and the errors of the server's shutdown (its context may expire) and of
  closing the client.  \<open>Stop\<close> of the poller and of the cleaner waits only for a goroutine that
  has started.
\<close>

record shutdown_env =
  sh_pollerStarted :: bool
  sh_cleanerStarted :: bool
  sh_serverErr :: "error option"
  sh_redisErr :: "error option"

definition Poller_Stop :: "bool \<Rightarrow> trail \<Rightarrow> trail" where
  "Poller_Stop hasStarted tr = (if hasStarted then tr @ [Joined RetryPoller] else tr)"

definition Cleaner_Stop :: "bool \<Rightarrow> trail \<Rightarrow> trail" where
  "Cleaner_Stop hasStarted tr = (if hasStarted then tr @ [Joined RetentionCleaner] else tr)"

definition WorkerService_Shutdown ::
  "shutdown_env \<Rightarrow> 'w WorkerService \<Rightarrow> trail \<Rightarrow> (error option \<times> 'w WorkerService) \<times> trail" where
  "WorkerService_Shutdown e w tr =
     (let tr = tr @ [Cancelled];
          (stopped, tr) = Consumer_Stop (ws_consumerStopped w) tr;
          tr = Poller_Stop (sh_pollerStarted e) tr;
          tr = Cleaner_Stop (sh_cleanerStarted e) tr;
          tr = server_Shutdown (sh_serverErr e) tr;
          (redisErr, tr) = (if ws_redisClient w \<noteq> None then (sh_redisErr e, tr @ [Closed RedisClient]) else (None, tr));
          tr = tr @ [Closed PgPool]
      in ((errors_Join [sh_serverErr e, redisErr], w\<lparr>ws_consumerStopped := stopped\<rparr>), tr))"

definition worker_main ::
  "('w, 'c) worker_deps \<Rightarrow> shutdown_env \<Rightarrow> shutdown_env \<Rightarrow> environment \<Rightarrow> exit \<times> trail" where
  "worker_main d e1 e2 env =
     (let cfg = ParseWorkerConfig env
      in if WorkerConfig_Validate cfg \<noteq> None then (Exit 1, [])
         else
           (case run_service (StartWorkerService d cfg []) WorkerService_Shutdown e1 e2 of
              (Refused err, tr) \<Rightarrow> (Exit 1, tr)
            | (Panicked err, tr) \<Rightarrow> (Crash, tr)
            | (Started None, tr) \<Rightarrow> (Exit 0, tr)
            | (Started (Some err), tr) \<Rightarrow> (Exit 1, tr)))"

subsection \<open>The trail of a start\<close>

lemma connectDB_trail:
  assumes "connectDB d cfg tr = (r, tr')"
  shows "case r of Inl _ \<Rightarrow> tr' \<in> {tr, tr @ [Opened PgPool, Closed PgPool]}
    | Inr pool \<Rightarrow> tr' = tr @ [Opened PgPool] \<and> (\<exists>parsed. wd_ParseConfig d (wk_DatabaseURL cfg) = Inr parsed
        \<and> pool = parsed\<lparr>pq_MaxConns := wk_DBMaxConns cfg, pq_MinConns := wk_DBMaxConns cfg sdiv 3\<rparr>)"
  using assms by (auto simp: connectDB_def Let_def split: sum.splits option.splits)

lemma initRateLimiter_trail:
  assumes "initRateLimiter d cfg tr = ((limiter, client), tr')"
  shows "tr' = tr @ (if client \<noteq> None then [Opened RedisClient] else [])"
  using assms by (auto simp: initRateLimiter_def Let_def split: sum.splits if_splits)

lemma initRateLimiter_result: "fst (initRateLimiter d cfg tr) = fst (initRateLimiter d cfg [])"
  by (simp add: initRateLimiter_def Let_def split: sum.split)

lemma start_parts_trail:
  "startConsumer d cfg tr = (fst (startConsumer d cfg []),
     tr @ (case fst (startConsumer d cfg []) of Inl _ \<Rightarrow> [] | Inr _ \<Rightarrow> [Opened KafkaReader, Spawned ConsumeLoop]))"
  "startRetryPoller cfg tr = (fst (startRetryPoller cfg []),
     tr @ (case fst (startRetryPoller cfg []) of Inl _ \<Rightarrow> [] | Inr _ \<Rightarrow> [Spawned RetryPoller]))"
  "startRetentionCleaner cfg tr = (fst (startRetentionCleaner cfg []), tr @ [Spawned RetentionCleaner])"
  by (auto simp: startConsumer_def NewConsumer_def Consumer_Start_def startRetryPoller_def startRetentionCleaner_def
      Let_def split: option.split sum.split)

text \<open>The rest of a start, once the database and the listener are there.\<close>

lemma start_behind_listener:
  assumes "connectDB d cfg [] = (Inr pool, tr1)" "initRateLimiter d cfg tr1 = ((limiter, client), tr2)"
    "wd_Listen d (wk_MetricsAddr cfg) = Inr l"
  shows "fst (startConsumer d cfg []) = Inl err \<Longrightarrow> \<exists>tr. StartWorkerService d cfg [] = (Panicked err, tr)"
    and "fst (startConsumer d cfg []) = Inr rc \<Longrightarrow> fst (startRetryPoller cfg []) = Inl err
      \<Longrightarrow> \<exists>tr. StartWorkerService d cfg [] = (Panicked err, tr)"
    and "fst (startConsumer d cfg []) = Inr rc \<Longrightarrow> fst (startRetryPoller cfg []) = Inr pc
      \<Longrightarrow> StartWorkerService d cfg [] = (Started \<lparr>ws_pool = pool, ws_redisClient = client, ws_consumer = rc,
            ws_consumerStopped = False, ws_retryPoller = pc, ws_retentionCleaner = fst (startRetentionCleaner cfg []),
            ws_listener = l, ws_health = SetReady True (NewHealthHandler (worker_checks d cfg client)),
            ws_handler = buildDeliveryHandler d cfg limiter\<rparr>,
          tr2 @ [Opened HttpListener, Spawned HttpServer, Opened KafkaReader, Spawned ConsumeLoop,
            Spawned RetryPoller, Spawned RetentionCleaner])"
proof -
  let ?tr3 = "tr2 @ [Opened HttpListener, Spawned HttpServer]"
  let ?tr4 = "?tr3 @ [Opened KafkaReader, Spawned ConsumeLoop]"
  note unfold = StartWorkerService_def startMetricsServer_def startRetentionCleaner_def Let_def
  note parts = assms start_parts_trail(1) [of d cfg ?tr3] start_parts_trail(2) [of cfg ?tr4]
  show "\<exists>tr. StartWorkerService d cfg [] = (Panicked err, tr)" if "fst (startConsumer d cfg []) = Inl err"
    using parts that by (simp add: unfold)
  assume rc: "fst (startConsumer d cfg []) = Inr rc"
  show "\<exists>tr. StartWorkerService d cfg [] = (Panicked err, tr)" if "fst (startRetryPoller cfg []) = Inl err"
    using parts rc that by (simp add: unfold)
  show "StartWorkerService d cfg [] = (Started \<lparr>ws_pool = pool, ws_redisClient = client, ws_consumer = rc,
      ws_consumerStopped = False, ws_retryPoller = pc, ws_retentionCleaner = fst (startRetentionCleaner cfg []),
      ws_listener = l, ws_health = SetReady True (NewHealthHandler (worker_checks d cfg client)),
      ws_handler = buildDeliveryHandler d cfg limiter\<rparr>,
    tr2 @ [Opened HttpListener, Spawned HttpServer, Opened KafkaReader, Spawned ConsumeLoop,
      Spawned RetryPoller, Spawned RetentionCleaner])" if "fst (startRetryPoller cfg []) = Inr pc"
    using parts rc that by (simp add: unfold)
qed

text \<open>The ways a start can go, with the trail of each.\<close>

lemma StartWorkerService_cases:
  assumes "StartWorkerService d cfg [] = (r, tr)"
  obtains (no_database) err tr0 where "r = Refused err" "tr0 \<in> {[], [Opened PgPool, Closed PgPool]}" "tr = tr0 @ [Cancelled]"
  | (no_listener) err client where "r = Refused err"
      "tr = [Opened PgPool] @ (if client then [Opened RedisClient] else []) @ [Cancelled]
         @ (if client then [Closed RedisClient] else []) @ [Closed PgPool]"
  | (panic) err where "r = Panicked err"
      "fst (startConsumer d cfg []) = Inl err \<or> fst (startRetryPoller cfg []) = Inl err"
  | (ok) w limiter where "r = Started w"
      "fst (initRateLimiter d cfg []) = (limiter, ws_redisClient w)"
      "ws_handler w = buildDeliveryHandler d cfg limiter"
      "\<exists>parsed. wd_ParseConfig d (wk_DatabaseURL cfg) = Inr parsed
         \<and> ws_pool w = parsed\<lparr>pq_MaxConns := wk_DBMaxConns cfg, pq_MinConns := wk_DBMaxConns cfg sdiv 3\<rparr>"
      "fst (startConsumer d cfg []) = Inr (ws_consumer w)"
      "fst (startRetryPoller cfg []) = Inr (ws_retryPoller w)"
      "ws_retentionCleaner w = fst (startRetentionCleaner cfg [])"
      "ws_health w = SetReady True (NewHealthHandler (worker_checks d cfg (ws_redisClient w)))"
      "ws_consumerStopped w = False"
      "tr = [Opened PgPool] @ (if ws_redisClient w \<noteq> None then [Opened RedisClient] else [])
         @ [Opened HttpListener, Spawned HttpServer, Opened KafkaReader, Spawned ConsumeLoop,
            Spawned RetryPoller, Spawned RetentionCleaner]"
proof -
  obtain q tr1 where 1: "connectDB d cfg [] = (q, tr1)" by fastforce
  obtain limiter client tr2 where 2: "initRateLimiter d cfg tr1 = ((limiter, client), tr2)" by (metis prod.exhaust)
  note trails = connectDB_trail [OF 1] initRateLimiter_trail [OF 2]
  consider (db) err where "q = Inl err" | (listen) pool err where "q = Inr pool" "wd_Listen d (wk_MetricsAddr cfg) = Inl err"
    | (up) pool l where "q = Inr pool" "wd_Listen d (wk_MetricsAddr cfg) = Inr l"
    by (metis sum.exhaust)
  then show ?thesis
  proof cases
    case (db err)
    with 1 trails assms show ?thesis by (intro no_database [of err tr1]) (simp_all add: StartWorkerService_def)
  next
    case (listen pool err)
    with 1 2 trails assms show ?thesis
      by (intro no_listener [of err "client \<noteq> None"]) (simp_all add: StartWorkerService_def startMetricsServer_def Let_def)
  next
    case (up pool l)
    note rest = start_behind_listener [OF 1 [unfolded up(1)] 2 up(2)]
    have client: "fst (initRateLimiter d cfg []) = (limiter, client)"
      using initRateLimiter_result [of d cfg tr1] 2 by simp
    show ?thesis
    proof (cases "fst (startConsumer d cfg [])"; cases "fst (startRetryPoller cfg [])")
      fix rc pc assume rc: "fst (startConsumer d cfg []) = Inr rc" and pc: "fst (startRetryPoller cfg []) = Inr pc"
      from rest(3) [OF this] assms show ?thesis
        by (intro ok) (use client trails up(1) rc pc in auto)
    qed (use rest(1,2) assms panic in fastforce)+
  qed
qed

text \<open>The reader the worker asks for.\<close>

definition worker_reader :: "WorkerConfig \<Rightarrow> ReaderConfig" where
  "worker_reader cfg =
     \<lparr>rd_Brokers = wk_KafkaBrokers cfg, rd_Topic = wk_KafkaTopic cfg, rd_GroupID = wk_KafkaConsumerGroup cfg,
      rd_MinBytes = 1, rd_MaxBytes = 10000000, rd_MaxWait = 100 * Millisecond, rd_CommitInterval = 0,
      rd_StartOffset = LastOffset, rd_GroupBalancers = [''range'', ''roundrobin''], rd_ReadCommitted = True\<rparr>"

lemma startConsumer_reader:
  "fst (startConsumer d cfg []) = Inl err \<Longrightarrow> wd_NewReader d (worker_reader cfg) = Some err"
  "fst (startConsumer d cfg []) = Inr rc \<Longrightarrow> rc = worker_reader cfg"
  by (auto simp: startConsumer_def NewConsumer_def reader_config_def worker_reader_def DefaultConsumerConfig_def Let_def
      split: option.splits)

lemma startConsumer_panics:
  assumes "fst (startConsumer d cfg []) = Inl err"
  shows "\<exists>rc. rd_Brokers rc = wk_KafkaBrokers cfg \<and> rd_Topic rc = wk_KafkaTopic cfg
    \<and> rd_GroupID rc = wk_KafkaConsumerGroup cfg \<and> wd_NewReader d rc = Some err"
  by (intro exI [of _ "worker_reader cfg"]) (simp add: startConsumer_reader(1) [OF assms], simp add: worker_reader_def)

lemma startRetryPoller_panics:
  "fst (startRetryPoller cfg []) = Inl err \<Longrightarrow> wk_RetryMaxConcurrentBatches cfg < 0"
  by (auto simp: startRetryPoller_def NewPoller_def Let_def split: if_splits)

lemma panicked_reader:
  assumes "StartWorkerService d cfg [] = (Panicked err, tr)" "\<not> wk_RetryMaxConcurrentBatches cfg < 0"
  shows "wd_NewReader d (worker_reader cfg) = Some err"
  using assms(1)
  by (cases rule: StartWorkerService_cases) (use assms(2) startConsumer_reader(1) startRetryPoller_panics in blast)+

lemma panicked_start:
  assumes "StartWorkerService d cfg [] = (Panicked err, tr)"
  shows "wk_RetryMaxConcurrentBatches cfg < 0 \<or> (\<exists>rc. rd_Brokers rc = wk_KafkaBrokers cfg
    \<and> rd_Topic rc = wk_KafkaTopic cfg \<and> rd_GroupID rc = wk_KafkaConsumerGroup cfg \<and> wd_NewReader d rc = Some err)"
  using assms by (cases rule: StartWorkerService_cases) (use startConsumer_panics startRetryPoller_panics in blast)+

subsection \<open>The trail of a shutdown\<close>

text \<open>The goroutines a shutdown may leave behind: those not scheduled yet, and requests that outlast
  the context.\<close>

definition left_behind :: "shutdown_env \<Rightarrow> routine set" where
  "left_behind e = (if sh_pollerStarted e then {} else {RetryPoller})
     \<union> (if sh_cleanerStarted e then {} else {RetentionCleaner})
     \<union> (if sh_serverErr e = None then {} else {HttpServer})"

lemma Shutdown_trail:
  obtains mid where "snd (WorkerService_Shutdown e w tr) = tr @ mid @ [Closed PgPool]" "list_all closing mid"
    "{r. Closed r \<in> set mid} = {HttpListener} \<union> (if ws_consumerStopped w then {} else {KafkaReader})
       \<union> (if ws_redisClient w \<noteq> None then {RedisClient} else {})"
    "{g. Joined g \<in> set mid} = - left_behind e - (if ws_consumerStopped w then {ConsumeLoop} else {})"
proof -
  let ?mid = "[Cancelled] @ (if ws_consumerStopped w then [] else [Joined ConsumeLoop, Closed KafkaReader])
    @ (if sh_pollerStarted e then [Joined RetryPoller] else []) @ (if sh_cleanerStarted e then [Joined RetentionCleaner] else [])
    @ [Closed HttpListener] @ (if sh_serverErr e = None then [Joined HttpServer] else [])
    @ (if ws_redisClient w \<noteq> None then [Closed RedisClient] else [])"
  have routine: "UNIV = {ConsumeLoop, RetryPoller, RetentionCleaner, HttpServer}" using routine.exhaust by blast
  show ?thesis
  proof (rule that [of ?mid])
    show "snd (WorkerService_Shutdown e w tr) = tr @ ?mid @ [Closed PgPool]"
      by (simp add: WorkerService_Shutdown_def Consumer_Stop_def Poller_Stop_def Cleaner_Stop_def server_Shutdown_def Let_def)
    show "{g. Joined g \<in> set ?mid} = - left_behind e - (if ws_consumerStopped w then {ConsumeLoop} else {})"
      by (auto simp: left_behind_def Compl_eq_Diff_UNIV routine)
  qed (auto simp: closing_def)
qed

lemma start_then_shutdown:
  assumes "StartWorkerService d cfg [] = (Started w, tr)"
  shows "open_after tr = {PgPool, HttpListener, KafkaReader} \<union> (if ws_redisClient w \<noteq> None then {RedisClient} else {})"
    and "running_after tr = UNIV" and "hh_ready (ws_health w)"
    and "\<exists>before. snd (WorkerService_Shutdown e w tr) = before @ [Closed PgPool]
      \<and> open_after before = {PgPool} \<and> running_after before = left_behind e"
proof -
  from assms show opened: "open_after tr = {PgPool, HttpListener, KafkaReader}
      \<union> (if ws_redisClient w \<noteq> None then {RedisClient} else {})"
    and running: "running_after tr = UNIV" and "hh_ready (ws_health w)"
    by (cases rule: StartWorkerService_cases;
        auto simp: open_after_def running_after_def SetReady_def intro: routine.exhaust split: if_splits)+
  from assms have stopped: "\<not> ws_consumerStopped w" by (cases rule: StartWorkerService_cases) auto
  obtain mid where mid: "snd (WorkerService_Shutdown e w tr) = tr @ mid @ [Closed PgPool]" "list_all closing mid"
    "{r. Closed r \<in> set mid} = {HttpListener, KafkaReader} \<union> (if ws_redisClient w \<noteq> None then {RedisClient} else {})"
    "{g. Joined g \<in> set mid} = - left_behind e"
    by (rule Shutdown_trail [of e w tr]) (use stopped in auto)
  have "open_after (tr @ mid) = {PgPool}" "running_after (tr @ mid) = left_behind e"
    unfolding open_after_append running_after_append fold_closing [OF mid(2)] mid(3,4) opened running by auto
  with mid(1) show "\<exists>before. snd (WorkerService_Shutdown e w tr) = before @ [Closed PgPool]
      \<and> open_after before = {PgPool} \<and> running_after before = left_behind e"
    by (intro exI [of _ "tr @ mid"]) simp
qed

lemma refused_start:
  assumes "StartWorkerService d cfg [] = (Refused err, tr)"
  shows "open_after tr = {}" "running_after tr = {}" "Cancelled \<in> set tr"
  using assms by (cases rule: StartWorkerService_cases; auto simp: open_after_def running_after_def)+

interpretation worker_process: service "StartWorkerService d cfg []" WorkerService_Shutdown
proof
  show "open_after (snd (WorkerService_Shutdown e s tr)) = {}" if "StartWorkerService d cfg [] = (Started s, tr)" for s tr e
    using start_then_shutdown(4) [OF that, of e] by (auto simp: open_after_append)
  show "\<exists>tr'. snd (WorkerService_Shutdown e s tr) = tr @ tr' \<and> list_all closing tr'"
    for e and s :: "'a WorkerService" and tr
    by (rule Shutdown_trail [of e s tr]) (auto simp: closing_def)
qed (use refused_start in blast)

subsection \<open>Properties of the process\<close>

lemma validated:
  assumes "WorkerConfig_Validate cfg = None"
  shows "0 < wk_DBMaxConns cfg" "wk_KafkaBrokers cfg \<noteq> []" "wk_KafkaTopic cfg \<noteq> []" "wk_KafkaConsumerGroup cfg \<noteq> []"
    "0 < wk_RetryPollInterval cfg" "0 < wk_RetryBatchSize cfg" "0 < wk_RetryMaxConcurrentBatches cfg"
    "wk_InstanceID cfg \<noteq> []" "0 < wk_RetryLeaseDuration cfg" "0 < wk_AttemptBodyRetention cfg"
    "wk_AttemptBodyRetention cfg \<le> wk_EventRetention cfg" "0 < wk_RetentionCleanupInterval cfg"
    "0 < wk_RetentionBatchSize cfg"
  using assms by (auto simp: WorkerConfig_Validate_def no_brokers_def not_le split: if_splits)

text \<open>A worker to try the properties on: everything answers, and Redis addresses are refused.\<close>

definition sample_deps :: "(worker_world, unit) worker_deps" where
  "sample_deps = \<lparr>wd_ParseConfig = (\<lambda>url. Inr \<lparr>pq_conn = url, pq_MaxConns = 4, pq_MinConns = 0\<rparr>),
     wd_NewWithConfig = (\<lambda>_. None), wd_Ping = None, wd_ParseURL = (\<lambda>_. Inl (ErrText ''invalid URL scheme'')),
     wd_Listen = (\<lambda>addr. Inr (''[::]'' @ addr)), wd_NewReader = (\<lambda>_. None), wd_poolPing = (\<lambda>w. (Some None, w)),
     wd_net = \<lparr>kn_Dial = (\<lambda>_ _ _ w. (Inr (), w)), kn_ReadPartitions = (\<lambda>_ _ w. (Inr [0], w)), kn_Close = (\<lambda>_ w. w)\<rparr>,
     wd_redisPing = (\<lambda>_ _ w. (None, w)), wd_runtime = worker_runtime (\<lambda>_. None), wd_eventRepo = pg_runtime_repository,
     wd_subRepo = pg_GetByEventTypes, wd_localAllow = (\<lambda>_. ww_Allow), wd_redisAllow = (\<lambda>_ _. ww_Allow),
     wd_observe = ww_observe\<rparr>"

definition sample_cfg :: WorkerConfig where
  "sample_cfg = (ParseWorkerConfig (\<lambda>_. []))\<lparr>wk_RedisURL := ''redis:/bad''\<rparr>"

lemma sample_cfg_valid: "WorkerConfig_Validate sample_cfg = None" "WorkerConfig_Validate (ParseWorkerConfig (\<lambda>_. [])) = None"
  by (simp_all add: sample_cfg_def ParseWorkerConfig_def WorkerConfig_Validate_def envOrDefault_def envIntOrDefault_def
      envDurationOrDefault_def splitEnvOrDefault_def no_brokers_def int32_def default_database_def)

lemma sample_start:
  obtains w tr where "StartWorkerService sample_deps sample_cfg [] = (Started w, tr)"
proof -
  obtain P where 1: "connectDB sample_deps sample_cfg [] = (Inr P, [Opened PgPool])"
    by (simp add: connectDB_def sample_deps_def Let_def)
  have redis: "wk_RedisURL sample_cfg = ''redis:/bad''" by (simp add: sample_cfg_def)
  have 2: "initRateLimiter sample_deps sample_cfg t = ((FailClosedLimiter Second, None), t)" for t
    by (simp add: initRateLimiter_def redis sample_deps_def NewFailClosedRateLimiter_def)
  have 3: "startMetricsServer sample_deps a t = (Inr (''[::]'' @ a), t @ [Opened HttpListener, Spawned HttpServer])" for a t
    by (simp add: startMetricsServer_def sample_deps_def)
  have 4: "\<exists>rc. startConsumer sample_deps sample_cfg t = (Inr rc, t @ [Opened KafkaReader, Spawned ConsumeLoop])" for t
    by (simp add: startConsumer_def NewConsumer_def Consumer_Start_def sample_deps_def Let_def)
  have "fst (startRetryPoller sample_cfg []) \<noteq> Inl err" for err
    using startRetryPoller_panics [of sample_cfg err] validated(7) [OF sample_cfg_valid(1)] by auto
  then obtain pc where "fst (startRetryPoller sample_cfg []) = Inr pc" by (metis sum.exhaust)
  then have 5: "startRetryPoller sample_cfg t = (Inr pc, t @ [Spawned RetryPoller])" for t
    using start_parts_trail(2) [of sample_cfg t] by simp
  obtain rc where 4: "startConsumer sample_deps sample_cfg ([Opened PgPool] @ [Opened HttpListener, Spawned HttpServer])
      = (Inr rc, ([Opened PgPool] @ [Opened HttpListener, Spawned HttpServer]) @ [Opened KafkaReader, Spawned ConsumeLoop])"
    using 4 by blast
  show ?thesis
    by (rule that) (simp only: StartWorkerService_def 1 2 3 4 5 Let_def prod.case sum.case split_def fst_conv snd_conv)
qed

text \<open>C36 Starting a worker is all or nothing, and a shutdown leaves nothing open.  A start that returns
  an error has cancelled its context, has no goroutine running and no resource open; a panic
  comes from a configuration the Kafka reader refuses or a negative bound of the poller.  A
  started worker holds its pool, its listener, its reader and its Redis client if there is one,
  runs all its goroutines and reports ready.  Its shutdown closes the database pool last, and at
  that moment only those goroutines are not known to have ended that had not been scheduled
  before they were stopped, or requests that outlasted the context of the shutdown.\<close>

theorem worker_start_is_all_or_nothing:
  assumes "StartWorkerService d cfg [] = (r, tr)"
  shows "case r of
      Refused err \<Rightarrow> open_after tr = {} \<and> running_after tr = {} \<and> Cancelled \<in> set tr
    | Panicked err \<Rightarrow> wk_RetryMaxConcurrentBatches cfg < 0 \<or> (\<exists>rc. rd_Brokers rc = wk_KafkaBrokers cfg
        \<and> rd_Topic rc = wk_KafkaTopic cfg \<and> rd_GroupID rc = wk_KafkaConsumerGroup cfg \<and> wd_NewReader d rc = Some err)
    | Started w \<Rightarrow> open_after tr = {PgPool, HttpListener, KafkaReader}
          \<union> (if ws_redisClient w \<noteq> None then {RedisClient} else {})
        \<and> running_after tr = UNIV \<and> hh_ready (ws_health w)
        \<and> (\<forall>e. open_after (snd (WorkerService_Shutdown e w tr)) = {}
            \<and> (\<exists>before. snd (WorkerService_Shutdown e w tr) = before @ [Closed PgPool]
                \<and> open_after before = {PgPool} \<and> running_after before = left_behind e))"
proof (cases r)
  case (Refused err)
  with assms refused_start show ?thesis by fastforce
next
  case (Panicked err)
  with assms panicked_start show ?thesis by fastforce
next
  case (Started w)
  with assms have w: "StartWorkerService d cfg [] = (Started w, tr)" by simp
  from start_then_shutdown [OF w] worker_process.shutdown_releases [OF w] show ?thesis unfolding Started start_result.case
    by blast
qed

theorem worker_start_is_all_or_nothing_witness:
  "\<exists>w tr. StartWorkerService sample_deps sample_cfg [] = (Started w, tr) \<and> running_after tr = UNIV
     \<and> open_after (snd (WorkerService_Shutdown
         \<lparr>sh_pollerStarted = True, sh_cleanerStarted = False, sh_serverErr = None, sh_redisErr = None\<rparr> w tr)) = {}"
proof -
  obtain w tr where w: "StartWorkerService sample_deps sample_cfg [] = (Started w, tr)" by (rule sample_start)
  from worker_start_is_all_or_nothing [OF w] w show ?thesis by auto
qed

text \<open>C37 The worker program never exits with something open: whatever its environment holds and
  whatever fails, it refuses an invalid configuration before touching anything, otherwise ends
  with status 0 or 1 with every resource closed.  Of the Kafka reader it is assumed that it accepts
  what its documentation asks for: a broker, a topic and a group, sizes that are not negative and
  in order, waiting times that are not negative, and a balancer.\<close>

theorem worker_program_exits_clean:
  assumes reader: "\<And>rc. rd_Brokers rc \<noteq> [] \<Longrightarrow> rd_Topic rc \<noteq> [] \<Longrightarrow> rd_GroupID rc \<noteq> []
      \<Longrightarrow> 0 \<le> rd_MinBytes rc \<Longrightarrow> rd_MinBytes rc \<le> rd_MaxBytes rc \<Longrightarrow> 0 \<le> rd_MaxWait rc
      \<Longrightarrow> 0 \<le> rd_CommitInterval rc \<Longrightarrow> rd_GroupBalancers rc \<noteq> [] \<Longrightarrow> wd_NewReader d rc = None"
    and main: "worker_main d e1 e2 env = (x, tr)"
  shows "open_after tr = {} \<and> x \<in> {Exit 0, Exit 1}
    \<and> (WorkerConfig_Validate (ParseWorkerConfig env) \<noteq> None \<longrightarrow> x = Exit 1 \<and> tr = [])"
proof (cases "WorkerConfig_Validate (ParseWorkerConfig env)")
  case None
  let ?cfg = "ParseWorkerConfig env"
  obtain q tr' where run: "run_service (StartWorkerService d ?cfg []) WorkerService_Shutdown e1 e2 = (q, tr')" by fastforce
  have "q \<noteq> Panicked err" for err
  proof
    assume "q = Panicked err"
    with run have "StartWorkerService d ?cfg [] = (Panicked err, tr')"
      by (cases "StartWorkerService d ?cfg []"; cases "fst (StartWorkerService d ?cfg [])")
        (simp_all add: run_service_def Let_def case_prod_beta)
    then have "wd_NewReader d (worker_reader ?cfg) = Some err"
      by (rule panicked_reader) (use validated(7) [OF None] in simp)
    moreover have "wd_NewReader d (worker_reader ?cfg) = None"
      by (rule reader) (use validated(2-4) [OF None] in \<open>simp_all add: worker_reader_def\<close>)
    ultimately show False by simp
  qed
  then have "open_after tr' = {}" "q \<noteq> Panicked err" for err using worker_process.run_releases [OF run] by auto
  with main None run show ?thesis
    by (cases q) (auto simp: worker_main_def Let_def split: option.splits)
qed (use main in \<open>auto simp: worker_main_def Let_def\<close>)

text \<open>A reader that refuses what is not in order.\<close>

definition sample_new_reader :: "ReaderConfig \<Rightarrow> error option" where
  "sample_new_reader rc =
     (if rd_Brokers rc = [] then Some (ErrText ''cannot create a new kafka reader with an empty list of broker addresses'')
      else if rd_MinBytes rc < 0 \<or> rd_MaxBytes rc < 0 then Some (ErrText ''invalid negative size'')
      else if rd_GroupID rc = [] \<or> rd_Topic rc = [] then Some (ErrText ''group and topic must be given'')
      else if rd_MinBytes rc > rd_MaxBytes rc then Some (ErrText ''minimum batch size greater than the maximum'')
      else None)"

theorem worker_program_exits_clean_witness:
  "\<exists>x tr. worker_main (sample_deps\<lparr>wd_NewReader := sample_new_reader\<rparr>) \<lparr>sh_pollerStarted = True, sh_cleanerStarted = True, sh_serverErr = None, sh_redisErr = None\<rparr>
      \<lparr>sh_pollerStarted = True, sh_cleanerStarted = True, sh_serverErr = None, sh_redisErr = None\<rparr> (\<lambda>_. []) = (x, tr)
    \<and> open_after tr = {} \<and> x \<in> {Exit 0, Exit 1}"
proof -
  let ?e = "\<lparr>sh_pollerStarted = True, sh_cleanerStarted = True, sh_serverErr = None, sh_redisErr = None\<rparr>"
  obtain x tr where x: "worker_main (sample_deps\<lparr>wd_NewReader := sample_new_reader\<rparr>) ?e ?e (\<lambda>_. []) = (x, tr)" by fastforce
  have "open_after tr = {} \<and> x \<in> {Exit 0, Exit 1}
      \<and> (WorkerConfig_Validate (ParseWorkerConfig (\<lambda>_. [])) \<noteq> None \<longrightarrow> x = Exit 1 \<and> tr = [])"
    by (rule worker_program_exits_clean [OF _ x]) (simp add: sample_new_reader_def)
  with x show ?thesis by blast
qed

lemma validated_poller:
  assumes "WorkerConfig_Validate cfg = None"
  shows "fst (startRetryPoller cfg []) = Inr \<lparr>pc_PollInterval = wk_RetryPollInterval cfg, pc_BatchSize = wk_RetryBatchSize cfg,
    pc_MaxConcurrentBatches = wk_RetryMaxConcurrentBatches cfg, pc_InstanceID = wk_InstanceID cfg,
    pc_LeaseDuration = wk_RetryLeaseDuration cfg\<rparr>"
  using validated [OF assms] by (simp add: startRetryPoller_def NewPoller_def DefaultPollerConfig_def Let_def)

lemma validated_cleaner:
  assumes "WorkerConfig_Validate cfg = None"
  shows "fst (startRetentionCleaner cfg []) = \<lparr>rc_AttemptBodyRetention = wk_AttemptBodyRetention cfg,
    rc_EventRetention = wk_EventRetention cfg, rc_Interval = wk_RetentionCleanupInterval cfg,
    rc_BatchSize = wk_RetentionBatchSize cfg\<rparr>"
  using validated [OF assms] by (simp add: startRetentionCleaner_def NewCleaner_def Let_def)

lemma built_identity:
  assumes "WorkerConfig_Validate cfg = None"
  shows "h_InstanceID (buildDeliveryHandler d cfg limiter) = wk_InstanceID cfg"
    "h_LeaseDuration (buildDeliveryHandler d cfg limiter) = wk_RetryLeaseDuration cfg"
    "h_retryPolicy (buildDeliveryHandler d cfg limiter) = DefaultPolicy"
  using validated [OF assms] by (simp_all add: buildDeliveryHandler_def NewDeliveryHandler_def option_defs Let_def)

text \<open>C38 A validated configuration reaches the components as it is: no constructor of the worker
  replaces a value by a default or fails on it.  The poller and the delivery handler claim under
  the same name and the same positive lease, the poller can run its ticker and its channel,
  events are kept at least as long as the bodies of their attempts.  The reader is asked for the
  configured brokers, topic and group, and the pool is the one of the database's address with the
  configured number of connections at most, and a third of it at least, which is less.\<close>

theorem validated_worker_as_configured:
  assumes valid: "WorkerConfig_Validate cfg = None" and w: "StartWorkerService d cfg [] = (Started w, tr)"
  shows "ws_retryPoller w = \<lparr>pc_PollInterval = wk_RetryPollInterval cfg, pc_BatchSize = wk_RetryBatchSize cfg,
        pc_MaxConcurrentBatches = wk_RetryMaxConcurrentBatches cfg, pc_InstanceID = wk_InstanceID cfg,
        pc_LeaseDuration = wk_RetryLeaseDuration cfg\<rparr>
    \<and> ws_retentionCleaner w = \<lparr>rc_AttemptBodyRetention = wk_AttemptBodyRetention cfg, rc_EventRetention = wk_EventRetention cfg,
        rc_Interval = wk_RetentionCleanupInterval cfg, rc_BatchSize = wk_RetentionBatchSize cfg\<rparr>
    \<and> h_InstanceID (ws_handler w) = pc_InstanceID (ws_retryPoller w)
    \<and> h_LeaseDuration (ws_handler w) = pc_LeaseDuration (ws_retryPoller w) \<and> 0 < h_LeaseDuration (ws_handler w)
    \<and> 0 < pc_PollInterval (ws_retryPoller w) \<and> 0 < pc_MaxConcurrentBatches (ws_retryPoller w)
    \<and> 0 < rc_AttemptBodyRetention (ws_retentionCleaner w)
    \<and> rc_AttemptBodyRetention (ws_retentionCleaner w) \<le> rc_EventRetention (ws_retentionCleaner w)
    \<and> rd_Brokers (ws_consumer w) = wk_KafkaBrokers cfg \<and> rd_Topic (ws_consumer w) = wk_KafkaTopic cfg
    \<and> rd_GroupID (ws_consumer w) = wk_KafkaConsumerGroup cfg
    \<and> (\<exists>parsed. wd_ParseConfig d (wk_DatabaseURL cfg) = Inr parsed \<and> ws_pool w
          = parsed\<lparr>pq_MaxConns := wk_DBMaxConns cfg, pq_MinConns := wk_DBMaxConns cfg div 3\<rparr>)
    \<and> 0 \<le> pq_MinConns (ws_pool w) \<and> pq_MinConns (ws_pool w) < pq_MaxConns (ws_pool w)"
  using w
proof (cases rule: StartWorkerService_cases)
  case (ok w' limiter)
  have third: "n sdiv 3 = n div 3 \<and> 0 \<le> n div 3 \<and> n div 3 < n" if "0 < n" for n :: int
    using that by (simp add: signed_divide_int_def, presburger)
  have parsed: "\<exists>parsed. wd_ParseConfig d (wk_DatabaseURL cfg) = Inr parsed \<and> ws_pool w
      = parsed\<lparr>pq_MaxConns := wk_DBMaxConns cfg, pq_MinConns := wk_DBMaxConns cfg div 3\<rparr>"
    using ok(1,4) third [OF validated(1) [OF valid]] by simp
  then have pool: "0 \<le> pq_MinConns (ws_pool w)" "pq_MinConns (ws_pool w) < pq_MaxConns (ws_pool w)"
    using third [OF validated(1) [OF valid]] by auto
  have reader: "ws_consumer w = worker_reader cfg" using startConsumer_reader(2) [OF ok(5)] ok(1) by simp
  have poller: "ws_retryPoller w = \<lparr>pc_PollInterval = wk_RetryPollInterval cfg, pc_BatchSize = wk_RetryBatchSize cfg,
      pc_MaxConcurrentBatches = wk_RetryMaxConcurrentBatches cfg, pc_InstanceID = wk_InstanceID cfg,
      pc_LeaseDuration = wk_RetryLeaseDuration cfg\<rparr>"
    using ok(1,6) validated_poller [OF valid] by simp
  have handler: "ws_handler w = buildDeliveryHandler d cfg limiter" using ok(1,3) by simp
  have "rd_Brokers (ws_consumer w) = wk_KafkaBrokers cfg" "rd_Topic (ws_consumer w) = wk_KafkaTopic cfg"
    "rd_GroupID (ws_consumer w) = wk_KafkaConsumerGroup cfg" unfolding reader by (simp_all add: worker_reader_def)
  moreover have "ws_retentionCleaner w = \<lparr>rc_AttemptBodyRetention = wk_AttemptBodyRetention cfg,
      rc_EventRetention = wk_EventRetention cfg, rc_Interval = wk_RetentionCleanupInterval cfg,
      rc_BatchSize = wk_RetentionBatchSize cfg\<rparr>" using ok(1,7) validated_cleaner [OF valid] by simp
  ultimately show ?thesis
    using parsed pool validated [OF valid] unfolding poller handler built_identity [OF valid] by simp
qed simp_all

theorem validated_worker_as_configured_witness:
  "\<exists>w tr. StartWorkerService sample_deps sample_cfg [] = (Started w, tr)
     \<and> h_InstanceID (ws_handler w) = pc_InstanceID (ws_retryPoller w) \<and> 0 < h_LeaseDuration (ws_handler w)
     \<and> pq_MaxConns (ws_pool w) = wk_DBMaxConns sample_cfg"
proof -
  obtain w tr where w: "StartWorkerService sample_deps sample_cfg [] = (Started w, tr)" by (rule sample_start)
  from validated_worker_as_configured [OF sample_cfg_valid(1) w] w show ?thesis by auto
qed

subsection \<open>A Redis address that cannot be parsed\<close>

lemma fail_closed_handler:
  assumes "deliverDelivery (DeliveryHandler.truncate (buildDeliveryHandler d cfg (FailClosedLimiter after))) trace dl v = (r, v')"
  shows "dr_outcome r = outcomeThrottled" "dr_attempts r = []" "dr_retryAfter r = after"
    "v' = wd_observe d (ObsRateLimited (dl_SubscriptionID dl)) (wd_observe d ObsThrottled v)"
  using assms
  by (auto simp: deliverDelivery_def deliverToSubscription_def buildDeliveryHandler_def NewDeliveryHandler_def option_defs
      DeliveryHandler.truncate_def limiter_Allow_def FailClosed_Allow_def subscriptionFromDelivery_def Let_def split: if_splits)

text \<open>C39 A worker whose Redis address cannot be parsed starts all the same and fails closed: it never
  sends a request, every delivery it takes is put off by a second without using up an attempt.
  Its readiness check for Redis does not answer that Redis is configured but unavailable: the
  client handed to it is a nil pointer within a non-nil interface, and the check pings it.\<close>

theorem unparseable_redis_url_fails_closed:
  assumes "wk_RedisURL cfg \<noteq> []" "wd_ParseURL d (wk_RedisURL cfg) = Inl err"
    and w: "StartWorkerService d cfg [] = (Started w, tr)"
  shows "(\<forall>trace dl v. case deliverDelivery (DeliveryHandler.truncate (ws_handler w)) trace dl v of (r, v') \<Rightarrow>
        dr_outcome r = outcomeThrottled \<and> dr_attempts r = [] \<and> dr_retryAfter r = Second
        \<and> v' = wd_observe d (ObsRateLimited (dl_SubscriptionID dl)) (wd_observe d ObsThrottled v))
    \<and> hh_checks (ws_health w) ! 2
      = \<lparr>rk_Name = ''redis'', rk_Checker = Some (wd_redisPing d dependencyCheckTimeout None)\<rparr>"
  using w
proof (cases rule: StartWorkerService_cases)
  case (ok w' limiter)
  from assms(1,2) ok(1,2) have l: "limiter = FailClosedLimiter Second" "ws_redisClient w = None"
    by (simp_all add: initRateLimiter_def NewFailClosedRateLimiter_def)
  have "hh_checks (ws_health w) ! 2 = \<lparr>rk_Name = ''redis'', rk_Checker = Some (wd_redisPing d dependencyCheckTimeout None)\<rparr>"
    using ok(1,8) l(2) assms(1) by (simp add: worker_checks_def redisReadinessCheck_def SetReady_def NewHealthHandler_def)
  with ok(1,3) l(1) fail_closed_handler show ?thesis by (auto split: prod.split)
qed simp_all

theorem unparseable_redis_url_fails_closed_witness:
  "\<exists>w tr r v'. StartWorkerService sample_deps sample_cfg [] = (Started w, tr)
     \<and> deliverDelivery (DeliveryHandler.truncate (ws_handler w)) [] sample_claimed
         (sample_worker (sample_db [sample_claimed]) (Inl (ErrText ''timeout'')) \<lparr>Allowed = True, RetryAfter = 0\<rparr>) = (r, v')
     \<and> dr_outcome r = outcomeThrottled \<and> ww_requests v' = []"
proof -
  let ?v = "sample_worker (sample_db [sample_claimed]) (Inl (ErrText ''timeout'')) \<lparr>Allowed = True, RetryAfter = 0\<rparr>"
  obtain w tr where w: "StartWorkerService sample_deps sample_cfg [] = (Started w, tr)" by (rule sample_start)
  have "wk_RedisURL sample_cfg \<noteq> []" "wd_ParseURL sample_deps (wk_RedisURL sample_cfg) = Inl (ErrText ''invalid URL scheme'')"
    by (simp_all add: sample_cfg_def sample_deps_def)
  from unparseable_redis_url_fails_closed [OF this w]
  have all: "case deliverDelivery (DeliveryHandler.truncate (ws_handler w)) [] sample_claimed ?v of (r, v') \<Rightarrow>
      dr_outcome r = outcomeThrottled
      \<and> v' = ww_observe (ObsRateLimited (dl_SubscriptionID sample_claimed)) (ww_observe ObsThrottled ?v)"
    by (auto simp: sample_deps_def split: prod.splits)
  obtain r v' where r: "deliverDelivery (DeliveryHandler.truncate (ws_handler w)) [] sample_claimed ?v = (r, v')" by fastforce
  with all have "dr_outcome r = outcomeThrottled" "ww_requests v' = []"
    by (simp_all add: ww_observe_def sample_worker_defs)
  with w r show ?thesis by blast
qed

end
