(* ===== verification/Api_Server.thy ===== *)
theory Api_Server
  imports Metrics Lifecycle Health Config
begin

text \<open>
  \<^verbatim>\<open>internal/app/api.go\<close> and \<^verbatim>\<open>cmd/dispatch/main.go\<close>: the API process, with the construction of the
  Kafka producer in \<^verbatim>\<open>internal/kafka/producer.go\<close>, of the handler in \<^verbatim>\<open>internal/api/handler.go\<close> and the
  middlewares of \<^verbatim>\<open>internal/api/routes.go\<close>.
  \<open>api_deps\<close> is what the process meets outside of its code, as \<open>worker_deps\<close> is for the worker.
\<close>

subsection \<open>The producer\<close>

record ProducerConfig =
  pr_Brokers :: "string list"
  pr_Topic :: string
  pr_BatchSize :: int
  pr_BatchTimeout :: Duration
  pr_Async :: bool

definition DefaultProducerConfig :: ProducerConfig where
  "DefaultProducerConfig = \<lparr>pr_Brokers = [''localhost:9092''], pr_Topic = ''events.pending'', pr_BatchSize = 100,
     pr_BatchTimeout = 10 * Millisecond, pr_Async = False\<rparr>"

datatype required_acks = RequireNone | RequireOne | RequireAll

record writer_config =
  wr_Brokers :: "string list"
  wr_Topic :: string
  wr_Balancer :: string
  wr_BatchSize :: int
  wr_BatchTimeout :: Duration
  wr_RequiredAcks :: required_acks
  wr_Async :: bool
  wr_Compression :: string

definition NewProducer :: "ProducerConfig \<Rightarrow> writer_config" where
  "NewProducer config = \<lparr>wr_Brokers = pr_Brokers config, wr_Topic = pr_Topic config, wr_Balancer = ''roundrobin'',
     wr_BatchSize = pr_BatchSize config, wr_BatchTimeout = pr_BatchTimeout config, wr_RequiredAcks = RequireAll,
     wr_Async = pr_Async config, wr_Compression = ''snappy''\<rparr>"

definition NewLoadTestProducer :: "string list \<Rightarrow> string \<Rightarrow> writer_config" where
  "NewLoadTestProducer brokers topic = \<lparr>wr_Brokers = brokers, wr_Topic = topic, wr_Balancer = ''roundrobin'',
     wr_BatchSize = 500, wr_BatchTimeout = 5 * Millisecond, wr_RequiredAcks = RequireOne,
     wr_Async = True, wr_Compression = ''snappy''\<rparr>"

definition Producer_Close :: "trail \<Rightarrow> trail" where
  "Producer_Close tr = tr @ [Closed KafkaWriter]"

subsection \<open>The handler\<close>

record 'w api_repositories =
  ap_GetByID :: "string \<Rightarrow> 'w \<Rightarrow> (error + Event) \<times> 'w"
  ap_GetAttempts :: "string \<Rightarrow> 'w \<Rightarrow> (error + DeliveryAttempt list) \<times> 'w"
  ap_GetDeliveries :: "string \<Rightarrow> 'w \<Rightarrow> (error + Delivery list) \<times> 'w"
  ap_Replay :: "string \<Rightarrow> time \<Rightarrow> 'w \<Rightarrow> (error + Delivery) \<times> 'w"
  ap_Create :: "Subscription \<Rightarrow> 'w \<Rightarrow> (error + unit) \<times> 'w"
  ap_GetActive :: "'w \<Rightarrow> (error + Subscription list) \<times> 'w"
  ap_Delete :: "string \<Rightarrow> 'w \<Rightarrow> (error + unit) \<times> 'w"
  ap_UpdateSecret :: "string \<Rightarrow> string \<Rightarrow> 'w \<Rightarrow> (error + unit) \<times> 'w"

definition NewHandler ::
  "(string \<Rightarrow> EventMessage \<Rightarrow> 'w \<Rightarrow> error option \<times> 'w) \<Rightarrow> 'w api_repositories \<Rightarrow> ('w \<Rightarrow> time \<times> 'w) \<Rightarrow> 'w Handler" where
  "NewHandler publisher repos now =
     \<lparr>ah_Publish = publisher, ah_GetByID = ap_GetByID repos, ah_GetAttempts = ap_GetAttempts repos,
      ah_GetDeliveries = ap_GetDeliveries repos, ah_Replay = ap_Replay repos, ah_Create = ap_Create repos,
      ah_GetActive = ap_GetActive repos, ah_Delete = ap_Delete repos, ah_UpdateSecret = ap_UpdateSecret repos,
      ah_Now = now, ah_EventsReceived = None\<rparr>"

definition WithMetrics :: "('w \<Rightarrow> 'w) \<Rightarrow> 'w Handler \<Rightarrow> 'w Handler" where
  "WithMetrics inc h = h\<lparr>ah_EventsReceived := Some inc\<rparr>"

text \<open>The routes of \<open>NewRouter\<close> in the order they are added, with the patterns of a sub-router behind its
  prefix; without a method a route answers all of them.  Which route a path belongs to is for the
  chi library to find.\<close>

datatype route_target = Endpoint endpoint | HealthTarget | ReadyTarget | MetricsTarget

definition NewRouter :: "(string option \<times> string \<times> route_target) list" where
  "NewRouter =
     [(Some ''GET'', ''/health'', HealthTarget), (Some ''GET'', ''/ready'', ReadyTarget), (None, ''/metrics'', MetricsTarget)]
     @ map (\<lambda>(m, p, ep). (Some m, ''/events'' @ p, Endpoint ep))
         [(''POST'', ''/'', PostEvents), (''GET'', ''/{id}'', GetEventsId), (''GET'', ''/{id}/attempts'', GetEventsIdAttempts),
          (''GET'', ''/{id}/deliveries'', GetEventsIdDeliveries)]
     @ [(Some ''POST'', ''/deliveries/{id}/replay'', Endpoint PostDeliveriesIdReplay)]
     @ map (\<lambda>(m, p, ep). (Some m, ''/subscriptions'' @ p, Endpoint ep))
         [(''POST'', ''/'', PostSubscriptions), (''GET'', ''/'', ListSubscriptions), (''PUT'', ''/{id}/secret'', PutSubscriptionsIdSecret),
          (''DELETE'', ''/{id}'', DeleteSubscriptionsId)]"

text \<open>Every endpoint has one route, and no method and pattern has two.\<close>

lemma routes_are_unambiguous:
  "length (filter (\<lambda>(_, _, t). t = Endpoint ep) NewRouter) = 1" "distinct (map (\<lambda>(m, p, _). (m, p)) NewRouter)"
proof -
  show "length (filter (\<lambda>(_, _, t). t = Endpoint ep) NewRouter) = 1" by (cases ep) (simp_all add: NewRouter_def)
  show "distinct (map (\<lambda>(m, p, _). (m, p)) NewRouter)" by (simp add: NewRouter_def)
qed

text \<open>
  A request through the middlewares of \<open>NewRouter\<close>, in the order they are used; \<open>ep\<close> is the route the
  router has found and \<open>pattern\<close> its pattern.  A panic is turned into status 500 by \<open>Recoverer\<close>,
  outside of the two others.
\<close>

definition ServeHTTP ::
  "logger \<Rightarrow> 'w Handler \<Rightarrow> endpoint \<Rightarrow> string \<Rightarrow> string \<Rightarrow> string \<Rightarrow> Duration \<Rightarrow> http_request \<Rightarrow> 'w \<times> Metrics
     \<Rightarrow> ((string \<times> string) list \<times> http_response) \<times> 'w \<times> Metrics" where
  "ServeHTTP lg h ep httpMethod pattern urlPath duration r wm =
     (let ((hdrs, resp), wm) =
            LoggingMiddleware lg
              (\<lambda>ctx. MetricsMiddleware httpMethod pattern urlPath duration (serve h ep (TraceIDFromContext ctx) r)) r wm
      in ((hdrs, case resp of None \<Rightarrow> \<lparr>hp_status = 500, hp_body = NoBody\<rparr> | Some resp \<Rightarrow> resp), wm))"

subsection \<open>The process\<close>

record ('w, 'c) api_deps =
  ad_New :: "string \<Rightarrow> error option"
  ad_Ping :: "error option"
  ad_Listen :: "string \<Rightarrow> error + string"
  ad_poolPing :: "'w checker"
  ad_net :: "('w, 'c) kafka_net"
  ad_Publish :: "writer_config \<Rightarrow> string \<Rightarrow> EventMessage \<Rightarrow> 'w \<Rightarrow> error option \<times> 'w"
  ad_repos :: "'w api_repositories"
  ad_Now :: "'w \<Rightarrow> time \<times> 'w"
  ad_EventsReceived :: "'w \<Rightarrow> 'w"

record 'w APIServer =
  as_listener :: string
  as_producer :: writer_config
  as_handler :: "'w Handler"
  as_health :: "'w HealthHandler"
  as_ReadTimeout :: Duration
  as_WriteTimeout :: Duration
  as_IdleTimeout :: Duration

definition StartAPIServer :: "('w, 'c) api_deps \<Rightarrow> APIConfig \<Rightarrow> trail \<Rightarrow> 'w APIServer start_result \<times> trail" where
  "StartAPIServer d cfg tr =
     (case ad_New d (ac_DatabaseURL cfg) of
        Some err \<Rightarrow> (Refused err, tr)
      | None \<Rightarrow>
          (case ad_Ping d of
             Some err \<Rightarrow> (Refused err, tr @ [Opened PgPool, Closed PgPool])
           | None \<Rightarrow>
               (let tr = tr @ [Opened PgPool];
                    producerConfig = DefaultProducerConfig\<lparr>pr_Brokers := ac_KafkaBrokers cfg, pr_Topic := ac_KafkaTopic cfg\<rparr>;
                    producer = NewProducer producerConfig;
                    tr = tr @ [Opened KafkaWriter];
                    healthHandler = NewHealthHandler [databaseReadinessCheck (ad_poolPing d),
                      kafkaReadinessCheck (ad_net d) (ac_KafkaBrokers cfg) (ac_KafkaTopic cfg)];
                    handler = WithMetrics (ad_EventsReceived d) (NewHandler (ad_Publish d producer) (ad_repos d) (ad_Now d));
                    healthHandler = SetReady True healthHandler
                in case ad_Listen d (ac_Addr cfg) of
                     Inl err \<Rightarrow> (Refused err, Producer_Close tr @ [Closed PgPool])
                   | Inr listener \<Rightarrow>
                       (Started \<lparr>as_listener = listener, as_producer = producer, as_handler = handler,
                          as_health = healthHandler, as_ReadTimeout = 10 * Second, as_WriteTimeout = 30 * Second,
                          as_IdleTimeout = 60 * Second\<rparr>,
                        tr @ [Opened HttpListener, Spawned HttpServer]))))"

definition URL :: "'w APIServer \<Rightarrow> string" where
  "URL s = ''http://'' @ reachable_addr (as_listener s)"

record api_shutdown_env =
  ae_serverErr :: "error option"
  ae_producerErr :: "error option"

definition APIServer_Shutdown ::
  "api_shutdown_env \<Rightarrow> 'w APIServer \<Rightarrow> trail \<Rightarrow> (error option \<times> 'w APIServer) \<times> trail" where
  "APIServer_Shutdown e s tr =
     (let tr = server_Shutdown (ae_serverErr e) tr;
          tr = Producer_Close tr;
          tr = tr @ [Closed PgPool]
      in ((errors_Join [ae_serverErr e, ae_producerErr e], s), tr))"

text \<open>\<open>main\<close>: an error of the shutdown is logged only.\<close>

definition dispatch_main :: "('w, 'c) api_deps \<Rightarrow> api_shutdown_env \<Rightarrow> api_shutdown_env \<Rightarrow> environment \<Rightarrow> exit \<times> trail" where
  "dispatch_main d e1 e2 env =
     (let cfg = ParseAPIConfig env
      in if APIConfig_Validate cfg \<noteq> None then (Exit 1, [])
         else
           (case run_service (StartAPIServer d cfg []) APIServer_Shutdown e1 e2 of
              (Refused err, tr) \<Rightarrow> (Exit 1, tr)
            | (Panicked err, tr) \<Rightarrow> (Crash, tr)
            | (Started _, tr) \<Rightarrow> (Exit 0, tr)))"

subsection \<open>Start and shutdown\<close>

lemma StartAPIServer_cases:
  assumes "StartAPIServer d cfg [] = (r, tr)"
  obtains (refused) err where "r = Refused err" "open_after tr = {}" "running_after tr = {}"
  | (ok) s where "r = Started s" "tr = [Opened PgPool, Opened KafkaWriter, Opened HttpListener, Spawned HttpServer]"
      "as_producer s = NewProducer (DefaultProducerConfig\<lparr>pr_Brokers := ac_KafkaBrokers cfg, pr_Topic := ac_KafkaTopic cfg\<rparr>)"
      "as_handler s = WithMetrics (ad_EventsReceived d) (NewHandler (ad_Publish d (as_producer s)) (ad_repos d) (ad_Now d))"
      "hh_ready (as_health s)"
  using assms
  by (auto simp: StartAPIServer_def Producer_Close_def open_after_def running_after_def SetReady_def Let_def
      split: option.splits sum.splits)

lemma APIServer_Shutdown_trail:
  "snd (APIServer_Shutdown e s tr) = tr @ [Closed HttpListener] @ (if ae_serverErr e = None then [Joined HttpServer] else [])
     @ [Closed KafkaWriter, Closed PgPool]"
  by (simp add: APIServer_Shutdown_def server_Shutdown_def Producer_Close_def Let_def)

interpretation api_process: service "StartAPIServer d cfg []" APIServer_Shutdown
proof
  show "open_after tr = {} \<and> running_after tr = {}" if "StartAPIServer d cfg [] = (Refused err, tr)" for err tr
    using that by (cases rule: StartAPIServer_cases) auto
  show "open_after (snd (APIServer_Shutdown e s tr)) = {}" if "StartAPIServer d cfg [] = (Started s, tr)" for s tr e
    using that by (cases rule: StartAPIServer_cases) (auto simp: APIServer_Shutdown_trail open_after_def)
  show "\<exists>tr'. snd (APIServer_Shutdown e s tr) = tr @ tr' \<and> list_all closing tr'" for e and s :: "'a APIServer" and tr
    by (auto simp: APIServer_Shutdown_trail closing_def)
qed

text \<open>The API program never crashes and exits with everything closed.\<close>

lemma dispatch_exits_clean:
  assumes "dispatch_main d e1 e2 env = (x, tr)"
  shows "open_after tr = {}" "x \<in> {Exit 0, Exit 1}"
proof -
  let ?cfg = "ParseAPIConfig env"
  obtain q tr' where run: "run_service (StartAPIServer d ?cfg []) APIServer_Shutdown e1 e2 = (q, tr')" by fastforce
  obtain r tr0 where start: "StartAPIServer d ?cfg [] = (r, tr0)" by fastforce
  then have "r \<noteq> Panicked err" for err by (cases rule: StartAPIServer_cases) auto
  with run start have "q \<noteq> Panicked err" for err
    by (cases r) (auto simp: run_service_def Let_def case_prod_beta)
  then have "open_after tr' = {}" "\<And>err. q \<noteq> Panicked err" using api_process.run_releases [OF run] by auto
  with assms run show "open_after tr = {}" "x \<in> {Exit 0, Exit 1}"
    by (cases "APIConfig_Validate ?cfg"; cases q; auto simp: dispatch_main_def Let_def)+
qed

text \<open>An accepted event is acknowledged by all replicas before the request is answered: the producer
  of a started API waits for all of them and does not write in the background.\<close>

lemma api_producer_waits:
  assumes "StartAPIServer d cfg [] = (Started s, tr)"
  shows "wr_RequiredAcks (as_producer s) = RequireAll" "\<not> wr_Async (as_producer s)"
  using assms by (cases rule: StartAPIServer_cases; simp add: NewProducer_def DefaultProducerConfig_def)+

text \<open>The handler of a started API is the one the properties of \<^verbatim>\<open>Api_Handler\<close> are about.\<close>

definition pg_repositories :: "api_world api_repositories" where
  "pg_repositories = \<lparr>ap_GetByID = pg_GetByID, ap_GetAttempts = pg_GetAttempts, ap_GetDeliveries = pg_GetDeliveries,
     ap_Replay = pg_Replay, ap_Create = pg_Create, ap_GetActive = pg_GetActive, ap_Delete = pg_Delete,
     ap_UpdateSecret = pg_UpdateSecret\<rparr>"

lemma api_handler_built:
  "WithMetrics (\<lambda>w. w\<lparr>aw_received := Suc (aw_received w)\<rparr>) (NewHandler (Publish (kafka_writer fmt)) pg_repositories aw_Now)
   = api_handler fmt"
  by (simp add: WithMetrics_def NewHandler_def pg_repositories_def api_handler_def)

text \<open>Every request is counted once, under its method, its route and the status it was answered with,
  and is answered with a trace identifier.\<close>

lemma request_is_counted:
  assumes "ServeHTTP lg (api_handler fmt) ep httpMethod pattern urlPath duration r (w, m) = ((hdrs, resp), w', m')"
  shows "HTTPRequestsTotal m' = (let key = (httpMethod, if pattern = [] then urlPath else pattern, FormatInt (hp_status resp))
      in (HTTPRequestsTotal m)(key := HTTPRequestsTotal m key + 1))"
    and "\<exists>traceID. hdrs = [(TraceIDHeader, traceID)]"
proof -
  let ?t = "if hq_trace r = [] then NewTraceID (hq_random r) else hq_trace r"
  obtain resp1 w1 where "serve (api_handler fmt) ep ?t r w = (Some resp1, w1)"
    using serve_answers [of fmt ep ?t r w] by (metis not_None_eq prod.collapse)
  with assms show "HTTPRequestsTotal m' = (let key = (httpMethod, if pattern = [] then urlPath else pattern, FormatInt (hp_status resp))
      in (HTTPRequestsTotal m)(key := HTTPRequestsTotal m key + 1))" "\<exists>traceID. hdrs = [(TraceIDHeader, traceID)]"
    by (auto simp: ServeHTTP_def LoggingMiddleware_def MetricsMiddleware_def Let_def simp del: fun_upd_apply)
qed

end
