(* ===== verification/Tools.thy ===== *)
theory Tools
  imports Api_Server
begin

text \<open>
  The two client programs of the repository: \<^verbatim>\<open>cmd/seed/main.go\<close>, which fills a running system through
  its HTTP API, and \<^verbatim>\<open>cmd/producer/main.go\<close>, which runs the load-test producer.

  The HTTP client of the seed tool is an operation on a world: the error or the status of a
  request.  The lemmas show that the API decodes what the tool sends, that every event of the
  normal scenario matches exactly one of the subscriptions created for it, and that waiting for
  the API ends.
\<close>

subsection \<open>The seed tool\<close>

record 'w seed_client =
  sc_Post :: "string \<Rightarrow> string \<Rightarrow> 'w \<Rightarrow> (error + int) \<times> 'w"
  sc_Get :: "string \<Rightarrow> 'w \<Rightarrow> (error + int) \<times> 'w"
  sc_Sleep :: "Duration \<Rightarrow> 'w \<Rightarrow> 'w"
  sc_Now :: "'w \<Rightarrow> time \<times> 'w"

record createSubRequest =
  sq_ID :: string
  sq_URL :: string
  sq_EventTypes :: "string list"
  sq_MaxDeliveryRate :: int

text \<open>The members of \<open>Data\<close> are in the order of their keys, in which the encoder writes a map.\<close>

record createEventRequest =
  eq_ID :: string
  eq_Type :: string
  eq_Source :: string
  eq_Data :: "(string \<times> string) list"

fun element_texts :: "string list \<Rightarrow> string" where
  "element_texts [] = '']''"
| "element_texts [s] = json_string s @ '']''"
| "element_texts (s # ss) = json_string s @ '','' @ element_texts ss"

definition marshal_subscription :: "createSubRequest \<Rightarrow> string" where
  "marshal_subscription req = CHR ''{'' # member_texts
     ([(''id'', json_string (sq_ID req)), (''url'', json_string (sq_URL req)),
       (''event_types'', CHR ''['' # element_texts (sq_EventTypes req))]
      @ (if sq_MaxDeliveryRate req = 0 then [] else [(''max_delivery_rate'', FormatInt (sq_MaxDeliveryRate req))]))"

definition marshal_event_request :: "createEventRequest \<Rightarrow> string" where
  "marshal_event_request req = CHR ''{'' # member_texts
     [(''id'', json_string (eq_ID req)), (''type'', json_string (eq_Type req)),
      (''source'', json_string (eq_Source req)), (''data'', CHR ''{'' # member_texts (eq_Data req))]"

text \<open>The receiver's failure rate is in percent; \<^verbatim>\<open>%.2f\<close> writes it with two decimals.  Whether the
  receiver can be reached only decides what is logged.\<close>

definition two_digits :: "int \<Rightarrow> string" where
  "two_digits n = (if n < 10 then ''0'' else []) @ FormatInt n"

definition setReceiverBehavior :: "'w seed_client \<Rightarrow> string \<Rightarrow> int \<Rightarrow> int \<Rightarrow> 'w \<Rightarrow> 'w" where
  "setReceiverBehavior c addr failPercent latency w =
     snd (sc_Post c (addr @ ''/control'')
       (CHR ''{'' # member_texts [(''fail_rate'', FormatInt (failPercent div 100) @ ''.'' @ two_digits (failPercent mod 100)),
          (''latency_ms'', FormatInt latency)]) w)"

datatype seed_end = SeedDone | ExitOne | DivideByZero

definition createSubscription :: "'w seed_client \<Rightarrow> string \<Rightarrow> createSubRequest \<Rightarrow> 'w \<Rightarrow> seed_end \<times> 'w" where
  "createSubscription c api req w =
     (case sc_Post c (api @ ''/subscriptions'') (marshal_subscription req) w of
        (Inl err, w) \<Rightarrow> (ExitOne, w)
      | (Inr status, w) \<Rightarrow> (if status \<noteq> 201 then ExitOne else SeedDone, w))"

definition publishEvent :: "'w seed_client \<Rightarrow> string \<Rightarrow> createEventRequest \<Rightarrow> 'w \<Rightarrow> 'w" where
  "publishEvent c api req w = snd (sc_Post c (api @ ''/events'') (marshal_event_request req) w)"

text \<open>\<open>tries\<close> are the turns left of 30.\<close>

fun wait_loop :: "'w seed_client \<Rightarrow> string \<Rightarrow> nat \<Rightarrow> 'w \<Rightarrow> seed_end \<times> 'w" where
  "wait_loop c api 0 w = (ExitOne, w)"
| "wait_loop c api (Suc tries) w =
     (case sc_Get c (api @ ''/health'') w of
        (Inr status, w) \<Rightarrow>
          if status = 200 then (SeedDone, w) else wait_loop c api tries (sc_Sleep c (2 * Second) w)
      | (Inl err, w) \<Rightarrow> wait_loop c api tries (sc_Sleep c (2 * Second) w))"

definition waitForAPI :: "'w seed_client \<Rightarrow> string \<Rightarrow> 'w \<Rightarrow> seed_end \<times> 'w" where
  "waitForAPI c api w = wait_loop c api 30 w"

subsection \<open>Scenarios\<close>

definition seed_data :: "int \<Rightarrow> string \<Rightarrow> string \<Rightarrow> (string \<times> string) list" where
  "seed_data i key v = [(''index'', FormatInt i), (key, json_string v)]"

definition seed_event :: "string \<Rightarrow> string \<Rightarrow> time \<Rightarrow> int \<Rightarrow> string \<Rightarrow> string \<Rightarrow> createEventRequest" where
  "seed_event idPrefix eventType now i key v =
     \<lparr>eq_ID = idPrefix @ FormatInt (UnixNano now) @ ''-'' @ FormatInt i, eq_Type = eventType, eq_Source = ''seed'',
      eq_Data = seed_data i key v\<rparr>"

definition normal_type :: "string \<Rightarrow> int \<Rightarrow> string" where
  "normal_type runID i = ''demo.event.'' @ runID @ ''.type'' @ FormatInt i"

definition normal_subscription :: "string \<Rightarrow> string \<Rightarrow> int \<Rightarrow> createSubRequest" where
  "normal_subscription runID receiver i =
     \<lparr>sq_ID = ''seed-sub-normal-'' @ runID @ ''-'' @ FormatInt i, sq_URL = receiver @ ''/webhook'',
      sq_EventTypes = [normal_type runID i], sq_MaxDeliveryRate = 100\<rparr>"

fun create_all :: "'w seed_client \<Rightarrow> string \<Rightarrow> createSubRequest list \<Rightarrow> 'w \<Rightarrow> seed_end \<times> 'w" where
  "create_all c api [] w = (SeedDone, w)"
| "create_all c api (req # reqs) w =
     (case createSubscription c api req w of
        (SeedDone, w) \<Rightarrow> create_all c api reqs w
      | (r, w) \<Rightarrow> (r, w))"

text \<open>The publishing loops over the indices that are left; \<open>typeOf\<close> is nothing where computing the type
  divides by zero, \<open>pause\<close> the sleep behind each event.\<close>

fun publish_loop ::
  "'w seed_client \<Rightarrow> string \<Rightarrow> string \<Rightarrow> (int \<Rightarrow> string option) \<Rightarrow> string \<Rightarrow> string \<Rightarrow> Duration option \<Rightarrow> int list \<Rightarrow> 'w
     \<Rightarrow> seed_end \<times> 'w" where
  "publish_loop c api idPrefix typeOf key v pause [] w = (SeedDone, w)"
| "publish_loop c api idPrefix typeOf key v pause (i # is) w =
     (case typeOf i of
        None \<Rightarrow> (DivideByZero, w)
      | Some eventType \<Rightarrow>
          (let (now, w) = sc_Now c w;
               w = publishEvent c api (seed_event idPrefix eventType now i key v) w;
               w = (case pause of None \<Rightarrow> w | Some d \<Rightarrow> sc_Sleep c d w)
           in publish_loop c api idPrefix typeOf key v pause is w))"

definition normal_type_of :: "string \<Rightarrow> int \<Rightarrow> int \<Rightarrow> string option" where
  "normal_type_of runID numSubs i =
     (if numSubs = 0 then None else Some (normal_type runID ((i - 1) smod numSubs + 1)))"

definition scenarioNormal ::
  "'w seed_client \<Rightarrow> string \<Rightarrow> string \<Rightarrow> string \<Rightarrow> string \<Rightarrow> int \<Rightarrow> int \<Rightarrow> 'w \<Rightarrow> seed_end \<times> 'w" where
  "scenarioNormal c runID api receiver receiverControl numSubs numEvents w =
     (let w = setReceiverBehavior c receiverControl 0 50 w
      in case create_all c api (map (normal_subscription runID receiver) [1 .. numSubs]) w of
           (SeedDone, w) \<Rightarrow>
             publish_loop c api ''seed-evt-normal-'' (normal_type_of runID numSubs) ''scenario'' ''normal'' None [1 .. numEvents] w
         | (r, w) \<Rightarrow> (r, w))"

definition single_subscription :: "string \<Rightarrow> string \<Rightarrow> string \<Rightarrow> string \<Rightarrow> createSubRequest" where
  "single_subscription idPrefix typePrefix runID receiver =
     \<lparr>sq_ID = idPrefix @ runID, sq_URL = receiver @ ''/webhook'', sq_EventTypes = [typePrefix @ runID],
      sq_MaxDeliveryRate = 100\<rparr>"

definition scenarioRetry ::
  "'w seed_client \<Rightarrow> string \<Rightarrow> string \<Rightarrow> string \<Rightarrow> string \<Rightarrow> int \<Rightarrow> 'w \<Rightarrow> seed_end \<times> 'w" where
  "scenarioRetry c runID api receiver receiverControl numEvents w =
     (let w = setReceiverBehavior c receiverControl 70 50 w
      in case createSubscription c api (single_subscription ''seed-sub-retry-'' ''demo.retry.'' runID receiver) w of
           (SeedDone, w) \<Rightarrow>
             publish_loop c api ''seed-evt-retry-'' (\<lambda>_. Some (''demo.retry.'' @ runID)) ''scenario'' ''retry'' None
               [1 .. numEvents] w
         | (r, w) \<Rightarrow> (r, w))"

definition scenarioCircuitBreak ::
  "'w seed_client \<Rightarrow> string \<Rightarrow> string \<Rightarrow> string \<Rightarrow> string \<Rightarrow> 'w \<Rightarrow> seed_end \<times> 'w" where
  "scenarioCircuitBreak c runID api receiver receiverControl w =
     (let w = setReceiverBehavior c receiverControl 100 50 w
      in case createSubscription c api (single_subscription ''seed-sub-cb-'' ''demo.circuitbreak.'' runID receiver) w of
           (SeedDone, w) \<Rightarrow>
             (let typeOf = (\<lambda>_. Some (''demo.circuitbreak.'' @ runID));
                  (_, w) = publish_loop c api ''seed-evt-cb-break-'' typeOf ''phase'' ''break'' (Some (200 * Millisecond)) [1 .. 10] w;
                  w = sc_Sleep c (5 * Second) w;
                  w = setReceiverBehavior c receiverControl 0 50 w
              in publish_loop c api ''seed-evt-cb-heal-'' typeOf ''phase'' ''heal'' (Some (500 * Millisecond)) [1 .. 5] w)
         | (r, w) \<Rightarrow> (r, w))"

record seed_flags =
  sf_api :: string
  sf_receiver :: string
  sf_receiverControl :: string
  sf_scenario :: string
  sf_events :: int
  sf_subs :: int

definition envStr :: "environment \<Rightarrow> string \<Rightarrow> string \<Rightarrow> string" where
  "envStr env key def = (let v = env key in if v \<noteq> [] then v else def)"

text \<open>The run has the second it started in as its identifier.\<close>

definition seed_runID :: "time \<Rightarrow> string" where
  "seed_runID now = FormatInt (Unix now)"

definition default_flags :: "environment \<Rightarrow> seed_flags" where
  "default_flags env = \<lparr>sf_api = envStr env ''API_ADDR'' ''http://localhost:8090'',
     sf_receiver = envStr env ''RECEIVER_ADDR'' ''http://receiver:9000'',
     sf_receiverControl = envStr env ''RECEIVER_CONTROL_ADDR'' ''http://localhost:9000'',
     sf_scenario = ''normal'', sf_events = 50, sf_subs = 3\<rparr>"

definition seed_main :: "'w seed_client \<Rightarrow> string \<Rightarrow> seed_flags \<Rightarrow> 'w \<Rightarrow> seed_end \<times> 'w" where
  "seed_main c runID f w =
     (case waitForAPI c (sf_api f) w of
        (SeedDone, w) \<Rightarrow>
          if sf_scenario f = ''normal''
          then scenarioNormal c runID (sf_api f) (sf_receiver f) (sf_receiverControl f) (sf_subs f) (sf_events f) w
          else if sf_scenario f = ''retry''
          then scenarioRetry c runID (sf_api f) (sf_receiver f) (sf_receiverControl f) (sf_events f) w
          else if sf_scenario f = ''circuit-break''
          then scenarioCircuitBreak c runID (sf_api f) (sf_receiver f) (sf_receiverControl f) w
          else (ExitOne, w)
      | (r, w) \<Rightarrow> (r, w))"

subsection \<open>The load-test program\<close>

record producer_flags =
  pf_count :: int
  pf_type :: string
  pf_types :: int
  pf_prefix :: string

text \<open>\<open>mk\<close> is the Kafka client for a configuration of the writer.  The error that stands for a division
  by zero is a panic.\<close>

definition producer_main ::
  "(writer_config \<Rightarrow> 'w LoadTestProducer) \<Rightarrow> environment \<Rightarrow> producer_flags \<Rightarrow> 'w \<Rightarrow> exit \<times> 'w" where
  "producer_main mk env f w =
     (let kafkaBrokers = split_commas (env ''KAFKA_BROKERS'');
          kafkaBrokers = (if no_brokers kafkaBrokers then [''localhost:9092''] else kafkaBrokers);
          kafkaTopic = env ''KAFKA_TOPIC'';
          kafkaTopic = (if kafkaTopic = [] then ''events.pending'' else kafkaTopic);
          p = mk (NewLoadTestProducer kafkaBrokers kafkaTopic);
          (err, w) =
            (if pf_type f = ''multi'' then ProduceMultiTypeEvents p (pf_count f) (pf_types f) w
             else if pf_type f = ''onesub'' then ProduceOnePerSubscription p (pf_count f) (pf_prefix f) w
             else ProduceEvents p (pf_count f) (pf_type f) w)
      in (case err of
            None \<Rightarrow> Exit 0
          | Some e \<Rightarrow> if e = ErrText ''runtime error: integer divide by zero'' then Crash else Exit 1, w))"

subsection \<open>The API understands the seed tool\<close>

lemma Decode_object:
  assumes "\<forall>(k, v) \<in> set kvs. utf8_valid k \<and> tight_value v" "kvs \<noteq> []"
  shows "Decode put (CHR ''{'' # member_texts kvs) zero =
    foldl (\<lambda>r (k, v). Option.bind r (put (fold_name k) v)) (Some zero) kvs"
proof -
  let ?t = "CHR ''{'' # member_texts kvs"
  have "value_text ?t" using members_text_texts [OF assms] by (rule value_object)
  then have "scan_value (2 * length ?t + 1) (?t @ []) = Some []" by (rule scan_complete(1)) (simp_all add: follows_def)
  moreover have "skip_ws ?t = ?t" by (simp add: is_ws_def)
  ultimately show ?thesis using decode_struct_object [OF assms(1)]
    by (simp add: Decode_def del: scan_value.simps skip_ws.simps)
qed

lemma object_tight:
  assumes "\<forall>(k, v) \<in> set kvs. utf8_valid k \<and> tight_value v" "kvs \<noteq> []"
  shows "tight_value (CHR ''{'' # member_texts kvs)"
  using value_object [OF members_text_texts [OF assms]] by (simp add: tight_value_def is_ws_def)

lemma seed_names: "utf8_valid ''index''" "utf8_valid ''scenario''" "utf8_valid ''phase''"
  by code_simp+

lemma seed_data_tight: "utf8_valid key \<Longrightarrow> tight_value (CHR ''{'' # member_texts (seed_data i key v))"
  by (rule object_tight) (simp_all add: seed_data_def seed_names FormatInt_tight json_string_tight del: utf8_valid.simps)

text \<open>The request the API decodes is the one the tool has written.\<close>

lemma seed_event_decodes:
  assumes "utf8_valid (eq_ID e)" "utf8_valid (eq_Type e)" "utf8_valid (eq_Source e)" "tight_value (CHR ''{'' # member_texts (eq_Data e))"
  shows "Decode put_create_event (marshal_event_request e) \<lparr>cr_ID = [], cr_Type = [], cr_Source = [], cr_Data = []\<rparr> =
    Some \<lparr>cr_ID = eq_ID e, cr_Type = eq_Type e, cr_Source = eq_Source e, cr_Data = CHR ''{'' # member_texts (eq_Data e)\<rparr>"
  unfolding marshal_event_request_def using assms
  by (subst Decode_object) (simp_all add: json_string_tight json_string_decodes member_names put_create_event_def
      del: utf8_valid.simps fold_name.simps)

text \<open>Every event of the normal scenario has the type of one of its subscriptions, and matches that
  subscription only.\<close>

lemma normal_type_in_range:
  assumes "0 < numSubs" "1 \<le> i"
  obtains j where "normal_type_of runID numSubs i = Some (normal_type runID j)" "1 \<le> j" "j \<le> numSubs"
proof
  have "(i - 1) smod numSubs = (i - 1) mod numSubs" using assms by (cases "i = 1") (simp_all add: signed_modulo_int_def)
  then show "normal_type_of runID numSubs i = Some (normal_type runID ((i - 1) mod numSubs + 1))"
    using assms by (simp add: normal_type_of_def)
  show "1 \<le> (i - 1) mod numSubs + 1" "(i - 1) mod numSubs + 1 \<le> numSubs"
    using assms by (simp_all add: add1_zle_eq)
qed

lemma normal_type_matches:
  "MatchesEventType (u\<lparr>sub_EventTypes := sq_EventTypes (normal_subscription runID receiver j)\<rparr>) (normal_type runID k)
     \<longleftrightarrow> j = k"
proof -
  have "is_digit (last (nat_digits n))" for n
    using last_in_set [OF nat_digits_ne, of n] nat_digits_digit [of n] unfolding list_all_iff by blast
  moreover have "\<not> is_digit (CHR ''*'')" by code_simp
  ultimately have "last (nat_digits n) \<noteq> CHR ''*''" for n by metis
  then have digits: "FormatInt j \<noteq> []" "last (FormatInt j) \<noteq> CHR ''*''"
    unfolding FormatInt_def using nat_digits_ne by (simp_all del: nat_digits.simps)
  let ?t = "normal_type runID j"
  have end_of_t: "?t ! (length ?t - 1) \<noteq> CHR ''*''"
    using digits last_conv_nth [of ?t] by (simp add: normal_type_def)
  have t: "?t \<noteq> ''*''" "length ?t \<noteq> 0" by (simp_all add: normal_type_def)
  have "MatchesEventType (u\<lparr>sub_EventTypes := [?t]\<rparr>) x \<longleftrightarrow> ?t = x" for x
    using end_of_t t unfolding MatchesEventType_def by (simp add: matchWildcard_def del: One_nat_def)
  then show ?thesis using FormatInt_inj [of j k] by (auto simp: normal_subscription_def normal_type_def)
qed

text \<open>Waiting makes at most 30 requests, whatever they give; \<open>gets\<close> counts them.\<close>

lemma waitForAPI_bounded:
  assumes "\<And>u w. gets (snd (sc_Get c u w)) = gets w + 1" "\<And>d w. gets (sc_Sleep c d w) = gets w"
  shows "gets (snd (waitForAPI c api w)) \<le> gets w + (30 :: nat)"
proof -
  have "gets (snd (wait_loop c api n w)) \<le> gets w + n" for n
  proof (induction n arbitrary: w)
    case (Suc n)
    obtain r w1 where g: "sc_Get c (api @ ''/health'') w = (r, w1)" by fastforce
    with assms(1) [of "api @ ''/health''" w] Suc [of "sc_Sleep c (2 * Second) w1"] assms(2) [of "2 * Second" w1]
    show ?case by (auto split: sum.split)
  qed simp
  then show ?thesis by (simp add: waitForAPI_def)
qed

end
