(* ===== verification/Test_Receiver.thy ===== *)
theory Test_Receiver
  imports Tools
begin

text \<open>
  \<^verbatim>\<open>scripts/testserver/main.go\<close>: the receiver that stands for the destinations of webhooks in
  demonstrations and load tests.  It fails a share of the requests and delays them, both of which
  \<^verbatim>\<open>/control\<close> adjusts while it runs.

  The state is the five atomic variables, the counters as 64-bit words.  Requests, control requests
  and the reporter of the statistics are goroutines; \<open>receiver_step\<close> lets them interleave at every
  atomic access.  A \<open>float64\<close> is a real number, an infinity or NaN, and \<open>ParseFloat\<close> is
  \<open>strconv.ParseFloat\<close> with its syntax and its rounding.  What a random generator draws is an
  argument.

  The lemmas show that \<^verbatim>\<open>cmd/seed\<close> and the receiver agree on the control message, that the receiver
  then behaves as the scenario says, and what the counters mean.
\<close>

subsection \<open>Floating-point numbers\<close>

text \<open>Zero has one sign here, which no comparison tells apart.\<close>

datatype float64 = Finite real | PosInf | NegInf | NaN

fun float_less :: "float64 \<Rightarrow> float64 \<Rightarrow> bool" where
  "float_less (Finite x) (Finite y) = (x < y)"
| "float_less NegInf (Finite _) = True"
| "float_less NegInf PosInf = True"
| "float_less (Finite _) PosInf = True"
| "float_less _ _ = False"

text \<open>The nearest \<open>float64\<close>: below \<open>2 ^ -1022\<close> the numbers are equidistant, and from \<open>2 ^ 1024\<close> on there are
  none.\<close>

definition fl64 :: "real \<Rightarrow> real" where
  "fl64 x =
     (if \<bar>x\<bar> < 2 powi (- 1022) then of_int (round_even (x / 2 powi (- 1074))) * 2 powi (- 1074) else fl x)"

definition in_range :: "real \<Rightarrow> float64 option" where
  "in_range x = (if \<bar>fl64 x\<bar> < 2 ^ 1024 then Some (Finite (fl64 x)) else None)"

text \<open>\<open>readFloat\<close>: the digits of the mantissa with how many of them are behind the point, and the rest.
  Underscores are skipped; whether they are where they may be is checked afterwards.\<close>

fun read_mantissa :: "bool \<Rightarrow> bool \<Rightarrow> string \<Rightarrow> (string \<times> nat) \<times> string" where
  "read_mantissa hex sawdot [] = (([], 0), [])"
| "read_mantissa hex sawdot (c # s) =
     (if c = CHR ''_'' then read_mantissa hex sawdot s
      else if c = CHR ''.'' \<and> \<not> sawdot then read_mantissa hex True s
      else if is_digit c \<or> (hex \<and> is_hex c) then
        (let ((ds, k), r) = read_mantissa hex sawdot s in ((c # ds, if sawdot then Suc k else k), r))
      else (([], 0), c # s))"

definition exponent_value :: "string \<Rightarrow> int" where
  "exponent_value s =
     foldl (\<lambda>e c. if c = CHR ''_'' then e else if e < 10000 then 10 * e + (int (byte c) - 48) else e) 0 s"

definition lower :: "char \<Rightarrow> char" where
  "lower c = (if 65 \<le> byte c \<and> byte c \<le> 90 then char_of (byte c + 32) else c)"

text \<open>The exponent behind its letter, which has to be the rest of the text.\<close>

definition read_exponent :: "string \<Rightarrow> int option" where
  "read_exponent s =
     (let neg = take 1 s = ''-''; ds = (if neg \<or> take 1 s = ''+'' then drop 1 s else s)
      in if ds = [] \<or> \<not> is_digit (hd ds) \<or> \<not> list_all (\<lambda>c. is_digit c \<or> c = CHR ''_'') ds then None
         else Some (if neg then - exponent_value ds else exponent_value ds))"

datatype underscore_state = StartOfNumber | SawDigit | SawUnderscore | SawOther

fun underscore_loop :: "bool \<Rightarrow> underscore_state \<Rightarrow> string \<Rightarrow> bool" where
  "underscore_loop hex i [] = (i \<noteq> SawUnderscore)"
| "underscore_loop hex i (c # s) =
     (if is_digit c \<or> (hex \<and> is_hex c) then underscore_loop hex SawDigit s
      else if c = CHR ''_'' then i = SawDigit \<and> underscore_loop hex SawUnderscore s
      else i \<noteq> SawUnderscore \<and> underscore_loop hex SawOther s)"

definition base_prefix :: "string \<Rightarrow> bool" where
  "base_prefix s \<longleftrightarrow> length s \<ge> 2 \<and> hd s = CHR ''0'' \<and> lower (s ! 1) \<in> set ''box''"

definition underscoreOK :: "string \<Rightarrow> bool" where
  "underscoreOK s =
     (let s = (if take 1 s = ''-'' \<or> take 1 s = ''+'' then drop 1 s else s)
      in if base_prefix s then underscore_loop (lower (s ! 1) = CHR ''x'') SawDigit (drop 2 s)
         else underscore_loop False StartOfNumber s)"

definition hex_prefix :: "string \<Rightarrow> bool" where
  "hex_prefix u \<longleftrightarrow> length u > 2 \<and> hd u = CHR ''0'' \<and> lower (u ! 1) = CHR ''x''"

definition ParseFloat :: "string \<Rightarrow> float64 option" where
  "ParseFloat s =
     (let neg = take 1 s = ''-''; u = (if neg \<or> take 1 s = ''+'' then drop 1 s else s)
      in if map lower u = ''inf'' \<or> map lower u = ''infinity'' then Some (if neg then NegInf else PosInf)
         else if map lower s = ''nan'' then Some NaN
         else
           (let hex = hex_prefix u;
                ((ds, k), r) = read_mantissa hex False (if hex then drop 2 u else u);
                mant = foldl (\<lambda>n c. (if hex then 16 else 10) * n + int (hex_value c)) 0 ds;
                e = (if r = [] then (if hex then None else Some 0)
                     else if lower (hd r) = (if hex then CHR ''p'' else CHR ''e'') then read_exponent (drop 1 r)
                     else None)
            in if ds = [] \<or> (CHR ''_'' \<in> set s \<and> \<not> underscoreOK s) then None
               else
                 (case e of
                    None \<Rightarrow> None
                  | Some e \<Rightarrow>
                      in_range ((if neg then - 1 else 1) * of_int mant
                        * (if hex then 2 powi (e - 4 * int k) else 10 powi (e - int k))))))"

subsection \<open>The state and its settings\<close>

record receiver =
  atomicFailRate :: float64
  atomicLatencyMs :: "64 word"
  requestCount :: "64 word"
  successCount :: "64 word"
  failureCount :: "64 word"

definition getFailRate :: "receiver \<Rightarrow> float64" where
  "getFailRate s = atomicFailRate s"

definition getLatencyMs :: "receiver \<Rightarrow> int" where
  "getLatencyMs s = sint (atomicLatencyMs s)"

definition setFailRate :: "float64 \<Rightarrow> receiver \<Rightarrow> receiver" where
  "setFailRate v s = s\<lparr>atomicFailRate := v\<rparr>"

definition setLatencyMs :: "int \<Rightarrow> receiver \<Rightarrow> receiver" where
  "setLatencyMs v s = s\<lparr>atomicLatencyMs := word_of_int v\<rparr>"

definition envFloat :: "environment \<Rightarrow> string \<Rightarrow> float64 \<Rightarrow> float64" where
  "envFloat env key def =
     (let v = env key
      in if v \<noteq> [] then (case ParseFloat v of Some f \<Rightarrow> f | None \<Rightarrow> def) else def)"

definition envInt :: "environment \<Rightarrow> string \<Rightarrow> int \<Rightarrow> int" where
  "envInt env key def =
     (let v = env key
      in if v \<noteq> [] then (case ParseInt v of Some i \<Rightarrow> i | None \<Rightarrow> def) else def)"

record receiver_flags =
  rf_port :: int
  rf_fail :: bool
  rf_failRate :: float64
  rf_latency :: int
  rf_jitter :: int
  rf_quiet :: bool

definition receiver_defaults :: "environment \<Rightarrow> receiver_flags" where
  "receiver_defaults env =
     \<lparr>rf_port = envInt env ''PORT'' 9000, rf_fail = False, rf_failRate = envFloat env ''FAIL_RATE'' (Finite 0),
      rf_latency = envInt env ''LATENCY_MS'' 50, rf_jitter = envInt env ''JITTER_MS'' 20, rf_quiet = False\<rparr>"

text \<open>The state when the flags have been read, and the address that is listened on.\<close>

definition receiver_start :: "receiver_flags \<Rightarrow> receiver" where
  "receiver_start f =
     (let s = \<lparr>atomicFailRate = Finite 0, atomicLatencyMs = 0, requestCount = 0, successCount = 0, failureCount = 0\<rparr>
      in setLatencyMs (rf_latency f) (setFailRate (rf_failRate f) s))"

definition receiver_addr :: "receiver_flags \<Rightarrow> string" where
  "receiver_addr f = '':'' @ FormatInt (rf_port f)"

subsection \<open>Control requests\<close>

record control_request =
  cq_FailRate :: "float64 option"
  cq_LatencyMs :: "int option"

definition number_ptr_field :: "(string \<Rightarrow> 'n option) \<Rightarrow> string \<Rightarrow> 'n option option" where
  "number_ptr_field parse raw =
     (if is_null raw then Some None
      else if raw \<noteq> [] \<and> (hd raw = CHR ''-'' \<or> is_digit (hd raw)) then map_option Some (parse raw) else None)"

definition put_control :: "string \<Rightarrow> string \<Rightarrow> control_request \<Rightarrow> control_request option" where
  "put_control name raw r =
     (if name = ''fail_rate'' then map_option (\<lambda>x. r\<lparr>cq_FailRate := x\<rparr>) (number_ptr_field ParseFloat raw)
      else if name = ''latency_ms'' then map_option (\<lambda>x. r\<lparr>cq_LatencyMs := x\<rparr>) (number_ptr_field ParseInt raw)
      else Some r)"

text \<open>An answer is its status and its body; \<open>http.Error\<close> ends the body with a newline.\<close>

type_synonym answer_text = "int \<times> string"

definition decode_control :: "string \<Rightarrow> string \<Rightarrow> answer_text + control_request" where
  "decode_control httpMethod body =
     (if httpMethod \<noteq> ''POST'' then Inl (405, ''POST only'' @ [CHR 0x0A])
      else
        (case Decode put_control body \<lparr>cq_FailRate = None, cq_LatencyMs = None\<rparr> of
           None \<Rightarrow> Inl (400, ''bad json'' @ [CHR 0x0A])
         | Some req \<Rightarrow> Inr req))"

definition apply_rate :: "control_request \<Rightarrow> receiver \<Rightarrow> receiver" where
  "apply_rate req s = (case cq_FailRate req of None \<Rightarrow> s | Some v \<Rightarrow> setFailRate v s)"

definition apply_latency :: "control_request \<Rightarrow> receiver \<Rightarrow> receiver" where
  "apply_latency req s = (case cq_LatencyMs req of None \<Rightarrow> s | Some v \<Rightarrow> setLatencyMs v s)"

definition control_handler :: "string \<Rightarrow> string \<Rightarrow> receiver \<Rightarrow> answer_text \<times> receiver" where
  "control_handler httpMethod body s =
     (case decode_control httpMethod body of
        Inl a \<Rightarrow> (a, s)
      | Inr req \<Rightarrow> ((200, ''ok''), apply_latency req (apply_rate req s)))"

subsection \<open>Webhook requests\<close>

definition wrap64 :: "int \<Rightarrow> int" where
  "wrap64 x = (x + 2 ^ 63) mod 2 ^ 64 - 2 ^ 63"

text \<open>\<open>i\<close> is what \<open>rand.Intn\<close> draws below its argument; it panics when that is not positive, which twice
  the jitter can be after wrapping around.\<close>

definition simulated_delay :: "int \<Rightarrow> int \<Rightarrow> int \<Rightarrow> Duration option" where
  "simulated_delay jitter lat i =
     (let delay = wrap64 (lat * Millisecond)
      in if jitter > 0 then
           (if wrap64 (jitter * 2) \<le> 0 then None
            else Some (wrap64 (delay + wrap64 ((i - jitter) * Millisecond))))
         else Some delay)"

text \<open>\<open>rand.Float64\<close> is drawn, and the rate read once more, only when the rate was positive.\<close>

definition positive_rate :: "float64 \<Rightarrow> bool" where
  "positive_rate rate = float_less (Finite 0) rate"

definition count_answer :: "bool \<Rightarrow> receiver \<Rightarrow> answer_text \<times> receiver" where
  "count_answer shouldFail s =
     (if shouldFail then ((500, ''simulated failure''), s\<lparr>failureCount := failureCount s + 1\<rparr>)
      else ((200, ''OK''), s\<lparr>successCount := successCount s + 1\<rparr>))"

text \<open>The handler of all other paths, when nothing else runs beside it.  \<open>None\<close> is the panic.\<close>

definition webhook_handler :: "receiver_flags \<Rightarrow> string \<Rightarrow> int \<Rightarrow> real \<Rightarrow> receiver \<Rightarrow> answer_text option \<times> receiver" where
  "webhook_handler f path i r s =
     (if path = ''/health'' then (Some (200, ''OK''), s)
      else
        (let s = s\<lparr>requestCount := requestCount s + 1\<rparr>
         in case simulated_delay (rf_jitter f) (getLatencyMs s) i of
              None \<Rightarrow> (None, s)
            | Some delay \<Rightarrow>
                apfst Some (count_answer
                  (rf_fail f \<or> (positive_rate (getFailRate s) \<and> float_less (Finite r) (getFailRate s))) s)))"

text \<open>The routes of the two handlers; other spellings of a path are redirected before.\<close>

definition receiver_ServeHTTP ::
  "receiver_flags \<Rightarrow> string \<Rightarrow> string \<Rightarrow> string \<Rightarrow> int \<Rightarrow> real \<Rightarrow> receiver \<Rightarrow> answer_text option \<times> receiver" where
  "receiver_ServeHTTP f httpMethod path body i r s =
     (if path = ''/control'' then apfst Some (control_handler httpMethod body s)
      else webhook_handler f path i r s)"

subsection \<open>The seed tool's control message\<close>

lemma read_mantissa_digits:
  assumes "list_all is_digit ds"
  shows "read_mantissa False True ds = ((ds, length ds), [])"
    and "read_mantissa False False (ds @ r) = (case read_mantissa False False r of ((es, k), q) \<Rightarrow> ((ds @ es, k), q))"
proof -
  have d: "c \<noteq> CHR ''_''" "c \<noteq> CHR ''.''" if "is_digit c" for c using that by (auto simp: is_digit_def)
  show "read_mantissa False True ds = ((ds, length ds), [])"
    using assms by (induction ds) (auto dest: d)
  show "read_mantissa False False (ds @ r) = (case read_mantissa False False r of ((es, k), q) \<Rightarrow> ((ds @ es, k), q))"
    using assms by (induction ds) (auto dest: d split: prod.splits)
qed

lemma digit_chars:
  assumes "is_digit c"
  shows "int (hex_value c) = int (byte c) - 48" "lower c \<notin> set ''inx''" "c \<noteq> CHR ''_''"
proof -
  have "\<forall>c \<in> set ''0123456789''. int (hex_value c) = int (byte c) - 48 \<and> lower c \<notin> set ''inx'' \<and> c \<noteq> CHR ''_''" by code_simp
  with assms show "int (hex_value c) = int (byte c) - 48" "lower c \<notin> set ''inx''" "c \<noteq> CHR ''_''"
    unfolding is_digit_def by blast+
qed

lemma decimal_mantissa:
  "list_all is_digit ds \<Longrightarrow> foldl (\<lambda>n c. 10 * n + int (hex_value c)) m ds = foldl (\<lambda>n c. 10 * n + (int (byte c) - 48)) m ds"
  by (induction ds arbitrary: m) (simp_all add: digit_chars)

lemma ParseFloat_plain:
  assumes "s = c # s'" "is_digit c" "\<not> hex_prefix s" "CHR ''_'' \<notin> set s" "read_mantissa False False s = ((ds, k), [])" "list_all is_digit ds" "ds \<noteq> []"
  shows "ParseFloat s = in_range (of_int (digits_value ds) * 10 powi (- int k))"
proof -
  have "take 1 s \<noteq> ''-''" "take 1 s \<noteq> ''+''" using assms(1,2) by (auto simp: is_digit_def)
  moreover have "map lower s \<noteq> ''inf''" "map lower s \<noteq> ''infinity''" "map lower s \<noteq> ''nan''"
    using digit_chars(2) [OF assms(2)] unfolding assms(1) by auto
  moreover have "foldl (\<lambda>n c. 10 * n + int (hex_value c)) 0 ds = digits_value ds"
    unfolding digits_value_def by (rule decimal_mantissa) (rule assms)
  ultimately show ?thesis using assms(3-5,7) unfolding ParseFloat_def Let_def by (simp del: read_mantissa.simps)
qed

text \<open>A decimal number without an exponent is rounded once.\<close>

lemma ParseFloat_decimal:
  assumes "list_all is_digit ds" "ds \<noteq> []" "list_all is_digit es"
  shows "ParseFloat (ds @ CHR ''.'' # es) = in_range (of_int (digits_value (ds @ es)) * 10 powi (- int (length es)))"
proof -
  let ?s = "ds @ CHR ''.'' # es"
  obtain c s where s: "?s = c # s" and c: "is_digit c" using assms(1,2) by (cases ds) auto
  have "lower (?s ! 1) \<noteq> CHR ''x''" if "length ?s > 2"
  proof -
    have "?s ! 1 \<in> set ?s" by (rule nth_mem) (use that in linarith)
    then have "?s ! 1 = CHR ''.'' \<or> is_digit (?s ! 1)" using assms(1,3) unfolding list_all_iff by auto
    moreover have "lower (CHR ''.'') \<noteq> CHR ''x''" by code_simp
    ultimately show ?thesis using digit_chars(2) by auto
  qed
  then have "\<not> hex_prefix ?s" unfolding hex_prefix_def by blast
  moreover have "read_mantissa False False ?s = ((ds @ es, length es), [])"
    using read_mantissa_digits(2) [OF assms(1), of "CHR ''.'' # es"] read_mantissa_digits(1) [OF assms(3)] by simp
  moreover have "CHR ''_'' \<notin> set ?s" using assms(1,3) digit_chars(3) unfolding list_all_iff by auto
  ultimately show ?thesis using assms by (intro ParseFloat_plain [OF s c]) simp_all
qed

text \<open>The tool writes the rate with two decimals; the number the receiver reads is the share nearest to it.\<close>

lemma two_digits_text:
  assumes "0 \<le> n" "n < 100"
  shows "list_all is_digit (two_digits n)" "length (two_digits n) = 2" "digits_value (ds @ two_digits n) = 100 * digits_value ds + n"
proof -
  obtain k where k: "n = int k" "k < 100" using assms by (cases n) auto
  have t: "two_digits n = [digit (k div 10), digit (k mod 10)]"
    using k by (cases "k < 10") (simp_all add: two_digits_def FormatInt_def nat_digits.simps digit_def)
  have dv: "int (byte (digit m)) - 48 = int m" "is_digit (digit m)" if "m < 10" for m
  proof -
    have "\<forall>m \<in> set [0..<10]. int (byte (digit m)) - 48 = int m \<and> is_digit (digit m)" by code_simp
    with that show "int (byte (digit m)) - 48 = int m" "is_digit (digit m)" by auto
  qed
  have "k div 10 < 10" "k mod 10 < 10" using k by auto
  note d = dv [OF this(1)] dv [OF this(2)]
  show "list_all is_digit (two_digits n)" "length (two_digits n) = 2" using d by (simp_all add: t)
  have "int k = 10 * int (k div 10) + int (k mod 10)" by presburger
  then show "digits_value (ds @ two_digits n) = 100 * digits_value ds + n"
    unfolding t using d k(1) by (simp add: digits_value_def)
qed

lemma rate_text:
  assumes "0 \<le> p"
  shows "number_text (FormatInt (p div 100) @ ''.'' @ two_digits (p mod 100))"
    and "ParseFloat (FormatInt (p div 100) @ ''.'' @ two_digits (p mod 100)) = in_range (of_int p / 100)"
proof -
  obtain n where n: "p div 100 = int n" by (rule that [of "nat (p div 100)"]) (use assms in simp)
  have m: "0 \<le> p mod 100" "p mod 100 < 100" by simp_all
  have i: "FormatInt (p div 100) = nat_digits n" by (simp add: n FormatInt_def)
  have "frac_text (''.'' @ two_digits (p mod 100))"
    unfolding frac_text_def using two_digits_text(1,2) [OF m] by (intro disjI2 exI [of _ "two_digits (p mod 100)"]) auto
  moreover have "exp_text []" by (simp add: exp_text_def)
  ultimately show "number_text (FormatInt (p div 100) @ ''.'' @ two_digits (p mod 100))"
    unfolding number_text_def i using int_text_nat_digits [of n]
    by (intro exI [of _ "[]"] exI [of _ "nat_digits n"] exI [of _ "''.'' @ two_digits (p mod 100)"]) simp
  have "digits_value (nat_digits n @ two_digits (p mod 100)) = p"
    using mult_div_mod_eq [of 100 p] n by (simp add: two_digits_text(3) [OF m] digits_value_nat_digits)
  moreover have "(10::real) powi (- int 2) = 1 / 100" by (simp add: power_int_minus field_simps)
  ultimately show "ParseFloat (FormatInt (p div 100) @ ''.'' @ two_digits (p mod 100)) = in_range (of_int p / 100)"
    using ParseFloat_decimal [OF nat_digits_digit nat_digits_ne two_digits_text(1) [OF m], of n] two_digits_text(2) [OF m]
    by (simp add: i)
qed

lemma control_names:
  "utf8_valid ''fail_rate''" "utf8_valid ''latency_ms''" "fold_name ''fail_rate'' = ''fail_rate''"
  "fold_name ''latency_ms'' = ''latency_ms''"
  by code_simp+

lemma number_field:
  assumes "number_text raw" shows "number_ptr_field parse raw = map_option Some (parse raw)" "tight_value raw"
  using number_text_head [OF assms] value_number [OF assms]
  by (auto simp: number_ptr_field_def is_null_def is_digit_def tight_value_def)

definition control_text :: "int \<Rightarrow> int \<Rightarrow> string" where
  "control_text failPercent latency = CHR ''{'' # member_texts
     [(''fail_rate'', FormatInt (failPercent div 100) @ ''.'' @ two_digits (failPercent mod 100)),
      (''latency_ms'', FormatInt latency)]"

lemma setReceiverBehavior_text:
  "setReceiverBehavior c addr p latency w = snd (sc_Post c (addr @ ''/control'') (control_text p latency) w)"
  by (simp add: setReceiverBehavior_def control_text_def)

lemma control_decodes:
  assumes "0 \<le> p" "int64 latency" "in_range (of_int p / 100) = Some rate"
  shows "decode_control ''POST'' (control_text p latency) = Inr \<lparr>cq_FailRate = Some rate, cq_LatencyMs = Some latency\<rparr>"
proof -
  note num = number_field [OF rate_text(1) [OF assms(1)]] number_field [OF number_text_FormatInt]
  have "Decode put_control (control_text p latency) \<lparr>cq_FailRate = None, cq_LatencyMs = None\<rparr>
      = Some \<lparr>cq_FailRate = Some rate, cq_LatencyMs = Some latency\<rparr>"
    unfolding control_text_def using num(2,4)
    by (subst Decode_object)
      (simp_all add: control_names put_control_def num(1,3) [simplified] rate_text(2) [OF assms(1), simplified] assms(3)
        ParseInt_FormatInt [OF assms(2) [unfolded int64_def, THEN conjunct1] assms(2) [unfolded int64_def, THEN conjunct2]] del: utf8_valid.simps fold_name.simps)
  then show ?thesis by (simp add: decode_control_def)
qed

text \<open>The shares of the scenarios: none, all, and strictly between for every other percentage.\<close>

lemma fl64_normal: "2 powi (- 1022) \<le> \<bar>x\<bar> \<Longrightarrow> fl64 x = fl x"
  by (simp add: fl64_def)

lemma small_power: "2 powi (- 1022) \<le> (1 / 100 :: real)"
proof -
  have "(2::real) powi (- 1022) \<le> 2 powi (- 7)" by (rule power_int_increasing) simp_all
  also have "\<dots> \<le> 1 / 100" by (simp add: power_int_minus)
  finally show ?thesis .
qed

lemma in_range_percent:
  assumes "0 \<le> p" "p \<le> 100"
  obtains x where "in_range (of_int p / 100) = Some (Finite x)" "\<bar>x - of_int p / 100\<bar> \<le> 1 / 2 ^ 53"
    "p = 0 \<Longrightarrow> x = 0" "p = 100 \<Longrightarrow> x = 1"
proof -
  let ?x = "real_of_int p / 100"
  have b: "0 \<le> ?x" "?x \<le> 1" using assms by simp_all
  have z: "fl64 0 = 0" using round_even_of_int [of 0] by (simp add: fl64_def)
  have e: "\<bar>fl64 ?x - ?x\<bar> \<le> 1 / 2 ^ 53"
  proof (cases "p = 0")
    case False
    then have "1 / 100 \<le> ?x" using assms(1) by simp
    then have "fl64 ?x = fl ?x" using small_power b by (intro fl64_normal) linarith
    moreover have "\<bar>?x\<bar> / 2 ^ 53 \<le> 1 / 2 ^ 53" using b by (simp add: divide_right_mono)
    ultimately show ?thesis using fl_error [of ?x] by linarith
  qed (simp add: z)
  have "\<bar>fl64 ?x\<bar> < 2 ^ 1" using e b unfolding abs_le_iff abs_less_iff by simp
  also have "(2::real) ^ 1 \<le> 2 ^ 1024" by (rule power_increasing) simp_all
  finally have r: "in_range ?x = Some (Finite (fl64 ?x))" by (simp only: in_range_def if_True)
  have "fl64 1 = 1" using small_power fl_of_int [of 1] by (subst fl64_normal) simp_all
  with that [OF r e] z show thesis by simp
qed

text \<open>
  What the tool asks for is what happens: after its message every webhook is refused when the
  share is 100, none when it is 0, and otherwise those whose draw is below the share; the
  message is answered with status 200 and sets the latency.
\<close>

lemma control_takes_effect:
  assumes "0 \<le> p" "p \<le> 100" "int64 latency"
  obtains x where "control_handler ''POST'' (control_text p latency) s =
      ((200, ''ok''), s\<lparr>atomicFailRate := Finite x, atomicLatencyMs := word_of_int latency\<rparr>)"
    "\<bar>x - of_int p / 100\<bar> \<le> 1 / 2 ^ 53" "p = 0 \<Longrightarrow> x = 0" "p = 100 \<Longrightarrow> x = 1"
proof -
  obtain x where x: "in_range (of_int p / 100) = Some (Finite x)" "\<bar>x - of_int p / 100\<bar> \<le> 1 / 2 ^ 53"
    "p = 0 \<Longrightarrow> x = 0" "p = 100 \<Longrightarrow> x = 1" using in_range_percent [OF assms(1,2)] by blast
  have "control_handler ''POST'' (control_text p latency) s =
      ((200, ''ok''), s\<lparr>atomicFailRate := Finite x, atomicLatencyMs := word_of_int latency\<rparr>)"
    using control_decodes [OF assms(1,3) x(1)]
    by (simp add: control_handler_def apply_rate_def apply_latency_def setFailRate_def setLatencyMs_def)
  from that [OF this x(2-4)] show thesis by blast
qed

lemma latency_round_trip:
  "int64 v \<Longrightarrow> getLatencyMs (setLatencyMs v s) = v"
  unfolding getLatencyMs_def setLatencyMs_def int64_def
  by (simp, subst signed_of_int) (simp add: signed_take_bit_int_eq_self)

lemma wrap64_id: "int64 x \<Longrightarrow> wrap64 x = x"
  by (simp add: wrap64_def int64_def)

lemma receiver_obeys_seed:
  assumes "0 \<le> p" "p \<le> 100" "int64 latency"
    and "path \<noteq> ''/control''" "path \<noteq> ''/health''" "\<not> rf_fail f" "rf_jitter f < 2 ^ 62" "0 \<le> r" "r < 1"
    and "s1 = snd (control_handler ''POST'' (control_text p latency) s)"
  shows "p = 0 \<Longrightarrow> fst (receiver_ServeHTTP f httpMethod path body i r s1) = Some (200, ''OK'')"
    and "p = 100 \<Longrightarrow> fst (receiver_ServeHTTP f httpMethod path body i r s1) = Some (500, ''simulated failure'')"
    and "r < of_int p / 100 - 1 / 2 ^ 53 \<Longrightarrow>
      fst (receiver_ServeHTTP f httpMethod path body i r s1) = Some (500, ''simulated failure'')"
    and "of_int p / 100 + 1 / 2 ^ 53 < r \<Longrightarrow> fst (receiver_ServeHTTP f httpMethod path body i r s1) = Some (200, ''OK'')"
proof -
  obtain x where s1: "s1 = s\<lparr>atomicFailRate := Finite x, atomicLatencyMs := word_of_int latency\<rparr>"
    and x: "\<bar>x - of_int p / 100\<bar> \<le> 1 / 2 ^ 53" "p = 0 \<Longrightarrow> x = 0" "p = 100 \<Longrightarrow> x = 1"
    using control_takes_effect [OF assms(1-3)] unfolding assms(10) by (metis snd_conv)
  have "0 < rf_jitter f \<Longrightarrow> wrap64 (rf_jitter f * 2) = rf_jitter f * 2"
    using assms(7) by (intro wrap64_id) (simp add: int64_def)
  then obtain d where d: "simulated_delay (rf_jitter f) (getLatencyMs (s1\<lparr>requestCount := requestCount s1 + 1\<rparr>)) i = Some d"
    using that by (cases "0 < rf_jitter f") (simp_all add: simulated_delay_def Let_def)
  have x1: "of_int p / 100 - 1 / 2 ^ 53 \<le> x" "x \<le> of_int p / 100 + 1 / 2 ^ 53" using x(1) by linarith+
  have "fst (receiver_ServeHTTP f httpMethod path body i r s1) =
      Some (if 0 < x \<and> r < x then (500, ''simulated failure'') else (200, ''OK''))"
    using assms(4-6) d unfolding receiver_ServeHTTP_def webhook_handler_def
    by (simp add: s1 positive_rate_def getFailRate_def count_answer_def Let_def)
  then show "p = 0 \<Longrightarrow> fst (receiver_ServeHTTP f httpMethod path body i r s1) = Some (200, ''OK'')"
    and "p = 100 \<Longrightarrow> fst (receiver_ServeHTTP f httpMethod path body i r s1) = Some (500, ''simulated failure'')"
    and "r < of_int p / 100 - 1 / 2 ^ 53 \<Longrightarrow>
      fst (receiver_ServeHTTP f httpMethod path body i r s1) = Some (500, ''simulated failure'')"
    and "of_int p / 100 + 1 / 2 ^ 53 < r \<Longrightarrow> fst (receiver_ServeHTTP f httpMethod path body i r s1) = Some (200, ''OK'')"
    using x(2,3) x1 assms(8,9) by auto
qed

subsection \<open>Requests side by side\<close>

text \<open>
  A goroutine between two atomic accesses: a request that has been counted, has slept, has found a
  positive rate, or has decided; a control request that has been decoded, or has set the rate.
  The reporter holds what it has taken of the counters.
\<close>

datatype goroutine =
    Counted
  | Slept
  | Drawing
  | Decided bool
  | Setting control_request
  | SettingLatency control_request

datatype reporter =
    Ticking
  | TookTotal "64 word"
  | TookSuccess "64 word" "64 word"

text \<open>Beside the shared variables: what is running, what has been printed, and the history of the
  requests that have arrived, were answered either way, or panicked.\<close>

record receiver_world =
  rw_shared :: receiver
  rw_running :: "goroutine list"
  rw_reporter :: reporter
  rw_printed :: "(64 word \<times> 64 word \<times> 64 word) list"
  rw_arrived :: nat
  rw_succeeded :: nat
  rw_failed :: nat
  rw_panicked :: nat

definition may_draw :: "receiver_flags \<Rightarrow> int \<Rightarrow> bool" where
  "may_draw f i \<longleftrightarrow> (rf_jitter f > 0 \<longrightarrow> 0 \<le> i \<and> i < wrap64 (rf_jitter f * 2))"

inductive receiver_step :: "receiver_flags \<Rightarrow> receiver_world \<Rightarrow> receiver_world \<Rightarrow> bool" for f where
  arrive: "receiver_step f w (w\<lparr>rw_shared := (rw_shared w)\<lparr>requestCount := requestCount (rw_shared w) + 1\<rparr>,
     rw_running := rw_running w @ [Counted], rw_arrived := Suc (rw_arrived w)\<rparr>)"
| sleep: "rw_running w = gs @ Counted # hs \<Longrightarrow> may_draw f i \<Longrightarrow>
    simulated_delay (rf_jitter f) (getLatencyMs (rw_shared w)) i = Some delay \<Longrightarrow>
    receiver_step f w (w\<lparr>rw_running := gs @ Slept # hs\<rparr>)"
| panic: "rw_running w = gs @ Counted # hs \<Longrightarrow>
    simulated_delay (rf_jitter f) (getLatencyMs (rw_shared w)) i = None \<Longrightarrow>
    receiver_step f w (w\<lparr>rw_running := gs @ hs, rw_panicked := Suc (rw_panicked w)\<rparr>)"
| look: "rw_running w = gs @ Slept # hs \<Longrightarrow>
    g = (if rf_fail f then Decided True else if positive_rate (getFailRate (rw_shared w)) then Drawing else Decided False) \<Longrightarrow>
    receiver_step f w (w\<lparr>rw_running := gs @ g # hs\<rparr>)"
| draw: "rw_running w = gs @ Drawing # hs \<Longrightarrow> 0 \<le> r \<Longrightarrow> r < 1 \<Longrightarrow>
    receiver_step f w (w\<lparr>rw_running := gs @ Decided (float_less (Finite r) (getFailRate (rw_shared w))) # hs\<rparr>)"
| respond: "rw_running w = gs @ Decided shouldFail # hs \<Longrightarrow> count_answer shouldFail (rw_shared w) = (a, s) \<Longrightarrow>
    receiver_step f w (w\<lparr>rw_shared := s, rw_running := gs @ hs,
      rw_succeeded := rw_succeeded w + (if shouldFail then 0 else 1),
      rw_failed := rw_failed w + (if shouldFail then 1 else 0)\<rparr>)"
| control: "decode_control httpMethod body = Inr req \<Longrightarrow>
    receiver_step f w (w\<lparr>rw_running := rw_running w @ [Setting req]\<rparr>)"
| set_rate: "rw_running w = gs @ Setting req # hs \<Longrightarrow>
    receiver_step f w (w\<lparr>rw_shared := apply_rate req (rw_shared w), rw_running := gs @ SettingLatency req # hs\<rparr>)"
| set_latency: "rw_running w = gs @ SettingLatency req # hs \<Longrightarrow>
    receiver_step f w (w\<lparr>rw_shared := apply_latency req (rw_shared w), rw_running := gs @ hs\<rparr>)"
| take_total: "rw_reporter w = Ticking \<Longrightarrow>
    receiver_step f w (w\<lparr>rw_shared := (rw_shared w)\<lparr>requestCount := 0\<rparr>,
      rw_reporter := TookTotal (requestCount (rw_shared w))\<rparr>)"
| take_success: "rw_reporter w = TookTotal t \<Longrightarrow>
    receiver_step f w (w\<lparr>rw_shared := (rw_shared w)\<lparr>successCount := 0\<rparr>,
      rw_reporter := TookSuccess t (successCount (rw_shared w))\<rparr>)"
| take_failures: "rw_reporter w = TookSuccess t n \<Longrightarrow>
    receiver_step f w (w\<lparr>rw_shared := (rw_shared w)\<lparr>failureCount := 0\<rparr>, rw_reporter := Ticking,
      rw_printed := rw_printed w @ (if t > 0 then [(t, n, failureCount (rw_shared w))] else [])\<rparr>)"

inductive receiver_reach :: "receiver_flags \<Rightarrow> receiver_world \<Rightarrow> bool" for f where
  reach_start: "receiver_reach f \<lparr>rw_shared = receiver_start f, rw_running = [], rw_reporter = Ticking, rw_printed = [],
     rw_arrived = 0, rw_succeeded = 0, rw_failed = 0, rw_panicked = 0\<rparr>"
| reach_step: "receiver_reach f w \<Longrightarrow> receiver_step f w w' \<Longrightarrow> receiver_reach f w'"

text \<open>The requests that are being served, and what the reporter holds of the total.\<close>

fun is_request :: "goroutine \<Rightarrow> bool" where
  "is_request (Setting _) = False"
| "is_request (SettingLatency _) = False"
| "is_request _ = True"

definition in_flight :: "receiver_world \<Rightarrow> nat" where
  "in_flight w = length (filter is_request (rw_running w))"

fun held_total :: "reporter \<Rightarrow> 64 word" where
  "held_total Ticking = 0"
| "held_total (TookTotal t) = t"
| "held_total (TookSuccess t _) = t"

definition printed_total :: "receiver_world \<Rightarrow> 64 word" where
  "printed_total w = sum_list (map fst (rw_printed w))"

lemma apply_keeps_counters [simp]:
  "requestCount (apply_rate req s) = requestCount s" "requestCount (apply_latency req s) = requestCount s"
  by (simp_all add: apply_rate_def apply_latency_def setFailRate_def setLatencyMs_def split: option.split)

lemma count_answer_requests: "count_answer b s = (a, s') \<Longrightarrow> requestCount s' = requestCount s"
  by (auto simp: count_answer_def split: if_splits)

text \<open>Every request is accounted for: it has been answered, has panicked or is being served, and it is
  in exactly one of the totals that were printed, the one the reporter holds and the counter.  The
  counters are 64 bits wide, and so is this sum.\<close>

lemma requests_accounted:
  assumes "receiver_reach f w"
  shows "rw_arrived w = rw_succeeded w + rw_failed w + rw_panicked w + in_flight w"
    and "of_nat (rw_arrived w) = printed_total w + held_total (rw_reporter w) + requestCount (rw_shared w)"
  using assms
proof induction
  case reach_start
  case 1 show ?case by (simp add: in_flight_def)
  case 2 show ?case by (simp add: printed_total_def receiver_start_def setFailRate_def setLatencyMs_def Let_def)
next
  case (reach_step w w')
  case 1 from reach_step(2) reach_step.IH(1) show ?case by cases (auto simp: in_flight_def)
  case 2 from reach_step(2) reach_step.IH(2) show ?case
    by cases (auto simp: printed_total_def count_answer_requests word_gt_0 dest: count_answer_requests)
qed

text \<open>The handler of a webhook alone is one way these steps can be taken.\<close>

lemma alone_is_stepwise:
  assumes "webhook_handler f path i r (rw_shared w) = (Some a, s')" "path \<noteq> ''/health''" "may_draw f i" "0 \<le> r" "r < 1"
  obtains w' where "(receiver_step f)\<^sup>*\<^sup>* w w'" "rw_shared w' = s'" "rw_running w' = rw_running w"
proof -
  let ?gs = "rw_running w"
  let ?s1 = "(rw_shared w)\<lparr>requestCount := requestCount (rw_shared w) + 1\<rparr>"
  let ?w1 = "w\<lparr>rw_shared := ?s1, rw_running := ?gs @ [Counted], rw_arrived := Suc (rw_arrived w)\<rparr>"
  let ?w2 = "?w1\<lparr>rw_running := ?gs @ [Slept]\<rparr>"
  let ?fail = "rf_fail f \<or> (positive_rate (getFailRate ?s1) \<and> float_less (Finite r) (getFailRate ?s1))"
  let ?w3 = "?w2\<lparr>rw_running := ?gs @ [Decided ?fail]\<rparr>"
  obtain delay where d: "simulated_delay (rf_jitter f) (getLatencyMs ?s1) i = Some delay"
    and a: "count_answer ?fail ?s1 = (a, s')"
    using assms(1,2) by (auto simp: webhook_handler_def Let_def apfst_def map_prod_def split: option.splits prod.splits)
  have 1: "receiver_step f w ?w1" by (rule arrive)
  have 2: "receiver_step f ?w1 ?w2" using sleep [of ?w1 ?gs "[]" f i delay] d assms(3) by simp
  have 3: "(receiver_step f)\<^sup>*\<^sup>* ?w2 ?w3"
  proof (cases "\<not> rf_fail f \<and> positive_rate (getFailRate ?s1)")
    case True
    let ?m = "?w2\<lparr>rw_running := ?gs @ [Drawing]\<rparr>"
    have "receiver_step f ?w2 ?m" using look [of ?w2 ?gs "[]" Drawing f] True by simp
    moreover have "receiver_step f ?m ?w3" using draw [of ?m ?gs "[]" r f] True assms(4,5) by simp
    ultimately show ?thesis by (meson r_into_rtranclp rtranclp_trans)
  next
    case False
    then show ?thesis using look [of ?w2 ?gs "[]" "Decided ?fail" f]
      by (intro r_into_rtranclp) (cases "rf_fail f"; simp)
  qed
  obtain w4 where 4: "receiver_step f ?w3 w4" "rw_shared w4 = s'" "rw_running w4 = ?gs"
    using respond [of ?w3 ?gs ?fail "[]" a s' f] a by auto
  have "(receiver_step f)\<^sup>*\<^sup>* w w4"
    using 1 2 3 4(1) by (meson converse_rtranclp_into_rtranclp rtranclp.rtrancl_into_rtrancl)
  with 4(2,3) that show thesis by blast
qed

text \<open>A success is lost to the statistics when the request was counted in an earlier period and no
  other has arrived since: its period has no total, and nothing is printed.\<close>

lemma success_may_go_unprinted:
  assumes "\<not> rf_fail f" "rf_failRate f = Finite 0" "rf_jitter f = 0"
  shows "\<exists>w. receiver_reach f w \<and> rw_succeeded w = 1 \<and> rw_running w = [] \<and> rw_reporter w = Ticking
    \<and> successCount (rw_shared w) = 0 \<and> rw_printed w = [(1, 0, 0)]"
proof -
  let ?s = "receiver_start f"
  define u where "u s gs rep pr n = \<lparr>rw_shared = s, rw_running = gs, rw_reporter = rep, rw_printed = pr, rw_arrived = 1,
    rw_succeeded = n, rw_failed = 0, rw_panicked = 0\<rparr>" for s gs rep pr n
  note defs = receiver_start_def setFailRate_def setLatencyMs_def getFailRate_def Let_def u_def
  have z: "requestCount ?s = 0" "successCount ?s = 0" "failureCount ?s = 0" "\<not> positive_rate (getFailRate ?s)"
    "atomicFailRate ?s = Finite 0"
    using assms(2) by (simp_all add: defs positive_rate_def)
  have r: "receiver_reach f w'" if "receiver_reach f w" "receiver_step f w w''" "w'' = w'" for w w' w''
    using that reach_step by blast
  have 1: "receiver_reach f (u (?s\<lparr>requestCount := 1\<rparr>) [Counted] Ticking [] 0)"
    by (rule r [OF reach_start arrive]) (simp add: u_def z)
  have 2: "receiver_reach f (u ?s [Counted] (TookTotal 1) [] 0)"
    by (rule r [OF 1 take_total]) (simp_all add: u_def z)
  have 3: "receiver_reach f (u ?s [Counted] (TookSuccess 1 0) [] 0)"
    by (rule r [OF 2 take_success]) (simp_all add: u_def z)
  have 4: "receiver_reach f (u ?s [Counted] Ticking [(1, 0, 0)] 0)"
    by (rule r [OF 3 take_failures [of _ 1 0]]) (simp_all add: u_def z word_gt_0)
  have 5: "receiver_reach f (u ?s [Slept] Ticking [(1, 0, 0)] 0)"
    by (rule r [OF 4 sleep [of _ "[]" "[]" f 0]]) (simp_all add: u_def may_draw_def assms(3) simulated_delay_def)
  have 6: "receiver_reach f (u ?s [Decided False] Ticking [(1, 0, 0)] 0)"
    by (rule r [OF 5 look [of _ "[]" "[]" "Decided False" f]]) (simp_all add: u_def z assms(1))
  have 7: "receiver_reach f (u (?s\<lparr>successCount := 1\<rparr>) [] Ticking [(1, 0, 0)] 1)"
    by (rule r [OF 6 respond [of _ "[]" False "[]"]]) (simp_all add: u_def z count_answer_def)
  have 8: "receiver_reach f (u (?s\<lparr>successCount := 1\<rparr>) [] (TookTotal 0) [(1, 0, 0)] 1)"
    by (rule r [OF 7 take_total]) (simp_all add: u_def z)
  have 9: "receiver_reach f (u ?s [] (TookSuccess 0 1) [(1, 0, 0)] 1)"
    by (rule r [OF 8 take_success]) (simp_all add: u_def z)
  have "receiver_reach f (u ?s [] Ticking [(1, 0, 0)] 1)"
    by (rule r [OF 9 take_failures [of _ 0 1]]) (simp_all add: u_def z)
  then show ?thesis by (intro exI) (auto simp: u_def z)
qed

end
