(* ===== verification/Migrate.thy ===== *)
theory Migrate
  imports Lifecycle Config
begin

text \<open>
  \<^verbatim>\<open>cmd/migrate/main.go\<close>: the program that applies or reverts the migrations.  The database driver and
  the library that runs the migrations are operations on a world \<open>'w\<close>; the trail has the database
  handle, which \<open>log.Fatal\<close> leaves open because a deferred call does not run when the process exits.
\<close>

record 'w migrate_library =
  ml_Open :: "string \<Rightarrow> error option"
  ml_WithInstance :: "'w \<Rightarrow> error option \<times> 'w"
  ml_New :: "string \<Rightarrow> string \<Rightarrow> 'w \<Rightarrow> error option \<times> 'w"
  ml_Up :: "'w \<Rightarrow> error option \<times> 'w"
  ml_Down :: "'w \<Rightarrow> error option \<times> 'w"
  ml_ErrNoChange :: error

text \<open>The end of either direction: an error other than that there is nothing to change is fatal.\<close>

definition migrated :: "'w migrate_library \<Rightarrow> error option \<times> 'w \<Rightarrow> (exit \<times> trail) \<times> 'w" where
  "migrated lib r =
     (case r of (err, w) \<Rightarrow>
        if err \<noteq> None \<and> err \<noteq> Some (ml_ErrNoChange lib) then ((Exit 1, [Opened PgPool]), w)
        else ((Exit 0, [Opened PgPool, Closed PgPool]), w))"

definition migrate_main :: "'w migrate_library \<Rightarrow> environment \<Rightarrow> string \<Rightarrow> 'w \<Rightarrow> (exit \<times> trail) \<times> 'w" where
  "migrate_main lib env direction w =
     (let dbURL = env ''DATABASE_URL''
      in if dbURL = [] then ((Exit 1, []), w)
         else
           (case ml_Open lib dbURL of
              Some err \<Rightarrow> ((Exit 1, []), w)
            | None \<Rightarrow>
                (case ml_WithInstance lib w of
                   (Some err, w) \<Rightarrow> ((Exit 1, [Opened PgPool]), w)
                 | (None, w) \<Rightarrow>
                     (case ml_New lib ''file://migrations'' ''postgres'' w of
                        (Some err, w) \<Rightarrow> ((Exit 1, [Opened PgPool]), w)
                      | (None, w) \<Rightarrow>
                          if direction = ''up'' then migrated lib (ml_Up lib w)
                          else if direction = ''down'' then migrated lib (ml_Down lib w)
                          else ((Exit 1, [Opened PgPool]), w)))))"

text \<open>The program succeeds exactly when the migrations of its direction ran, or had nothing to do, and
  then it has closed the database.\<close>

lemma migrate_main_cases:
  assumes "migrate_main lib env direction w = ((r, tr), w')"
  obtains (success) w1 w2 err where "r = Exit 0" "open_after tr = {}" "env ''DATABASE_URL'' \<noteq> []"
      "ml_Open lib (env ''DATABASE_URL'') = None"
      "ml_WithInstance lib w = (None, w1)" "ml_New lib ''file://migrations'' ''postgres'' w1 = (None, w2)"
      "direction = ''up'' \<and> ml_Up lib w2 = (err, w') \<or> direction = ''down'' \<and> ml_Down lib w2 = (err, w')"
      "err = None \<or> err = Some (ml_ErrNoChange lib)"
  | (failure) "r = Exit 1" "open_after tr \<subseteq> {PgPool}"
  using assms
  by (auto simp: migrate_main_def migrated_def Let_def open_after_def
      split: if_splits option.splits prod.splits)

text \<open>A direction that is neither runs no migration.\<close>

lemma unknown_direction_migrates_nothing:
  assumes "direction \<noteq> ''up''" "direction \<noteq> ''down''"
  shows "migrate_main lib env direction w = migrate_main (lib\<lparr>ml_Up := up, ml_Down := down\<rparr>) env direction w"
    and "fst (fst (migrate_main lib env direction w)) = Exit 1"
  using assms by (auto simp: migrate_main_def Let_def split: option.splits prod.splits)

end
