(* ===== verification/Row_Scan.thy ===== *)
theory Row_Scan
  imports Pg_Schema
begin

text \<open>
  How rows of the table \<^verbatim>\<open>deliveries\<close> cross the wire in \<^verbatim>\<open>internal/repository/postgres/event.go\<close>.  A
  statement sends values and gets values by position: the arguments of an \<open>INSERT\<close> are matched with its
  list of columns, and \<open>scanDelivery\<close> stores what a query selects into the fields it names, in order.
  The theories of the repositories have rows with the fields of the Go struct; the lemmas here show
  that the lists of the statements agree with each other and with the scanners, so that this is what
  the positions amount to.
\<close>

subsection \<open>Values\<close>

datatype pg_value =
    PgText string
  | PgInt int
  | PgTime time
  | PgBool bool
  | PgNull

definition nullable :: "('a \<Rightarrow> pg_value) \<Rightarrow> 'a option \<Rightarrow> pg_value" where
  "nullable mk x = (case x of None \<Rightarrow> PgNull | Some y \<Rightarrow> mk y)"

fun status_text :: "DeliveryStatus \<Rightarrow> string" where
  "status_text DeliveryStatusPending = ''pending''"
| "status_text DeliveryStatusProcessing = ''processing''"
| "status_text DeliveryStatusDelivered = ''delivered''"
| "status_text DeliveryStatusRetrying = ''retrying''"
| "status_text DeliveryStatusThrottled = ''throttled''"
| "status_text DeliveryStatusFailed = ''failed''"

text \<open>A value is stored into a destination of its type; \<open>NULL\<close> only into a pointer.\<close>

fun scan_text :: "pg_value \<Rightarrow> string option" where
  "scan_text (PgText s) = Some s"
| "scan_text _ = None"

fun scan_int :: "pg_value \<Rightarrow> int option" where
  "scan_int (PgInt n) = Some n"
| "scan_int _ = None"

fun scan_time :: "pg_value \<Rightarrow> time option" where
  "scan_time (PgTime t) = Some t"
| "scan_time _ = None"

fun scan_bool :: "pg_value \<Rightarrow> bool option" where
  "scan_bool (PgBool b) = Some b"
| "scan_bool _ = None"

definition scan_ptr :: "(pg_value \<Rightarrow> 'a option) \<Rightarrow> pg_value \<Rightarrow> 'a option option" where
  "scan_ptr scan v = (if v = PgNull then Some None else map_option Some (scan v))"

abbreviation scan_text_ptr :: "pg_value \<Rightarrow> string option option" where "scan_text_ptr \<equiv> scan_ptr scan_text"
abbreviation scan_time_ptr :: "pg_value \<Rightarrow> time option option" where "scan_time_ptr \<equiv> scan_ptr scan_time"

text \<open>The column is of an enumeration type with exactly these values.\<close>

definition scan_status :: "pg_value \<Rightarrow> DeliveryStatus option" where
  "scan_status v = Option.bind (scan_text v) (map_of (map (\<lambda>st. (status_text st, st))
     [DeliveryStatusPending, DeliveryStatusProcessing, DeliveryStatusDelivered, DeliveryStatusRetrying,
      DeliveryStatusThrottled, DeliveryStatusFailed]))"

subsection \<open>Scanners\<close>

type_synonym 'r destination = "pg_value \<Rightarrow> 'r \<Rightarrow> 'r option"

definition dest :: "(pg_value \<Rightarrow> 'a option) \<Rightarrow> ('a \<Rightarrow> 'r \<Rightarrow> 'r) \<Rightarrow> 'r destination" where
  "dest scan put v r = map_option (\<lambda>x. put x r) (scan v)"

definition Scan_row :: "'r destination list \<Rightarrow> pg_value list \<Rightarrow> 'r \<Rightarrow> error + 'r" where
  "Scan_row dests row r =
     (if length row \<noteq> length dests then Inl (ErrText ''number of field descriptions must equal number of destinations'')
      else
        (case foldl (\<lambda>r (d, v). Option.bind r (d v)) (Some r) (zip dests row) of
           None \<Rightarrow> Inl (ErrText ''cannot scan into dest'')
         | Some r \<Rightarrow> Inr r))"

definition delivery_dests :: "Delivery destination list" where
  "delivery_dests =
     [dest scan_text (\<lambda>x d. d\<lparr>dl_ID := x\<rparr>),
      dest scan_text (\<lambda>x d. d\<lparr>dl_EventID := x\<rparr>),
      dest scan_text (\<lambda>x d. d\<lparr>dl_SubscriptionID := x\<rparr>),
      dest scan_text (\<lambda>x d. d\<lparr>dl_EventType := x\<rparr>),
      dest scan_text (\<lambda>x d. d\<lparr>dl_Source := x\<rparr>),
      dest scan_text (\<lambda>x d. d\<lparr>dl_Data := x\<rparr>),
      dest scan_text (\<lambda>x d. d\<lparr>dl_SubscriptionURL := x\<rparr>),
      dest scan_text_ptr (\<lambda>x d. d\<lparr>dl_SubscriptionSecret := x\<rparr>),
      dest scan_int (\<lambda>x d. d\<lparr>dl_MaxDeliveryRate := x\<rparr>),
      dest scan_status (\<lambda>x d. d\<lparr>dl_Status := x\<rparr>),
      dest scan_int (\<lambda>x d. d\<lparr>dl_Attempts := x\<rparr>),
      dest scan_int (\<lambda>x d. d\<lparr>dl_MaxAttempts := x\<rparr>),
      dest scan_int (\<lambda>x d. d\<lparr>dl_Generation := x\<rparr>),
      dest scan_time_ptr (\<lambda>x d. d\<lparr>dl_NextAttemptAt := x\<rparr>),
      dest scan_text_ptr (\<lambda>x d. d\<lparr>dl_LastError := x\<rparr>),
      dest scan_text_ptr (\<lambda>x d. d\<lparr>dl_ProcessingOwner := x\<rparr>),
      dest scan_time_ptr (\<lambda>x d. d\<lparr>dl_ProcessingDeadline := x\<rparr>),
      dest scan_time (\<lambda>x d. d\<lparr>dl_CreatedAt := x\<rparr>),
      dest scan_time (\<lambda>x d. d\<lparr>dl_UpdatedAt := x\<rparr>),
      dest scan_time_ptr (\<lambda>x d. d\<lparr>dl_DeliveredAt := x\<rparr>)]"

text \<open>The zero value before the scan; a scan without an error has replaced every field.\<close>

definition zero_delivery :: Delivery where
  "zero_delivery =
     \<lparr>dl_ID = [], dl_EventID = [], dl_SubscriptionID = [], dl_EventType = [], dl_Source = [], dl_Data = [],
      dl_SubscriptionURL = [], dl_SubscriptionSecret = None, dl_MaxDeliveryRate = 0, dl_Status = DeliveryStatusPending,
      dl_Attempts = 0, dl_MaxAttempts = 0, dl_Generation = 0, dl_NextAttemptAt = None, dl_LastError = None,
      dl_CreatedAt = 0, dl_UpdatedAt = 0, dl_DeliveredAt = None, dl_ProcessingOwner = None, dl_ProcessingDeadline = None\<rparr>"

definition scanDelivery :: "pg_value list \<Rightarrow> error + Delivery" where
  "scanDelivery row = Scan_row delivery_dests row zero_delivery"

definition on_delivery :: "Delivery destination \<Rightarrow> (Delivery \<times> bool) destination" where
  "on_delivery d v r = (case r of (x, b) \<Rightarrow> map_option (\<lambda>x. (x, b)) (d v x))"

definition scanClaimedDelivery :: "pg_value list \<Rightarrow> error + Delivery \<times> bool" where
  "scanClaimedDelivery row =
     Scan_row (map on_delivery delivery_dests @ [dest scan_bool (\<lambda>b (d, _). (d, b))]) row (zero_delivery, False)"

subsection \<open>Statements\<close>

text \<open>The table's columns with the values of a row, and what each statement lists.\<close>

definition delivery_row :: "Delivery \<Rightarrow> (string \<times> pg_value) list" where
  "delivery_row d =
     [(''id'', PgText (dl_ID d)), (''event_id'', PgText (dl_EventID d)),
      (''subscription_id'', PgText (dl_SubscriptionID d)), (''event_type'', PgText (dl_EventType d)),
      (''source'', PgText (dl_Source d)), (''data'', PgText (dl_Data d)),
      (''subscription_url'', PgText (dl_SubscriptionURL d)),
      (''subscription_secret'', nullable PgText (dl_SubscriptionSecret d)),
      (''max_delivery_rate'', PgInt (dl_MaxDeliveryRate d)), (''status'', PgText (status_text (dl_Status d))),
      (''attempts'', PgInt (dl_Attempts d)), (''max_attempts'', PgInt (dl_MaxAttempts d)),
      (''generation'', PgInt (dl_Generation d)), (''next_attempt_at'', nullable PgTime (dl_NextAttemptAt d)),
      (''last_error'', nullable PgText (dl_LastError d)),
      (''processing_owner'', nullable PgText (dl_ProcessingOwner d)),
      (''processing_deadline'', nullable PgTime (dl_ProcessingDeadline d)),
      (''created_at'', PgTime (dl_CreatedAt d)), (''updated_at'', PgTime (dl_UpdatedAt d)),
      (''delivered_at'', nullable PgTime (dl_DeliveredAt d))]"

definition replay_select :: "string list" where
  "replay_select =
     [''id'', ''event_id'', ''subscription_id'', ''event_type'', ''source'', ''data'', ''subscription_url'',
      ''subscription_secret'', ''max_delivery_rate'', ''status'', ''attempts'', ''max_attempts'',
      ''generation'', ''next_attempt_at'', ''last_error'', ''processing_owner'', ''processing_deadline'',
      ''created_at'', ''updated_at'', ''delivered_at'']"

definition event_deliveries_select :: "string list" where
  "event_deliveries_select =
     [''id'', ''event_id'', ''subscription_id'', ''event_type'', ''source'', ''data'', ''subscription_url'',
      ''subscription_secret'', ''max_delivery_rate'', ''status'', ''attempts'', ''max_attempts'',
      ''generation'', ''next_attempt_at'', ''last_error'', ''processing_owner'', ''processing_deadline'',
      ''created_at'', ''updated_at'', ''delivered_at'']"

definition claim_returning :: "string list" where
  "claim_returning =
     [''id'', ''event_id'', ''subscription_id'', ''event_type'', ''source'', ''data'', ''subscription_url'',
      ''subscription_secret'', ''max_delivery_rate'', ''status'', ''attempts'', ''max_attempts'',
      ''generation'', ''next_attempt_at'', ''last_error'', ''processing_owner'', ''processing_deadline'',
      ''created_at'', ''updated_at'', ''delivered_at'']"

definition insert_columns :: "string list" where
  "insert_columns =
     [''id'', ''event_id'', ''subscription_id'', ''event_type'', ''source'', ''data'', ''subscription_url'',
      ''subscription_secret'', ''max_delivery_rate'', ''status'', ''attempts'', ''max_attempts'',
      ''generation'', ''next_attempt_at'', ''last_error'', ''processing_owner'', ''processing_deadline'',
      ''created_at'', ''updated_at'', ''delivered_at'']"

definition insert_args :: "Delivery \<Rightarrow> pg_value list" where
  "insert_args d =
     [PgText (dl_ID d), PgText (dl_EventID d), PgText (dl_SubscriptionID d), PgText (dl_EventType d),
      PgText (dl_Source d), PgText (dl_Data d), PgText (dl_SubscriptionURL d),
      nullable PgText (dl_SubscriptionSecret d), PgInt (dl_MaxDeliveryRate d),
      PgText (status_text (dl_Status d)), PgInt (dl_Attempts d), PgInt (dl_MaxAttempts d),
      PgInt (dl_Generation d), nullable PgTime (dl_NextAttemptAt d), nullable PgText (dl_LastError d),
      nullable PgText (dl_ProcessingOwner d), nullable PgTime (dl_ProcessingDeadline d),
      PgTime (dl_CreatedAt d), PgTime (dl_UpdatedAt d), nullable PgTime (dl_DeliveredAt d)]"

text \<open>What a query selects of a row, and what the table holds after an insert.\<close>

definition selected :: "string list \<Rightarrow> (string \<rightharpoonup> pg_value) \<Rightarrow> pg_value list" where
  "selected cols row = map (\<lambda>c. case row c of Some v \<Rightarrow> v | None \<Rightarrow> PgNull) cols"

fun stored :: "pg_value \<Rightarrow> pg_value" where
  "stored (PgTime t) = PgTime (timestamptz t)"
| "stored v = v"

definition inserted_row :: "Delivery \<Rightarrow> (string \<rightharpoonup> pg_value)" where
  "inserted_row d = map_of (zip insert_columns (map stored (insert_args d)))"

subsection \<open>Positions and fields agree\<close>

lemma scan_values [simp]:
  "scan_ptr scan_text (nullable PgText x) = Some x" "scan_ptr scan_time (nullable PgTime t) = Some t"
  "scan_status (PgText (status_text st)) = Some st"
  by (auto simp: scan_ptr_def nullable_def split: option.split) (cases st; simp add: scan_status_def)

lemma stored_nullable [simp]:
  "stored (nullable PgText x) = nullable PgText x" "stored (nullable PgTime t) = nullable PgTime (map_option timestamptz t)"
  by (simp_all add: nullable_def split: option.split)

text \<open>The values of a row in the order of the columns of the statements.\<close>

lemma selected_row:
  "selected replay_select (map_of (delivery_row d)) = map snd (delivery_row d)"
  "selected event_deliveries_select (map_of (delivery_row d)) = map snd (delivery_row d)"
  "selected claim_returning (map_of (delivery_row d)) = map snd (delivery_row d)"
  by (simp_all add: selected_def replay_select_def event_deliveries_select_def claim_returning_def delivery_row_def)

lemma scan_row_values:
  "Scan_row delivery_dests (map snd (delivery_row d)) z = Inr (d :: Delivery)"
  by (simp add: Scan_row_def delivery_dests_def delivery_row_def dest_def)

text \<open>Every query of a delivery scans the row it has selected, and the claim its flag with it.\<close>

lemma queries_scan_their_rows:
  "scanDelivery (selected replay_select (map_of (delivery_row d))) = Inr d"
  "scanDelivery (selected event_deliveries_select (map_of (delivery_row d))) = Inr d"
  "scanClaimedDelivery (selected claim_returning (map_of (delivery_row d)) @ [PgBool reclaimed]) = Inr (d, reclaimed)"
proof -
  show "scanDelivery (selected replay_select (map_of (delivery_row d))) = Inr d"
    "scanDelivery (selected event_deliveries_select (map_of (delivery_row d))) = Inr d"
    by (simp_all add: selected_row scanDelivery_def scan_row_values)
  show "scanClaimedDelivery (selected claim_returning (map_of (delivery_row d)) @ [PgBool reclaimed]) = Inr (d, reclaimed)"
    unfolding selected_row
    by (simp add: scanClaimedDelivery_def Scan_row_def delivery_dests_def delivery_row_def dest_def on_delivery_def)
qed

text \<open>The row an insert leaves is the delivery with its times in microseconds.\<close>

lemma inserted_row_columns: "inserted_row d = map_of (delivery_row (delivery_columns d))"
  by (simp add: inserted_row_def insert_columns_def insert_args_def delivery_row_def delivery_columns_def)

text \<open>C12 The positions of the statements fit the types and the order of the fields: what the replay, the
  listing and the claims of deliveries select is scanned without an error and gives the row that
  was selected, the claim with its flag, and a delivery that was inserted is read back as it was,
  its times in microseconds.\<close>

theorem statements_and_scanners_agree:
  "scanDelivery (selected replay_select (map_of (delivery_row d))) = Inr d
   \<and> scanDelivery (selected event_deliveries_select (inserted_row d)) = Inr (delivery_columns d)
   \<and> scanClaimedDelivery (selected claim_returning (map_of (delivery_row d)) @ [PgBool reclaimed]) = Inr (d, reclaimed)"
  by (simp only: queries_scan_their_rows inserted_row_columns simp_thms)

text \<open>A value of another type, or \<open>NULL\<close> in a field that is no pointer, is an error.\<close>

lemma scan_refuses:
  assumes "length vs = 19"
  shows "\<exists>e. scanDelivery (PgNull # vs) = Inl e"
proof -
  have "foldl (\<lambda>r (d, v). Option.bind r (d v)) None xs = None" for xs :: "(Delivery destination \<times> pg_value) list"
    by (induction xs) auto
  with assms show ?thesis by (simp add: scanDelivery_def Scan_row_def delivery_dests_def dest_def)
qed

end
