(* ===== verification/Spec2Isabelle.thy ===== *)
theory Spec2Isabelle
  imports Fleet Worker_Service Test_Receiver Migrate Row_Scan
begin

text \<open>
  \<^bold>\<open>Dispatch: a verification of the webhook delivery service\<close>

  \<^bold>\<open>The program.\<close>  Clients post events to an HTTP API, which publishes them to Kafka.  Workers
  consume them, create one delivery for every subscription whose filter matches, and send each
  delivery as a signed HTTP request.  What fails is retried with growing delays by a poller that
  claims deliveries from PostgreSQL under a lease.  A rate limiter (in the process, or in Redis)
  bounds the requests to a destination.  A cleaner removes what is old.  All processes share the
  database; a delivery row with its owner and deadline is the only thing they synchronize on.

  \<^bold>\<open>Theories, in the order of their dependence.\<close>

  \<^item> \<^verbatim>\<open>Dispatch_Prelude\<close>: durations, decimal numbers, lemmas on lists, options and tables of rows,
    and the collections of simplification rules.
  \<^item> \<^verbatim>\<open>Domain\<close> (\<^verbatim>\<open>internal/domain\<close>): errors, events, subscriptions with their filters, deliveries, the
    \<open>MarkAs...\<close> methods, \<open>ScheduleReplay\<close>, and \<open>ProjectEventFromDeliveries\<close>, which is shown equal to
    the documented precedence.
  \<^item> \<^verbatim>\<open>Retry_Policy\<close> (\<^verbatim>\<open>internal/retry/policy.go\<close>): the delay in \<open>float64\<close> arithmetic and its bounds.
  \<^item> \<^verbatim>\<open>Pg_Schema\<close>, \<^verbatim>\<open>Event_Repository\<close>, \<^verbatim>\<open>Subscription_Repository\<close>, \<^verbatim>\<open>Retention_Repository\<close>
    (\<^verbatim>\<open>migrations\<close>, \<^verbatim>\<open>internal/repository/postgres\<close>): the tables, the constraints and every method of
    the repositories as a function on the database with the driver's errors as an argument; the
    invariant \<open>db_ok\<close> and that every method keeps it on every path.
  \<^item> \<^verbatim>\<open>Row_Scan\<close> (\<^verbatim>\<open>event.go\<close>): how rows of deliveries are sent and scanned by position, shown to agree with
    the rows by field of the other theories.
  \<^item> \<^verbatim>\<open>Pg_World\<close>: the repositories as operations on a world in which other processes act between any
    two calls.
  \<^item> \<^verbatim>\<open>Cleaner\<close> (\<^verbatim>\<open>internal/retention/cleaner.go\<close>): the cleanup loop over its signals.
  \<^item> \<^verbatim>\<open>Redis_Rate_Limiter\<close>, \<^verbatim>\<open>Local_Rate_Limiter\<close> (\<^verbatim>\<open>internal/resilience\<close>): the sliding window of the
    Redis script over a sorted set, and the limiter over \<^verbatim>\<open>x/time/rate\<close>.
  \<^item> \<^verbatim>\<open>Go_Text\<close>, \<^verbatim>\<open>Json_Grammar\<close>, \<^verbatim>\<open>Json_Decode\<close>, \<^verbatim>\<open>Hmac_Sha256\<close>: what the program uses of the standard
    library: UTF-8, the encoder and decoder of \<^verbatim>\<open>encoding/json\<close> with a proof that its syntax check
    decides the grammar, and HMAC-SHA256 on 32-bit words.
  \<^item> \<^verbatim>\<open>Webhook\<close> (\<^verbatim>\<open>internal/kafka/webhook.go\<close>, \<^verbatim>\<open>signature.go\<close>): payload, request, signature, and the
    classes of status codes.
  \<^item> \<^verbatim>\<open>Delivery_Handler\<close>, \<^verbatim>\<open>Delivery_Runtime\<close> (\<^verbatim>\<open>handler.go\<close>, \<^verbatim>\<open>delivery.go\<close>): an attempt, its outcome,
    \<open>ProcessDeliveries\<close> and \<open>ProcessBatch\<close>, generically over their dependencies and then on the
    PostgreSQL repositories.  \<^verbatim>\<open>Handler_Options\<close>: the construction of the handler.
  \<^item> \<^verbatim>\<open>Event_Codec\<close>, \<^verbatim>\<open>Producer\<close>, \<^verbatim>\<open>Consumer\<close> (\<^verbatim>\<open>producer.go\<close>, \<^verbatim>\<open>consumer.go\<close>): the message on the wire,
    publishing, collecting a batch, committing.
  \<^item> \<^verbatim>\<open>Poller\<close> (\<^verbatim>\<open>internal/retry/poller.go\<close>): the poll loop as a step relation in which the goroutines
    of the batches interleave.
  \<^item> \<^verbatim>\<open>Fleet\<close>: all processes of a deployment on one database, shown to refine an abstract life cycle
    of a single delivery.
  \<^item> \<^verbatim>\<open>Request_Context\<close> (\<^verbatim>\<open>logging.go\<close>, \<^verbatim>\<open>internal/clock\<close>): the values kept in a context, and the clocks.
  \<^item> \<^verbatim>\<open>Api_Handler\<close> (\<^verbatim>\<open>internal/api\<close>): every endpoint, with the decoding of its body.
  \<^item> \<^verbatim>\<open>Config\<close> (\<^verbatim>\<open>internal/config\<close>), \<^verbatim>\<open>Health\<close> (\<^verbatim>\<open>health.go\<close>, \<^verbatim>\<open>dependency_checks.go\<close>), \<^verbatim>\<open>Metrics\<close>
    (\<^verbatim>\<open>metrics.go\<close>, \<^verbatim>\<open>middleware.go\<close>, the observers of \<^verbatim>\<open>worker.go\<close>).
  \<^item> \<^verbatim>\<open>Lifecycle\<close>, \<^verbatim>\<open>Worker_Service\<close>, \<^verbatim>\<open>Api_Server\<close> (\<^verbatim>\<open>internal/app\<close>, \<^verbatim>\<open>cmd/worker\<close>, \<^verbatim>\<open>cmd/dispatch\<close>): the
    two processes put together from the components, from their environment to their exit.
  \<^item> \<^verbatim>\<open>Tools\<close> (\<^verbatim>\<open>cmd/seed\<close>, \<^verbatim>\<open>cmd/producer\<close>): the clients that fill a system for demonstrations and load
    tests.  \<^verbatim>\<open>Test_Receiver\<close> (\<^verbatim>\<open>scripts/testserver\<close>): the destination they deliver to, with \<open>ParseFloat\<close> and
    its goroutines interleaved at their atomic accesses; the lemmas show that it obeys the control
    message of \<^verbatim>\<open>cmd/seed\<close>.  \<^verbatim>\<open>Migrate\<close> (\<^verbatim>\<open>cmd/migrate\<close>): the program around the migration library.

  \<^bold>\<open>How code is modelled.\<close>  A struct is a record, an error a value of \<open>error\<close>, a function that can
  fail returns \<open>error + 'a\<close>.  Stateful code passes a world: the records of dependencies
  (\<open>DeliveryHandler\<close>, \<open>Consumer\<close>, \<open>Poller\<close>, \<open>Handler\<close>) have an operation on the world for every method the
  code calls, so that a function of the model calls them where the code does.  Each such
  interface has a locale with the laws its client relies on (\<open>delivery_runtime\<close>, which
  \<open>delivery_coverage\<close> extends, \<open>event_handler\<close>,
  \<open>poller_environment\<close>, \<open>retention_repository\<close>, \<open>message_writer\<close>, \<open>api_environment\<close>, \<open>rate_package\<close>,
  \<open>sorted_set\<close>, \<open>service\<close>), and each is interpreted on the component that provides it.  A time is a
  number of nanoseconds; where the width of an integer or the rounding of a float matters, it
  is written out.

  \<^bold>\<open>What is shown.\<close>  For a delivery: it is claimed by one worker at a time, a stored outcome was
  computed from the row it replaces, an expired claim cannot write, the attempts it counts are
  bounded, and it is never stuck (\<^verbatim>\<open>Event_Repository\<close>, \<^verbatim>\<open>Fleet\<close>).  For an event: accepted means written
  and decodable (a write that failed may have left the message all the same), a processed batch
  means a row for it and for each of its matching subscriptions, a commit request names only
  messages that are stored or no events, its status is the projection of its deliveries
  (\<^verbatim>\<open>Api_Handler\<close>, \<^verbatim>\<open>Delivery_Runtime\<close>, \<^verbatim>\<open>Consumer\<close>, \<^verbatim>\<open>Domain\<close>).  For the database: \<open>db_ok\<close> holds whatever fails.  For the
  loops: they end, bound their concurrency, and leave nothing due (\<^verbatim>\<open>Consumer\<close>, \<^verbatim>\<open>Poller\<close>).  For the
  processes: a start is all or nothing, a shutdown closes everything, a validated configuration
  arrives unchanged, the counters agree with the outcomes.  Where the code does not do what it
  means to, the behaviour it has is proved: answers that cannot be stored, messages passed over
  after a failed batch, events that fail every batch, a delivery set that grows when a message is
  delivered again, colliding members of the rate window (whose bound is proved for members that
  differ), a delay above its cap, a nil Redis client that is pinged.

  \<^bold>\<open>Bounds and fuel.\<close>  The scanner of JSON values has its depth as fuel, at most the length of the
  text, and is shown never to run out.  Loops that wait for the outside (collecting, consuming,
  cleaning) recurse over the list of what they meet; a list that ends before the loop does
  means that it is still running, and termination is stated for the lists that contain the
  deadline or the stop signal.  The poll loop is a step relation.

  \<^bold>\<open>Not modelled.\<close>  Log records; the drivers of PostgreSQL, Redis, Kafka and Prometheus, the chi
  router and the migration library, which are parameters; the isolation of concurrent
  transactions beyond the row locks the statements take (a method is one step, other processes
  act between methods); the spelling PostgreSQL gives to JSONB values; the rendering of response
  values as JSON; the flag package; \<^verbatim>\<open>scripts/benchmark\<close>, which measures a running system, and
  \<^verbatim>\<open>internal/testutil\<close>, which starts containers for tests.
\<close>

end
